(* ===== verification/Prelude.thy ===== *)
theory Prelude
  imports Complex_Main "HOL-Library.Char_ord" "HOL-Library.List_Lexorder" "HOL-Library.Word"
    "HOL-Library.Multiset"
begin

section \<open>Shared vocabulary: 64-bit integers, results, lists, sorting\<close>

text \<open>
  What every component shares: Go's \<open>int64\<close>/\<open>int\<close> arithmetic (an \<open>int\<close> with the wrap-around
  written out), bytes and strings (Go strings are byte sequences: one \<open>char\<close> per byte, compared
  bytewise), results of fallible calls (\<open>Inl\<close> the error, \<open>Inr\<close> the value), the sorting
  routine that stands for \<open>sort.SliceStable\<close> and, where the order is total, \<open>sort.Slice\<close>,
  and the collections of facts that the component theories extend.
\<close>

named_theorems int64_simps \<open>facts that remove the wrap-around of int64 under bounds\<close>
named_theorems go_string_simps \<open>unfoldings and rewrite rules of the Go string operations\<close>
named_theorems store_simps \<open>facts of the durable stores and of the file system model\<close>
named_theorems eligibility_simps \<open>unfoldings of the evidence predicates\<close>

type_synonym bytes = "string"

subsection \<open>int64\<close>

text \<open>The value of an \<open>int64\<close> expression whose mathematical value is \<open>x\<close>.\<close>

definition i64 :: "int \<Rightarrow> int" where
  "i64 x = (x + 9223372036854775808) mod 18446744073709551616 - 9223372036854775808"

definition in_i64 :: "int \<Rightarrow> bool" where
  "in_i64 x \<longleftrightarrow> - 9223372036854775808 \<le> x \<and> x < 9223372036854775808"

lemma i64_id [int64_simps]: "in_i64 x \<Longrightarrow> i64 x = x"
  by (simp add: i64_def in_i64_def)

lemma in_i64_i64 [simp]: "in_i64 (i64 x)"
proof -
  have "0 \<le> (x + 9223372036854775808) mod 18446744073709551616"
    and "(x + 9223372036854775808) mod 18446744073709551616 < 18446744073709551616"
    by simp_all
  then show ?thesis by (simp add: i64_def in_i64_def)
qed

lemma i64_eq_signed_take_bit: "i64 x = signed_take_bit 63 x"
  by (simp add: i64_def signed_take_bit_eq_take_bit_shift take_bit_eq_mod)

lemma i64_i64 [simp]: "i64 (i64 x) = i64 x"
  by (simp add: int64_simps)

text \<open>Go's integer division truncates towards zero.\<close>

definition quot_int :: "int \<Rightarrow> int \<Rightarrow> int" where
  "quot_int a b = sgn a * sgn b * (\<bar>a\<bar> div \<bar>b\<bar>)"

lemma quot_int_nonneg: "0 \<le> a \<Longrightarrow> 0 < b \<Longrightarrow> quot_int a b = a div b"
  by (cases "a = 0") (auto simp: quot_int_def)

lemma quot_int_half_bounds: "0 \<le> a \<Longrightarrow> 0 \<le> quot_int a 2 \<and> quot_int a 2 \<le> a"
  by (auto simp: quot_int_nonneg)

subsection \<open>Results of fallible calls\<close>

definition is_ok :: "'e + 'a \<Rightarrow> bool" where
  "is_ok r = (case r of Inl _ \<Rightarrow> False | Inr _ \<Rightarrow> True)"

lemma is_ok_simps [simp]: "\<not> is_ok (Inl e)" "is_ok (Inr v)"
  by (simp_all add: is_ok_def)

definition require :: "bool \<Rightarrow> 'e \<Rightarrow> 'e + 'a \<Rightarrow> 'e + 'a" where
  "require c e k = (if c then k else Inl e)"

lemma require_Inr [simp]: "require c e k = Inr v \<longleftrightarrow> c \<and> k = Inr v"
  by (simp add: require_def)

lemma require_is_ok [simp]: "is_ok (require c e k) \<longleftrightarrow> c \<and> is_ok k"
  by (simp add: require_def)

definition and_then :: "'e + 'a \<Rightarrow> ('a \<Rightarrow> 'e + 'b) \<Rightarrow> 'e + 'b" where
  "and_then r f = (case r of Inl e \<Rightarrow> Inl e | Inr v \<Rightarrow> f v)"

lemma and_then_simps [simp]: "and_then (Inl e) f = Inl e" "and_then (Inr v) f = f v"
  by (simp_all add: and_then_def)

lemma and_then_Inr: "and_then r f = Inr w \<longleftrightarrow> (\<exists>v. r = Inr v \<and> f v = Inr w)"
  by (cases r) auto

lemma and_then_is_ok: "is_ok (and_then r f) \<longleftrightarrow> (\<exists>v. r = Inr v \<and> is_ok (f v))"
  by (cases r) auto

subsection \<open>Stable sorting by a strict comparison\<close>

primrec insert_by :: "('a \<Rightarrow> 'a \<Rightarrow> bool) \<Rightarrow> 'a \<Rightarrow> 'a list \<Rightarrow> 'a list" where
  "insert_by lt x [] = [x]"
| "insert_by lt x (y # ys) = (if lt y x then y # insert_by lt x ys else x # y # ys)"

primrec sort_by :: "('a \<Rightarrow> 'a \<Rightarrow> bool) \<Rightarrow> 'a list \<Rightarrow> 'a list" where
  "sort_by lt [] = []"
| "sort_by lt (x # xs) = insert_by lt x (sort_by lt xs)"

lemma mset_insert_by [simp]: "mset (insert_by lt x xs) = add_mset x (mset xs)"
  by (induction xs) auto

lemma mset_sort_by [simp]: "mset (sort_by lt xs) = mset xs"
  by (induction xs) auto

lemma set_insert_by [simp]: "set (insert_by lt x xs) = insert x (set xs)"
  by (induction xs) auto

lemma set_sort_by [simp]: "set (sort_by lt xs) = set xs"
  by (induction xs) auto

lemma length_insert_by [simp]: "length (insert_by lt x xs) = Suc (length xs)"
  by (induction xs) auto

lemma length_sort_by [simp]: "length (sort_by lt xs) = length xs"
  by (induction xs) auto

lemma distinct_insert_by [simp]: "distinct (insert_by lt x xs) \<longleftrightarrow> x \<notin> set xs \<and> distinct xs"
  by (induction xs) auto

lemma distinct_sort_by [simp]: "distinct (sort_by lt xs) \<longleftrightarrow> distinct xs"
  by (induction xs) auto

text \<open>The contract of a Go comparison function: a strict weak order.\<close>

locale comparison =
  fixes lt :: "'a \<Rightarrow> 'a \<Rightarrow> bool"
  assumes less_irrefl: "\<not> lt x x"
    and less_trans: "lt x y \<Longrightarrow> lt y z \<Longrightarrow> lt x z"
    and less_cotrans: "lt x z \<Longrightarrow> lt x y \<or> lt y z"
begin

lemma less_asym: "lt x y \<Longrightarrow> \<not> lt y x"
  using less_irrefl less_trans by blast

lemma not_less_trans: "\<not> lt y x \<Longrightarrow> \<not> lt z y \<Longrightarrow> \<not> lt z x"
  using less_cotrans by blast

lemma sorted_insert_by:
  "sorted_wrt (\<lambda>a b. \<not> lt b a) xs \<Longrightarrow> sorted_wrt (\<lambda>a b. \<not> lt b a) (insert_by lt x xs)"
proof (induction xs)
  case Nil
  then show ?case by simp
next
  case (Cons y ys)
  show ?case
  proof (cases "lt y x")
    case True
    with Cons show ?thesis by (auto dest: less_asym)
  next
    case False
    then have "\<forall>z \<in> set (y # ys). \<not> lt z x"
      using Cons.prems not_less_trans[OF False] by auto
    with False Cons.prems show ?thesis by simp
  qed
qed

lemma sorted_sort_by: "sorted_wrt (\<lambda>a b. \<not> lt b a) (sort_by lt xs)"
  by (induction xs) (auto intro: sorted_insert_by)

lemma insert_by_head: "\<forall>y \<in> set xs. \<not> lt y x \<Longrightarrow> insert_by lt x xs = x # xs"
  by (cases xs) auto

lemma sort_by_sorted_id: "sorted_wrt (\<lambda>a b. \<not> lt b a) xs \<Longrightarrow> sort_by lt xs = xs"
  by (induction xs) (auto intro: insert_by_head)

lemma sort_by_idem: "sort_by lt (sort_by lt xs) = sort_by lt xs"
  by (rule sort_by_sorted_id[OF sorted_sort_by])

lemma filter_insert_by:
  "sorted_wrt (\<lambda>a b. \<not> lt b a) xs \<Longrightarrow> filter P (insert_by lt x xs) =
    (if P x then insert_by lt x (filter P xs) else filter P xs)"
proof (induction xs)
  case Nil
  then show ?case by simp
next
  case (Cons y ys)
  show ?case
  proof (cases "lt y x")
    case True
    with Cons show ?thesis by auto
  next
    case False
    then have "\<forall>z \<in> set (filter P (y # ys)). \<not> lt z x"
      using Cons.prems not_less_trans[OF False] by auto
    then have "insert_by lt x (filter P (y # ys)) = x # filter P (y # ys)"
      by (rule insert_by_head)
    with False show ?thesis by simp
  qed
qed

text \<open>Stability: any sublist picked by a predicate is sorted on its own.\<close>

lemma filter_sort_by: "filter P (sort_by lt xs) = sort_by lt (filter P xs)"
  by (induction xs) (auto simp: filter_insert_by[OF sorted_sort_by])

text \<open>Where the comparison separates the elements, the result depends on the multiset only.\<close>

lemma sorted_unique:
  assumes "mset xs = mset ys"
    and "sorted_wrt (\<lambda>a b. \<not> lt b a) xs" and "sorted_wrt (\<lambda>a b. \<not> lt b a) ys"
    and "\<And>a b. a \<in> set xs \<Longrightarrow> b \<in> set xs \<Longrightarrow> \<not> lt a b \<Longrightarrow> \<not> lt b a \<Longrightarrow> a = b"
  shows "xs = ys"
  using assms
proof (induction xs arbitrary: ys)
  case Nil
  then show ?case by simp
next
  case (Cons x xs)
  then obtain y ys' where ys: "ys = y # ys'" by (cases ys) auto
  have sets: "set (x # xs) = set ys" using Cons.prems(1) by (metis set_mset_mset)
  have "y \<in> set (x # xs)" "x \<in> set ys" using sets ys by auto
  then have "\<not> lt y x" "\<not> lt x y"
    using Cons.prems(2,3) ys by (auto simp: less_irrefl)
  then have "x = y" using Cons.prems(4)[of x y] sets ys by auto
  moreover have "xs = ys'"
    using Cons.prems ys \<open>x = y\<close> by (intro Cons.IH) auto
  ultimately show ?case using ys by simp
qed

lemma sort_by_mset_cong:
  assumes "mset xs = mset ys"
    and "\<And>a b. a \<in> set xs \<Longrightarrow> b \<in> set xs \<Longrightarrow> \<not> lt a b \<Longrightarrow> \<not> lt b a \<Longrightarrow> a = b"
  shows "sort_by lt xs = sort_by lt ys"
  using assms by (intro sorted_unique sorted_sort_by) auto

end

text \<open>Comparisons that compare one key, and those that fall back on a second comparison.\<close>

lemma comparison_key: "comparison (\<lambda>x y. f x < (f y :: 'k :: linorder))"
  by unfold_locales auto

lemma comparison_lex:
  assumes "comparison lt"
  shows "comparison (\<lambda>x y. if f x \<noteq> f y then f x < (f y :: 'k :: linorder) else lt x y)"
proof
  note laws = comparison.less_irrefl[OF assms] comparison.less_trans[OF assms]
    comparison.less_cotrans[OF assms]
  show "\<not> (if f x \<noteq> f x then f x < f x else lt x x)" for x
    using laws(1) by simp
  show "(if f x \<noteq> f z then f x < f z else lt x z)"
    if "(if f x \<noteq> f y then f x < f y else lt x y)"
      "(if f y \<noteq> f z then f y < f z else lt y z)" for x y z
    using that laws(2)[of x y z] by (cases "f x = f y"; cases "f y = f z") (auto split: if_splits)
  show "(if f x \<noteq> f y then f x < f y else lt x y) \<or>
    (if f y \<noteq> f z then f y < f z else lt y z)"
    if "(if f x \<noteq> f z then f x < f z else lt x z)" for x y z
    using that laws(3)[of x z y] by (cases "f x = f y"; cases "f y = f z") (auto split: if_splits)
qed

end
