(* ===== verification/GoStrings.thy ===== *)
theory GoStrings
  imports Prelude
begin

section \<open>The string functions of Go's standard library that the program calls\<close>

text \<open>
  Strings are byte sequences. \<open>strings.TrimSpace\<close> removes the UTF-8 encodings of every code point
  with the Unicode property White\_Space; the case mappings are those of ASCII, which is what the
  program's keywords, stance names and JSON field names use.
\<close>

subsection \<open>Prefixes, suffixes, substrings\<close>

definition has_prefix :: "string \<Rightarrow> string \<Rightarrow> bool" where
  "has_prefix s p \<longleftrightarrow> take (length p) s = p"

definition trim_prefix :: "string \<Rightarrow> string \<Rightarrow> string" where
  "trim_prefix s p = (if has_prefix s p then drop (length p) s else s)"

definition has_suffix :: "string \<Rightarrow> string \<Rightarrow> bool" where
  "has_suffix s p \<longleftrightarrow> has_prefix (rev s) (rev p)"

definition trim_suffix :: "string \<Rightarrow> string \<Rightarrow> string" where
  "trim_suffix s p = (if has_suffix s p then take (length s - length p) s else s)"

primrec str_contains :: "string \<Rightarrow> string \<Rightarrow> bool" where
  "str_contains [] p = (p = [])"
| "str_contains (c # s) p = (has_prefix (c # s) p \<or> str_contains s p)"

definition contains_any :: "string \<Rightarrow> string list \<Rightarrow> bool" where
  "contains_any s ps = list_ex (str_contains s) ps"

lemma has_prefix_append [simp]: "has_prefix (p @ s) p"
  by (simp add: has_prefix_def)

lemma has_prefixE:
  assumes "has_prefix s p"
  obtains r where "s = p @ r"
  using assms unfolding has_prefix_def by (metis append_take_drop_id)

lemma has_prefix_iff: "has_prefix s p \<longleftrightarrow> (\<exists>r. s = p @ r)"
  by (auto elim: has_prefixE)

lemma trim_prefix_append [simp]: "trim_prefix (p @ s) p = s"
  by (simp add: trim_prefix_def)

lemma has_suffix_iff: "has_suffix s p \<longleftrightarrow> (\<exists>r. s = r @ p)"
  by (auto simp: has_suffix_def has_prefix_iff) (metis rev_append rev_rev_ident)

lemma has_suffix_append [simp]: "has_suffix (r @ p) p"
  by (auto simp: has_suffix_iff)

subsection \<open>Splitting and joining\<close>

text \<open>\<open>strings.LastIndex(s, c)\<close> for one byte, and the code after it.\<close>

primrec last_index :: "char \<Rightarrow> string \<Rightarrow> nat option" where
  "last_index c [] = None"
| "last_index c (x # s) =
    (case last_index c s of Some i \<Rightarrow> Some (Suc i) | None \<Rightarrow> if x = c then Some 0 else None)"

lemma last_index_None [simp]: "last_index c s = None \<longleftrightarrow> c \<notin> set s"
  by (induction s) (auto split: option.splits)

lemma last_index_Some:
  "last_index c s = Some i \<Longrightarrow> s = take i s @ c # drop (Suc i) s \<and> c \<notin> set (drop (Suc i) s)"
  by (induction s arbitrary: i) (auto split: option.splits if_splits)

lemma last_index_append: "c \<notin> set t \<Longrightarrow> last_index c (s @ c # t) = Some (length s)"
  by (induction s) (auto split: option.splits)

text \<open>\<open>strings.Split(s, sep)\<close> for a one-byte separator, \<open>strings.Join\<close>.\<close>

fun split_on :: "char \<Rightarrow> string \<Rightarrow> string list" where
  "split_on c [] = [[]]"
| "split_on c (x # s) =
    (if x = c then [] # split_on c s
     else (case split_on c s of [] \<Rightarrow> [[x]] | p # ps \<Rightarrow> (x # p) # ps))"

fun join_with :: "string \<Rightarrow> string list \<Rightarrow> string" where
  "join_with sep [] = []"
| "join_with sep [x] = x"
| "join_with sep (x # y # xs) = x @ sep @ join_with sep (y # xs)"

lemma split_on_not_Nil [simp]: "split_on c s \<noteq> []"
  by (cases s) (auto split: list.splits)

lemma split_on_no_sep: "c \<notin> set s \<Longrightarrow> split_on c s = [s]"
  by (induction s) auto

lemma split_on_append: "c \<notin> set s \<Longrightarrow> split_on c (s @ c # t) = s # split_on c t"
  by (induction s) auto

lemma split_join:
  "xs \<noteq> [] \<Longrightarrow> list_all (\<lambda>x. c \<notin> set x) xs \<Longrightarrow> split_on c (join_with [c] xs) = xs"
  by (induction "[c]" xs rule: join_with.induct) (auto simp: split_on_no_sep split_on_append)

lemma join_with_inj:
  assumes "list_all (\<lambda>x. c \<notin> set x) xs" "list_all (\<lambda>x. c \<notin> set x) ys"
    and "xs \<noteq> []" "ys \<noteq> []" "join_with [c] xs = join_with [c] ys"
  shows "xs = ys"
  using assms by (metis split_join)

subsection \<open>Case, white space\<close>

definition lower_char :: "char \<Rightarrow> char" where
  "lower_char c = (let n = of_char c :: int in if 65 \<le> n \<and> n \<le> 90 then char_of (n + 32) else c)"

definition upper_char :: "char \<Rightarrow> char" where
  "upper_char c = (let n = of_char c :: int in if 97 \<le> n \<and> n \<le> 122 then char_of (n - 32) else c)"

definition to_lower :: "string \<Rightarrow> string" where "to_lower = map lower_char"

definition to_upper :: "string \<Rightarrow> string" where "to_upper = map upper_char"

definition equal_fold :: "string \<Rightarrow> string \<Rightarrow> bool" where
  "equal_fold s t \<longleftrightarrow> to_lower s = to_lower t"

text \<open>Length of the white space code point that a byte list starts with (0 if none).\<close>

definition space_len :: "string \<Rightarrow> nat" where
  "space_len s = (case map of_char (take 3 s) :: int list of
      [] \<Rightarrow> 0
    | a # r \<Rightarrow> if a = 32 \<or> 9 \<le> a \<and> a \<le> 13 then 1
      else (case r of
          [] \<Rightarrow> 0
        | b # r' \<Rightarrow> if a = 194 \<and> (b = 133 \<or> b = 160) then 2
          else (case r' of
              [] \<Rightarrow> 0
            | d # _ \<Rightarrow>
              if a = 225 \<and> b = 154 \<and> d = 128
               \<or> a = 226 \<and> b = 128 \<and> (128 \<le> d \<and> d \<le> 138 \<or> d = 168 \<or> d = 169 \<or> d = 175)
               \<or> a = 226 \<and> b = 129 \<and> d = 159 \<or> a = 227 \<and> b = 128 \<and> d = 128
              then 3 else 0)))"

text \<open>The same at the end of a reversed byte list.\<close>

definition space_len_rev :: "string \<Rightarrow> nat" where
  "space_len_rev s =
    (if space_len (rev (take 1 s)) = 1 then 1
     else if space_len (rev (take 2 s)) = 2 then 2
     else if space_len (rev (take 3 s)) = 3 then 3 else 0)"

function strip_by :: "(string \<Rightarrow> nat) \<Rightarrow> string \<Rightarrow> string" where
  "strip_by f s = (if s = [] \<or> f s = 0 then s else strip_by f (drop (f s) s))"
  by pat_completeness auto
termination by (relation "measure (\<lambda>(f, s). length s)") auto

declare strip_by.simps [simp del]

definition trim_left :: "string \<Rightarrow> string" where "trim_left s = strip_by space_len s"

definition trim_right :: "string \<Rightarrow> string" where
  "trim_right s = rev (strip_by space_len_rev (rev s))"

definition trim_space :: "string \<Rightarrow> string" where "trim_space s = trim_right (trim_left s)"

lemma space_len_Nil [simp]: "space_len [] = 0"
  by (simp add: space_len_def)

lemma strip_by_Nil [simp]: "strip_by f [] = []"
  by (simp add: strip_by.simps)

lemma strip_by_stop: "f s = 0 \<Longrightarrow> strip_by f s = s"
  by (simp add: strip_by.simps)

lemma trim_space_Nil [simp]: "trim_space [] = []"
  by (simp add: trim_space_def trim_left_def trim_right_def)

text \<open>ASCII strings without white space are unchanged by trimming.\<close>

definition plain_char :: "char \<Rightarrow> bool" where
  "plain_char c \<longleftrightarrow> 33 \<le> (of_char c :: int) \<and> (of_char c :: int) \<le> 126"

lemma space_len_plain: "plain_char c \<Longrightarrow> space_len (c # s) = 0"
  by (auto simp: space_len_def plain_char_def split: list.splits)

lemma space_len_rev_plain:
  assumes "list_all plain_char s"
  shows "space_len_rev s = 0"
proof -
  have "space_len (rev (take n s)) = 0" for n
  proof (cases "rev (take n s)")
    case Nil
    then show ?thesis by (simp only: space_len_Nil)
  next
    case (Cons c t)
    then have "c \<in> set s" by (metis in_set_takeD list.set_intros(1) set_rev)
    with assms have "plain_char c" by (simp add: list_all_iff)
    with Cons show ?thesis by (simp add: space_len_plain)
  qed
  then show ?thesis by (simp add: space_len_rev_def)
qed

lemma trim_space_plain: "list_all plain_char s \<Longrightarrow> trim_space s = s"
proof (cases s)
  case Nil
  then show ?thesis by simp
next
  case (Cons c t)
  assume p: "list_all plain_char s"
  then have "trim_left s = s"
    using Cons by (simp add: trim_left_def strip_by_stop space_len_plain)
  moreover have "trim_right s = s"
    using p by (simp add: trim_right_def strip_by_stop space_len_rev_plain)
  ultimately show ?thesis by (simp add: trim_space_def)
qed

text \<open>\<open>strings.TrimRight(s, "c")\<close> for a one-byte cutset.\<close>

definition trim_right_char :: "char \<Rightarrow> string \<Rightarrow> string" where
  "trim_right_char c s = rev (dropWhile (\<lambda>x. x = c) (rev s))"

lemma has_suffix_trim_right_char: "\<not> has_suffix (trim_right_char c s) [c]"
proof
  assume "has_suffix (trim_right_char c s) [c]"
  then obtain r where "rev (dropWhile (\<lambda>x. x = c) (rev s)) = r @ [c]"
    by (auto simp: trim_right_char_def has_suffix_iff)
  then have "dropWhile (\<lambda>x. x = c) (rev s) = c # rev r"
    by (simp add: rev_swap)
  then show False by (auto simp: dropWhile_eq_Cons_conv)
qed

subsection \<open>Decimal numbers\<close>

definition digit :: "int \<Rightarrow> char" where "digit d = ''0123456789'' ! nat d"

function digits :: "int \<Rightarrow> string" where
  "digits n = (if n < 10 then [digit n] else digits (n div 10) @ [digit (n mod 10)])"
  by pat_completeness auto
termination by (relation "measure nat") auto

declare digits.simps [simp del]

definition show_int :: "int \<Rightarrow> string" where
  "show_int i = (if i < 0 then CHR ''-'' # digits (- i) else digits i)"

text \<open>\<open>fmt.Sprintf("%020d", n)\<close>\<close>

definition pad20 :: "int \<Rightarrow> string" where
  "pad20 n = replicate (20 - length (digits n)) CHR ''0'' @ digits n"

definition is_digit :: "char \<Rightarrow> bool" where
  "is_digit c \<longleftrightarrow> 48 \<le> (of_char c :: int) \<and> (of_char c :: int) \<le> 57"

definition digit_val :: "char \<Rightarrow> int" where "digit_val c = of_char c - 48"

definition digits_val :: "string \<Rightarrow> int" where
  "digits_val s = foldl (\<lambda>n c. 10 * n + digit_val c) 0 s"

text \<open>\<open>strconv.ParseInt(s, 10, 64)\<close> and \<open>strconv.ParseUint(s, 10, 64)\<close>\<close>

definition parse_uint64 :: "string \<Rightarrow> int option" where
  "parse_uint64 s = (if s \<noteq> [] \<and> list_all is_digit s \<and> digits_val s < 18446744073709551616
    then Some (digits_val s) else None)"

definition parse_int64 :: "string \<Rightarrow> int option" where
  "parse_int64 s =
    (let neg = has_prefix s ''-'';
         body = (if neg then drop 1 s else if has_prefix s ''+'' then drop 1 s else s);
         v = (if neg then - digits_val body else digits_val body)
     in if body \<noteq> [] \<and> list_all is_digit body \<and> in_i64 v then Some v else None)"

subsection \<open>Properties of the decimal notations\<close>

lemma digit_cases: "0 \<le> d \<Longrightarrow> d < (10 :: int) \<Longrightarrow> d \<in> {0, 1, 2, 3, 4, 5, 6, 7, 8, 9}"
  unfolding insert_iff empty_iff by presburger

lemma of_char_digit: "0 \<le> d \<Longrightarrow> d < 10 \<Longrightarrow> (of_char (digit d) :: int) = 48 + d"
  by (drule (1) digit_cases) (auto simp: digit_def numeral_eq_Suc)

lemma of_char_digit_nat: "0 \<le> d \<Longrightarrow> d < 10 \<Longrightarrow> (of_char (digit d) :: nat) = 48 + nat d"
  by (drule (1) digit_cases) (auto simp: digit_def numeral_eq_Suc)

lemma digit_less:
  "0 \<le> a \<Longrightarrow> a < 10 \<Longrightarrow> 0 \<le> b \<Longrightarrow> b < 10 \<Longrightarrow> digit a < digit b \<longleftrightarrow> a < b"
  by (auto simp: less_char_def of_char_digit_nat)

lemma is_digit_digit: "0 \<le> d \<Longrightarrow> d < 10 \<Longrightarrow> is_digit (digit d)"
  by (simp add: is_digit_def of_char_digit)

lemma digit_val_digit: "0 \<le> d \<Longrightarrow> d < 10 \<Longrightarrow> digit_val (digit d) = d"
  by (simp add: digit_val_def of_char_digit)

lemma digits_all_digits: "0 \<le> n \<Longrightarrow> list_all is_digit (digits n)"
proof (induction n rule: digits.induct)
  case (1 n)
  then show ?case by (cases "n < 10") (simp_all add: digits.simps[of n] is_digit_digit)
qed

lemma digits_not_Nil [simp]: "digits n \<noteq> []"
  by (subst digits.simps) simp

lemma digits_val_snoc: "digits_val (s @ [c]) = 10 * digits_val s + digit_val c"
  by (simp add: digits_val_def)

lemma digits_val_digits: "0 \<le> n \<Longrightarrow> digits_val (digits n) = n"
proof (induction n rule: digits.induct)
  case (1 n)
  show ?case
  proof (cases "n < 10")
    case True
    with 1 show ?thesis by (simp add: digits.simps[of n] digits_val_def digit_val_digit)
  next
    case False
    with 1 show ?thesis by (simp add: digits.simps[of n] digits_val_snoc digit_val_digit)
  qed
qed

lemma digits_inj: "0 \<le> m \<Longrightarrow> 0 \<le> n \<Longrightarrow> digits m = digits n \<Longrightarrow> m = n"
  by (metis digits_val_digits)

text \<open>Fixed-width decimals: the form of the sequence number in a batch's file name.\<close>

primrec dec :: "nat \<Rightarrow> int \<Rightarrow> string" where
  "dec 0 n = []"
| "dec (Suc k) n = dec k (n div 10) @ [digit (n mod 10)]"

lemma length_dec [simp]: "length (dec k n) = k"
  by (induction k arbitrary: n) auto

lemma dec_0: "dec k 0 = replicate k CHR ''0''"
  by (induction k) (simp_all add: digit_def replicate_append_same)

lemma div10_bounds: "0 \<le> n \<Longrightarrow> n < 10 ^ Suc k \<Longrightarrow> 0 \<le> n div 10 \<and> n div 10 < (10 :: int) ^ k"
  by (auto simp: div_less_iff_less_mult mult.commute intro!: zdiv_mono1[of 0 n 10, simplified])

lemma dec_eq_pad: "0 \<le> n \<Longrightarrow> n < 10 ^ k \<Longrightarrow> 0 < k \<Longrightarrow>
    length (digits n) \<le> k \<and> dec k n = replicate (k - length (digits n)) CHR ''0'' @ digits n"
proof (induction k arbitrary: n)
  case 0
  then show ?case by simp
next
  case (Suc k)
  show ?case
  proof (cases "n < 10")
    case True
    with Suc.prems show ?thesis by (simp add: digits.simps[of n] dec_0)
  next
    case False
    then have "0 < k" using Suc.prems by (cases k) auto
    moreover have "0 \<le> n div 10 \<and> n div 10 < 10 ^ k" using Suc.prems by (intro div10_bounds)
    ultimately show ?thesis using Suc.IH[of "n div 10"] False by (simp add: digits.simps[of n])
  qed
qed

lemma pad20_eq_dec: "0 \<le> n \<Longrightarrow> n < 10 ^ 20 \<Longrightarrow> pad20 n = dec 20 n"
  using dec_eq_pad[of n 20] by (simp add: pad20_def)

lemma lex_snoc: "length xs = length ys \<Longrightarrow>
    xs @ [a] < ys @ [b] \<longleftrightarrow> xs < ys \<or> xs = ys \<and> (a :: 'a :: linorder) < b"
proof (induction xs arbitrary: ys)
  case Nil
  then show ?case by simp
next
  case (Cons x xs)
  then obtain y ys' where "ys = y # ys'" by (cases ys) auto
  with Cons show ?case by auto
qed

lemma div_mod_less_iff:
  "m div 10 < n div 10 \<or> m div 10 = n div 10 \<and> m mod 10 < n mod 10 \<longleftrightarrow> m < (n :: int)"
proof -
  have "m = 10 * (m div 10) + m mod 10" "n = 10 * (n div 10) + n mod 10"
    and "m mod 10 < 10" "n mod 10 < 10" "0 \<le> m mod 10" "0 \<le> n mod 10"
    by simp_all
  then show ?thesis by linarith
qed

lemma dec_less_iff: "0 \<le> m \<Longrightarrow> m < 10 ^ k \<Longrightarrow> 0 \<le> n \<Longrightarrow> n < 10 ^ k \<Longrightarrow>
    dec k m < dec k n \<longleftrightarrow> m < n"
proof (induction k arbitrary: m n)
  case 0
  then show ?case by simp
next
  case (Suc k)
  have m: "0 \<le> m div 10" "m div 10 < 10 ^ k" using Suc.prems div10_bounds by blast+
  have n: "0 \<le> n div 10" "n div 10 < 10 ^ k" using Suc.prems div10_bounds by blast+
  have eq: "dec k (m div 10) = dec k (n div 10) \<longleftrightarrow> m div 10 = n div 10"
    using Suc.IH[OF m n] Suc.IH[OF n m] by (metis less_irrefl linorder_less_linear)
  have "dec (Suc k) m < dec (Suc k) n \<longleftrightarrow>
      m div 10 < n div 10 \<or> m div 10 = n div 10 \<and> m mod 10 < n mod 10"
    by (simp add: lex_snoc Suc.IH[OF m n] eq digit_less)
  also have "\<dots> \<longleftrightarrow> m < n"
    by (rule div_mod_less_iff)
  finally show ?case .
qed

lemma pad20_less_iff:
  "0 \<le> m \<Longrightarrow> m < 10 ^ 20 \<Longrightarrow> 0 \<le> n \<Longrightarrow> n < 10 ^ 20 \<Longrightarrow> pad20 m < pad20 n \<longleftrightarrow> m < n"
  by (simp add: pad20_eq_dec dec_less_iff)

lemma pad20_inj:
  "0 \<le> m \<Longrightarrow> m < 10 ^ 20 \<Longrightarrow> 0 \<le> n \<Longrightarrow> n < 10 ^ 20 \<Longrightarrow> pad20 m = pad20 n \<Longrightarrow> m = n"
  by (metis less_irrefl linorder_less_linear pad20_less_iff)

lemma pad20_all_digits: "0 \<le> n \<Longrightarrow> list_all is_digit (pad20 n)"
  using digits_all_digits[of n] by (auto simp: pad20_def list_all_iff is_digit_def)

end
