(* ===== verification/GoJson.thy ===== *)
theory GoJson
  imports GoStrings
begin

section \<open>JSON texts as Go's \<open>encoding/json\<close> reads and writes them\<close>

text \<open>
  A byte-level model of what the program uses of \<open>encoding/json\<close>: the scanner (with its nesting
  limit of 10000 and the difference between a text that is wrong and one that stops too early), the
  value tree, the conversions into \<open>string\<close>, \<open>int\<close>, \<open>uint64\<close>, \<open>float64\<close>, \<open>bool\<close> fields of a
  struct (member names compared without case, \<open>null\<close> leaves a field alone, the last duplicate
  wins), the string escapes of \<open>Marshal\<close> and the compaction of a \<open>RawMessage\<close>. A number keeps its
  literal; its \<open>float64\<close> value is the exact real (rounding is not modelled, the overflow error is).
\<close>

datatype json =
    JNull
  | JBool bool
  | JNum string
  | JStr string
  | JArr "json list"
  | JObj "(string \<times> json) list"

datatype 'a parsed = Parsed 'a (parsed_rest: string) | Malformed | Incomplete

definition pbind :: "'a parsed \<Rightarrow> ('a \<Rightarrow> string \<Rightarrow> 'b parsed) \<Rightarrow> 'b parsed" where
  "pbind p f = (case p of Parsed v r \<Rightarrow> f v r | Malformed \<Rightarrow> Malformed | Incomplete \<Rightarrow> Incomplete)"

lemma pbind_simps [simp]: "pbind (Parsed v r) f = f v r" "pbind Malformed f = Malformed"
  "pbind Incomplete f = Incomplete"
  by (simp_all add: pbind_def)

lemma pbind_cong [fundef_cong]:
  "p = q \<Longrightarrow> (\<And>v r. q = Parsed v r \<Longrightarrow> f v r = g v r) \<Longrightarrow> pbind p f = pbind q g"
  by (cases q) auto

lemma pbind_Parsed: "pbind p f = Parsed w t \<longleftrightarrow> (\<exists>v r. p = Parsed v r \<and> f v r = Parsed w t)"
  by (cases p) auto

subsection \<open>White space, UTF-8\<close>

definition is_ws :: "char \<Rightarrow> bool" where
  "is_ws c \<longleftrightarrow> c = CHR 0x20 \<or> c = CHR 0x09 \<or> c = CHR 0x0A \<or> c = CHR 0x0D"

definition skip_ws :: "string \<Rightarrow> string" where "skip_ws s = dropWhile is_ws s"

lemma length_skip_ws: "length (skip_ws s) \<le> length s"
  by (simp add: skip_ws_def length_dropWhile_le)

definition cont_byte :: "int \<Rightarrow> bool" where "cont_byte b \<longleftrightarrow> 128 \<le> b \<and> b \<le> 191"

text \<open>Length of the valid UTF-8 sequence at the front of a byte list, 0 if there is none.\<close>

definition utf8_len :: "string \<Rightarrow> nat" where
  "utf8_len s = (case map of_char (take 4 s) :: int list of
      [] \<Rightarrow> 0
    | a # r \<Rightarrow> if a < 128 then 1 else (case r of
        [] \<Rightarrow> 0
      | b # r' \<Rightarrow> if 194 \<le> a \<and> a \<le> 223 \<and> cont_byte b then 2 else (case r' of
          [] \<Rightarrow> 0
        | c # r'' \<Rightarrow>
            if (a = 224 \<and> 160 \<le> b \<and> b \<le> 191 \<or> 225 \<le> a \<and> a \<le> 239 \<and> a \<noteq> 237 \<and> cont_byte b
               \<or> a = 237 \<and> 128 \<le> b \<and> b \<le> 159) \<and> cont_byte c then 3
            else (case r'' of
              [] \<Rightarrow> 0
            | d # _ \<Rightarrow>
                if (a = 240 \<and> 144 \<le> b \<and> b \<le> 191 \<or> 241 \<le> a \<and> a \<le> 243 \<and> cont_byte b
                   \<or> a = 244 \<and> 128 \<le> b \<and> b \<le> 143) \<and> cont_byte c \<and> cont_byte d then 4 else 0))))"

lemma utf8_len_Nil [simp]: "utf8_len [] = 0"
  by (simp add: utf8_len_def)

definition utf8_bytes :: "int \<Rightarrow> string" where
  "utf8_bytes n = map char_of
    (if n < 128 then [n]
     else if n < 2048 then [192 + n div 64, 128 + n mod 64]
     else if n < 65536 then [224 + n div 4096, 128 + n div 64 mod 64, 128 + n mod 64]
     else [240 + n div 262144, 128 + n div 4096 mod 64, 128 + n div 64 mod 64, 128 + n mod 64])"

definition replacement :: string where
  "replacement = [CHR 0xEF, CHR 0xBF, CHR 0xBD]"

lemma replacement_eq: "replacement = utf8_bytes 65533"
  by code_simp

text \<open>Invalid bytes become U+FFFD, one each.\<close>

function fix_utf8 :: "string \<Rightarrow> string" where
  "fix_utf8 s = (if s = [] then []
    else if utf8_len s = 0 then replacement @ fix_utf8 (drop 1 s)
    else take (utf8_len s) s @ fix_utf8 (drop (utf8_len s) s))"
  by pat_completeness auto
termination by (relation "measure length") auto

declare fix_utf8.simps [simp del]

lemma utf8_len_ascii: "of_char c < (128 :: int) \<Longrightarrow> utf8_len (c # s) = 1"
  by (simp add: utf8_len_def)

lemma fix_utf8_ascii: "list_all (\<lambda>c. of_char c < (128 :: int)) s \<Longrightarrow> fix_utf8 s = s"
  by (induction s) (simp_all add: fix_utf8.simps utf8_len_ascii)

subsection \<open>String literals\<close>

datatype str_unit = Byte char | Code16 int

definition hex_val :: "char \<Rightarrow> int option" where
  "hex_val c = (let n = of_char c :: int in
    if 48 \<le> n \<and> n \<le> 57 then Some (n - 48)
    else if 97 \<le> n \<and> n \<le> 102 then Some (n - 87)
    else if 65 \<le> n \<and> n \<le> 70 then Some (n - 55) else None)"

definition escape_char :: "char \<Rightarrow> char option" where
  "escape_char c = (if c = CHR 0x22 \<or> c = CHR 0x5C \<or> c = CHR ''/'' then Some c
    else if c = CHR ''b'' then Some (CHR 0x08) else if c = CHR ''f'' then Some (CHR 0x0C)
    else if c = CHR ''n'' then Some (CHR 0x0A) else if c = CHR ''r'' then Some (CHR 0x0D)
    else if c = CHR ''t'' then Some (CHR 0x09) else None)"

text \<open>The units of a string literal, from behind its opening quote to its closing one.\<close>

fun str_units :: "string \<Rightarrow> str_unit list parsed" where
  "str_units [] = Incomplete"
| "str_units (c # s) =
    (if c = CHR 0x22 then Parsed [] s
     else if of_char c < (32 :: int) then Malformed
     else if c \<noteq> CHR 0x5C then pbind (str_units s) (\<lambda>us r. Parsed (Byte c # us) r)
     else (case s of
        [] \<Rightarrow> Incomplete
      | e # s' \<Rightarrow>
          if e \<noteq> CHR ''u'' then (case escape_char e of
              None \<Rightarrow> Malformed
            | Some b \<Rightarrow> pbind (str_units s') (\<lambda>us r. Parsed (Byte b # us) r))
          else (case s' of
              h1 # h2 # h3 # h4 # s'' \<Rightarrow>
                (case (hex_val h1, hex_val h2, hex_val h3, hex_val h4) of
                  (Some a, Some b, Some c, Some d) \<Rightarrow>
                    pbind (str_units s'') (\<lambda>us r. Parsed (Code16 (4096 * a + 256 * b + 16 * c + d) # us) r)
                | _ \<Rightarrow> Malformed)
            | _ \<Rightarrow> if list_all (\<lambda>h. hex_val h \<noteq> None) s' then Incomplete else Malformed)))"

fun units_bytes :: "str_unit list \<Rightarrow> string" where
  "units_bytes [] = []"
| "units_bytes (Byte c # us) = c # units_bytes us"
| "units_bytes (Code16 h # Code16 l # us) =
    (if 55296 \<le> h \<and> h < 56320 \<and> 56320 \<le> l \<and> l < 57344
     then utf8_bytes (65536 + (h - 55296) * 1024 + (l - 56320)) @ units_bytes us
     else (if 55296 \<le> h \<and> h < 57344 then replacement else utf8_bytes h) @ units_bytes (Code16 l # us))"
| "units_bytes (Code16 h # us) =
    (if 55296 \<le> h \<and> h < 57344 then replacement else utf8_bytes h) @ units_bytes us"

definition str_lit :: "string \<Rightarrow> string parsed" where
  "str_lit s = pbind (str_units s) (\<lambda>us r. Parsed (fix_utf8 (units_bytes us)) r)"

lemma str_units_shorter: "str_units s = Parsed us r \<Longrightarrow> length r < length s"
  by (induction s arbitrary: us r rule: str_units.induct)
    (auto simp: pbind_Parsed split: if_splits list.splits option.splits, (fastforce)+)

lemma str_lit_shorter: "str_lit s = Parsed v r \<Longrightarrow> length r < length s"
  by (auto simp: str_lit_def pbind_Parsed dest: str_units_shorter)

subsection \<open>Numbers and keywords\<close>

definition some_digits :: "string \<Rightarrow> string parsed" where
  "some_digits s = (case s of
      [] \<Rightarrow> Incomplete
    | c # _ \<Rightarrow> if is_digit c then Parsed (takeWhile is_digit s) (dropWhile is_digit s) else Malformed)"

definition num_int_part :: "string \<Rightarrow> string parsed" where
  "num_int_part s = (case s of
      [] \<Rightarrow> Incomplete
    | c # s' \<Rightarrow> if c = CHR ''0'' then Parsed [c] s' else some_digits s)"

definition num_frac_part :: "string \<Rightarrow> string parsed" where
  "num_frac_part s = (if has_prefix s ''.''
    then pbind (some_digits (drop 1 s)) (\<lambda>ds r. Parsed (CHR ''.'' # ds) r) else Parsed [] s)"

definition num_exp_part :: "string \<Rightarrow> string parsed" where
  "num_exp_part s = (case s of
      [] \<Rightarrow> Parsed [] []
    | c # s' \<Rightarrow> if c = CHR ''e'' \<or> c = CHR ''E'' then
        (if has_prefix s' ''+'' \<or> has_prefix s' ''-''
         then pbind (some_digits (drop 1 s')) (\<lambda>ds r. Parsed (c # hd s' # ds) r)
         else pbind (some_digits s') (\<lambda>ds r. Parsed (c # ds) r))
      else Parsed [] s)"

definition num_lit :: "string \<Rightarrow> string parsed" where
  "num_lit s =
    (let sign = (if has_prefix s ''-'' then ''-'' else []) in
     pbind (num_int_part (drop (length sign) s)) (\<lambda>i r.
     pbind (num_frac_part r) (\<lambda>f r'.
     pbind (num_exp_part r') (\<lambda>e r''. Parsed (sign @ i @ f @ e) r''))))"

definition keyword :: "string \<Rightarrow> json \<Rightarrow> string \<Rightarrow> json parsed" where
  "keyword w v s = (if has_prefix s w then Parsed v (drop (length w) s)
    else if has_prefix w s then Incomplete else Malformed)"

lemma some_digits_shorter: "some_digits s = Parsed v r \<Longrightarrow> length r < length s"
  by (auto simp: some_digits_def le_imp_less_Suc length_dropWhile_le split: list.splits if_splits)

lemma num_int_part_shorter: "num_int_part s = Parsed v r \<Longrightarrow> length r < length s"
  by (auto simp: num_int_part_def dest: some_digits_shorter split: list.splits if_splits)

lemma num_frac_part_le: "num_frac_part s = Parsed v r \<Longrightarrow> length r \<le> length s"
  by (auto simp: num_frac_part_def pbind_Parsed dest!: some_digits_shorter split: if_splits)

lemma num_exp_part_le: "num_exp_part s = Parsed v r \<Longrightarrow> length r \<le> length s"
  by (auto simp: num_exp_part_def pbind_Parsed dest!: some_digits_shorter
      split: if_splits list.splits)

lemma num_lit_shorter: "num_lit s = Parsed v r \<Longrightarrow> length r < length s"
  by (auto simp: num_lit_def Let_def pbind_Parsed
      dest!: num_int_part_shorter num_frac_part_le num_exp_part_le split: if_splits)

lemma keyword_shorter: "w \<noteq> [] \<Longrightarrow> keyword w v s = Parsed u r \<Longrightarrow> length r < length s"
  by (auto simp: keyword_def has_prefix_iff split: if_splits)

subsection \<open>Values\<close>

definition max_nesting :: int where "max_nesting = 10000"

text \<open>
  One unit of fuel per call; \<open>2 * length s + 2\<close> is enough (\<open>pvalue_fuel\<close>). \<open>d\<close> is the nesting
  depth left. \<open>pelems\<close> and \<open>pmembers\<close> read from an element to the closing bracket.
\<close>

fun pvalue :: "nat \<Rightarrow> int \<Rightarrow> string \<Rightarrow> json parsed"
  and pelems :: "nat \<Rightarrow> int \<Rightarrow> string \<Rightarrow> json list parsed"
  and pmembers :: "nat \<Rightarrow> int \<Rightarrow> string \<Rightarrow> (string \<times> json) list parsed"
where
  "pvalue 0 d s = Malformed"
| "pvalue (Suc k) d s = (case s of
      [] \<Rightarrow> Incomplete
    | c # r \<Rightarrow>
        if c = CHR 0x22 then pbind (str_lit r) (\<lambda>v t. Parsed (JStr v) t)
        else if c = CHR ''['' then
          (if d \<le> 0 then Malformed
           else if has_prefix (skip_ws r) '']'' then Parsed (JArr []) (drop 1 (skip_ws r))
           else pbind (pelems k (d - 1) (skip_ws r)) (\<lambda>vs t. Parsed (JArr vs) t))
        else if c = CHR ''{'' then
          (if d \<le> 0 then Malformed
           else if has_prefix (skip_ws r) ''}'' then Parsed (JObj []) (drop 1 (skip_ws r))
           else pbind (pmembers k (d - 1) (skip_ws r)) (\<lambda>ms t. Parsed (JObj ms) t))
        else if c = CHR ''t'' then keyword ''true'' (JBool True) s
        else if c = CHR ''f'' then keyword ''false'' (JBool False) s
        else if c = CHR ''n'' then keyword ''null'' JNull s
        else pbind (num_lit s) (\<lambda>l t. Parsed (JNum l) t))"
| "pelems 0 d s = Malformed"
| "pelems (Suc k) d s =
    pbind (pvalue k d s) (\<lambda>v t. (case skip_ws t of
        [] \<Rightarrow> Incomplete
      | c # t' \<Rightarrow>
          if c = CHR '']'' then Parsed [v] t'
          else if c = CHR '','' then pbind (pelems k d (skip_ws t')) (\<lambda>vs u. Parsed (v # vs) u)
          else Malformed))"
| "pmembers 0 d s = Malformed"
| "pmembers (Suc k) d s = (case s of
      [] \<Rightarrow> Incomplete
    | q # r \<Rightarrow> if q \<noteq> CHR 0x22 then Malformed else
        pbind (str_lit r) (\<lambda>name t. (case skip_ws t of
            [] \<Rightarrow> Incomplete
          | c # t' \<Rightarrow> if c \<noteq> CHR '':'' then Malformed else
              pbind (pvalue k d (skip_ws t')) (\<lambda>v u. (case skip_ws u of
                  [] \<Rightarrow> Incomplete
                | e # u' \<Rightarrow>
                    if e = CHR ''}'' then Parsed [(name, v)] u'
                    else if e = CHR '','' then
                      pbind (pmembers k d (skip_ws u')) (\<lambda>ms w. Parsed ((name, v) # ms) w)
                    else Malformed)))))"

definition json_value :: "string \<Rightarrow> json parsed" where
  "json_value s = pvalue (2 * length (skip_ws s) + 2) max_nesting (skip_ws s)"

text \<open>A whole text holding one value: \<open>json.Valid\<close> and the first step of \<open>json.Unmarshal\<close>.\<close>

definition json_text :: "string \<Rightarrow> json option" where
  "json_text s = (case json_value s of
      Parsed v r \<Rightarrow> if skip_ws r = [] then Some v else None
    | _ \<Rightarrow> None)"

definition json_valid :: "string \<Rightarrow> bool" where
  "json_valid s \<longleftrightarrow> json_text s \<noteq> None"

subsection \<open>The fuel is enough\<close>

lemma skip_ws_Cons_shorter: "skip_ws s = c # t \<Longrightarrow> length t < length s"
  using length_skip_ws[of s] by simp

lemma skip_ws_shorter [intro]: "length s < n \<Longrightarrow> length (skip_ws s) < n"
  using length_skip_ws[of s] by linarith

lemma parse_shorter_all:
  "(pvalue k d s = Parsed v r \<longrightarrow> length r < length s) \<and>
   (pelems k d s = Parsed vs r \<longrightarrow> length r < length s) \<and>
   (pmembers k d s = Parsed ms r \<longrightarrow> length r < length s)"
proof (induction k arbitrary: d s v r vs ms)
  case 0
  then show ?case by simp
next
  case (Suc k)
  have V: "length r < length s" if "pvalue k d s = Parsed v r" for d s v r
    using that Suc.IH by blast
  have E: "length r < length s" if "pelems k d s = Parsed vs r" for d s vs r
    using that Suc.IH by blast
  have M: "length r < length s" if "pmembers k d s = Parsed ms r" for d s ms r
    using that Suc.IH by blast
  have "length r < length s" if p: "pvalue (Suc k) d s = Parsed v r"
  proof (cases s)
    case Nil
    with p show ?thesis by simp
  next
    case (Cons c t)
    have "length (skip_ws t) \<le> length t" by (rule length_skip_ws)
    with p Cons show ?thesis
      by (auto simp: pbind_Parsed split: if_splits dest!: str_lit_shorter num_lit_shorter E M
          dest: keyword_shorter[rotated])
  qed
  moreover have "length r < length s" if p: "pelems (Suc k) d s = Parsed vs r"
  proof -
    from p obtain v t where v: "pvalue k d s = Parsed v t" by (auto simp: pbind_Parsed)
    with p obtain c t' where t: "skip_ws t = c # t'" by (auto split: list.splits)
    have "length t' < length s" using V[OF v] skip_ws_Cons_shorter[OF t] by simp
    with p v t show ?thesis
      using length_skip_ws[of t'] by (auto simp: pbind_Parsed split: if_splits dest!: E)
  qed
  moreover have "length r < length s" if p: "pmembers (Suc k) d s = Parsed ms r"
  proof -
    from p obtain r0 where s: "s = CHR 0x22 # r0" by (auto split: list.splits if_splits)
    with p obtain name t where n: "str_lit r0 = Parsed name t" by (auto simp: pbind_Parsed)
    with p s obtain c t' where t: "skip_ws t = c # t'" and "c = CHR '':''"
      by (auto split: list.splits if_splits)
    with p s n obtain v u where v: "pvalue k d (skip_ws t') = Parsed v u"
      by (auto simp: pbind_Parsed)
    with p s n t obtain e u' where u: "skip_ws u = e # u'"
      by (auto split: list.splits if_splits)
    have "length u' < length s"
      using str_lit_shorter[OF n] skip_ws_Cons_shorter[OF t] length_skip_ws[of t'] V[OF v]
        skip_ws_Cons_shorter[OF u] s by simp
    with p s n t \<open>c = CHR '':''\<close> v u show ?thesis
      using length_skip_ws[of u'] by (auto simp: pbind_Parsed split: if_splits dest!: M)
  qed
  ultimately show ?case by blast
qed

lemma parse_shorter:
  "pvalue k d s = Parsed v r \<Longrightarrow> length r < length s"
  "pelems k d s = Parsed vs r \<Longrightarrow> length r < length s"
  "pmembers k d s = Parsed ms r \<Longrightarrow> length r < length s"
  using parse_shorter_all by blast+

text \<open>More fuel than \<open>2 * length s + 2\<close> changes nothing.\<close>

lemma parse_fuel_step:
  "(2 * length s + 1 \<le> k \<longrightarrow> pvalue (Suc k) d s = pvalue k d s) \<and>
   (2 * length s + 2 \<le> k \<longrightarrow> pelems (Suc k) d s = pelems k d s) \<and>
   (2 * length s + 2 \<le> k \<longrightarrow> pmembers (Suc k) d s = pmembers k d s)"
proof (induction k arbitrary: d s)
  case 0
  then show ?case by simp
next
  case (Suc k)
  have V: "pvalue (Suc k) d s = pvalue k d s" if "2 * length s + 1 \<le> k" for d s
    using that Suc.IH by blast
  have E: "pelems (Suc k) d s = pelems k d s" if "2 * length s + 2 \<le> k" for d s
    using that Suc.IH by blast
  have M: "pmembers (Suc k) d s = pmembers k d s" if "2 * length s + 2 \<le> k" for d s
    using that Suc.IH by blast
  have "pvalue (Suc (Suc k)) d s = pvalue (Suc k) d s" if k: "2 * length s + 1 \<le> Suc k"
  proof (cases s)
    case Nil
    then show ?thesis by simp
  next
    case (Cons c t)
    then have "2 * length (skip_ws t) + 2 \<le> k" using k length_skip_ws[of t] by simp
    then show ?thesis
      unfolding Cons pvalue.simps list.case using E M by (simp only:)
  qed
  moreover have "pelems (Suc (Suc k)) d s = pelems (Suc k) d s" if k: "2 * length s + 2 \<le> Suc k"
  proof -
    have tail: "pelems (Suc k) d (skip_ws t') = pelems k d (skip_ws t')"
      if "pvalue k d s = Parsed v t" "skip_ws t = c # t'" for v t c t'
      using parse_shorter(1)[OF that(1)] skip_ws_Cons_shorter[OF that(2)] length_skip_ws[of t'] k
      by (intro E) linarith
    have "pvalue (Suc k) d s = pvalue k d s" using k by (intro V) simp
    then show ?thesis
      unfolding pelems.simps(2)[of "Suc k" d s] pelems.simps(2)[of k d s]
      by (auto intro!: pbind_cong split: list.split simp: tail simp del: pelems.simps pvalue.simps)
  qed
  moreover have "pmembers (Suc (Suc k)) d s = pmembers (Suc k) d s"
    if k: "2 * length s + 2 \<le> Suc k"
  proof -
    have head: "pvalue (Suc k) d (skip_ws t') = pvalue k d (skip_ws t')"
      if "s = q # r0" "str_lit r0 = Parsed name t" "skip_ws t = c # t'" for q r0 name t c t'
      using str_lit_shorter[OF that(2)] skip_ws_Cons_shorter[OF that(3)] length_skip_ws[of t'] k
        that(1) by (intro V) simp
    have tail: "pmembers (Suc k) d (skip_ws u') = pmembers k d (skip_ws u')"
      if "s = q # r0" "str_lit r0 = Parsed name t" "skip_ws t = c # t'"
        "pvalue k d (skip_ws t') = Parsed v u" "skip_ws u = e # u'" for q r0 name t c t' v u e u'
      using str_lit_shorter[OF that(2)] skip_ws_Cons_shorter[OF that(3)] length_skip_ws[of t']
        parse_shorter(1)[OF that(4)] skip_ws_Cons_shorter[OF that(5)] length_skip_ws[of u'] k
        that(1) by (intro M) simp
    show ?thesis
      unfolding pmembers.simps(2)[of "Suc k" d s] pmembers.simps(2)[of k d s]
      by (auto intro!: pbind_cong split: list.split simp: head tail
          simp del: pmembers.simps pvalue.simps)
  qed
  ultimately show ?case by blast
qed

lemma pvalue_fuel: "2 * length s + 2 \<le> k \<Longrightarrow> pvalue k d s = pvalue (2 * length s + 2) d s"
proof (induction k rule: dec_induct)
  case base
  then show ?case by simp
next
  case (step n)
  then show ?case using parse_fuel_step[of s n d] by simp
qed

subsection \<open>Conversions of \<open>Unmarshal\<close>\<close>

text \<open>The exact value of a number literal; Go reports a literal beyond the \<open>float64\<close> range.\<close>

definition num_exponent :: "string \<Rightarrow> int" where
  "num_exponent s = (case s of
      [] \<Rightarrow> 0
    | _ # x \<Rightarrow> if has_prefix x ''-'' then - digits_val (drop 1 x)
      else if has_prefix x ''+'' then digits_val (drop 1 x) else digits_val x)"

definition scale10 :: "int \<Rightarrow> int \<Rightarrow> real" where
  "scale10 m e = (if 0 \<le> e then real_of_int m * 10 ^ nat e else real_of_int m / 10 ^ nat (- e))"

definition num_real :: "string \<Rightarrow> real" where
  "num_real l =
    (let neg = has_prefix l ''-'';
         body = (if neg then drop 1 l else l);
         ip = takeWhile is_digit body;
         r = dropWhile is_digit body;
         dot = has_prefix r ''.'';
         fp = (if dot then takeWhile is_digit (drop 1 r) else []);
         ex = (if dot then dropWhile is_digit (drop 1 r) else r);
         v = scale10 (digits_val (ip @ fp)) (num_exponent ex - int (length fp))
     in if neg then - v else v)"

definition float_fits :: "real \<Rightarrow> bool" where
  "float_fits x \<longleftrightarrow> \<bar>x\<bar> < 2 ^ 1024 - 2 ^ 970"

definition conv_string :: "json \<Rightarrow> string option" where
  "conv_string j = (case j of JStr s \<Rightarrow> Some s | _ \<Rightarrow> None)"

definition conv_bool :: "json \<Rightarrow> bool option" where
  "conv_bool j = (case j of JBool b \<Rightarrow> Some b | _ \<Rightarrow> None)"

definition conv_int64 :: "json \<Rightarrow> int option" where
  "conv_int64 j = (case j of JNum l \<Rightarrow> parse_int64 l | _ \<Rightarrow> None)"

definition conv_uint64 :: "json \<Rightarrow> 64 word option" where
  "conv_uint64 j = (case j of JNum l \<Rightarrow> map_option word_of_int (parse_uint64 l) | _ \<Rightarrow> None)"

definition conv_float :: "json \<Rightarrow> real option" where
  "conv_float j = (case j of
      JNum l \<Rightarrow> if float_fits (num_real l) then Some (num_real l) else None
    | _ \<Rightarrow> None)"

text \<open>An element \<open>null\<close> of a \<open>[]float64\<close> leaves its zero value.\<close>

definition conv_float_elem :: "json \<Rightarrow> real option" where
  "conv_float_elem j = (case j of JNull \<Rightarrow> Some 0 | _ \<Rightarrow> conv_float j)"

definition conv_floats :: "json \<Rightarrow> real list option" where
  "conv_floats j = (case j of
      JArr vs \<Rightarrow> if list_all (\<lambda>v. conv_float_elem v \<noteq> None) vs
        then Some (map (\<lambda>v. the (conv_float_elem v)) vs) else None
    | _ \<Rightarrow> None)"

text \<open>
  One struct field: every member whose name folds to the field's is stored in turn, \<open>null\<close> does
  nothing, a value of the wrong kind makes the whole call fail. \<open>lenient_member\<close> is the field after
  a call whose error is ignored: values of the wrong kind are skipped.
\<close>

definition decode_member :: "(json \<Rightarrow> 'a option) \<Rightarrow> string \<Rightarrow> (string \<times> json) list \<Rightarrow> 'a \<Rightarrow> 'a option" where
  "decode_member conv name ms z =
    foldl (\<lambda>acc (k, j). if \<not> equal_fold k name \<or> j = JNull then acc
        else (case acc of None \<Rightarrow> None | Some _ \<Rightarrow> conv j)) (Some z) ms"

definition lenient_member :: "(json \<Rightarrow> 'a option) \<Rightarrow> string \<Rightarrow> (string \<times> json) list \<Rightarrow> 'a \<Rightarrow> 'a" where
  "lenient_member conv name ms z =
    foldl (\<lambda>acc (k, j). if \<not> equal_fold k name \<or> j = JNull then acc
        else (case conv j of None \<Rightarrow> acc | Some v \<Rightarrow> v)) z ms"

lemma decode_member_Nil [simp]: "decode_member conv name [] z = Some z"
  by (simp add: decode_member_def)

text \<open>\<open>Unmarshal\<close> into \<open>any\<close> and into \<open>map[string]any\<close> (a text \<open>null\<close> leaves the map nil).\<close>

fun json_fits :: "json \<Rightarrow> bool" where
  "json_fits (JNum l) = float_fits (num_real l)"
| "json_fits (JArr vs) = list_all json_fits vs"
| "json_fits (JObj ms) = list_all json_fits (map snd ms)"
| "json_fits _ = True"

definition unmarshal_any :: "string \<Rightarrow> json option" where
  "unmarshal_any s = (case json_text s of
      Some j \<Rightarrow> if json_fits j then Some j else None
    | None \<Rightarrow> None)"

definition unmarshal_map :: "string \<Rightarrow> (string \<times> json) list option" where
  "unmarshal_map s = (case unmarshal_any s of
      Some (JObj ms) \<Rightarrow> Some ms
    | Some JNull \<Rightarrow> Some []
    | _ \<Rightarrow> None)"

text \<open>\<open>fields[key]\<close> of such a map, and its type assertions.\<close>

definition obj_get :: "(string \<times> json) list \<Rightarrow> string \<Rightarrow> json option" where
  "obj_get ms k = map_of (rev ms) k"

definition get_string :: "(string \<times> json) list \<Rightarrow> string \<Rightarrow> string option" where
  "get_string ms k = (case obj_get ms k of Some (JStr s) \<Rightarrow> Some s | _ \<Rightarrow> None)"

definition get_float :: "(string \<times> json) list \<Rightarrow> string \<Rightarrow> real option" where
  "get_float ms k = (case obj_get ms k of Some (JNum l) \<Rightarrow> Some (num_real l) | _ \<Rightarrow> None)"

definition or_zero :: "'a :: zero option \<Rightarrow> 'a" where
  "or_zero x = (case x of Some v \<Rightarrow> v | None \<Rightarrow> 0)"

definition or_empty :: "string option \<Rightarrow> string" where
  "or_empty x = (case x of Some v \<Rightarrow> v | None \<Rightarrow> [])"

subsection \<open>Writing: string escapes and compaction of raw messages\<close>

definition hex_digit :: "int \<Rightarrow> char" where "hex_digit n = ''0123456789abcdef'' ! nat n"

definition u_escape :: "int \<Rightarrow> string" where
  "u_escape n = [CHR 0x5C, CHR ''u'', hex_digit (n div 4096), hex_digit (n div 256 mod 16),
     hex_digit (n div 16 mod 16), hex_digit (n mod 16)]"

definition html_char :: "char \<Rightarrow> bool" where
  "html_char c \<longleftrightarrow> c = CHR ''<'' \<or> c = CHR ''>'' \<or> c = CHR ''&''"

definition escape_ascii :: "char \<Rightarrow> string" where
  "escape_ascii c =
    (if c = CHR 0x22 \<or> c = CHR 0x5C then [CHR 0x5C, c]
     else if c = CHR 0x08 then [CHR 0x5C, CHR ''b''] else if c = CHR 0x0C then [CHR 0x5C, CHR ''f'']
     else if c = CHR 0x0A then [CHR 0x5C, CHR ''n''] else if c = CHR 0x0D then [CHR 0x5C, CHR ''r'']
     else if c = CHR 0x09 then [CHR 0x5C, CHR ''t'']
     else if of_char c < (32 :: int) \<or> html_char c then u_escape (of_char c)
     else [c])"

text \<open>U+2028 or U+2029 at the front.\<close>

definition line_sep :: "string \<Rightarrow> int option" where
  "line_sep s = (if take 3 s = [CHR 0xE2, CHR 0x80, CHR 0xA8] then Some 8232
    else if take 3 s = [CHR 0xE2, CHR 0x80, CHR 0xA9] then Some 8233 else None)"

function escape_string :: "string \<Rightarrow> string" where
  "escape_string s = (case s of
      [] \<Rightarrow> []
    | c # t \<Rightarrow>
        if of_char c < (128 :: int) then escape_ascii c @ escape_string t
        else if utf8_len s = 0 then u_escape 65533 @ escape_string t
        else if line_sep s \<noteq> None then u_escape (the (line_sep s)) @ escape_string (drop 3 s)
        else take (utf8_len s) s @ escape_string (drop (utf8_len s) s))"
  by pat_completeness auto
termination by (relation "measure length") auto

declare escape_string.simps [simp del]

definition json_quote :: "string \<Rightarrow> string" where
  "json_quote s = CHR 0x22 # escape_string s @ [CHR 0x22]"

text \<open>\<open>appendCompact\<close> with HTML escaping; the state says whether a string literal is open.\<close>

function compact_from :: "bool \<Rightarrow> string \<Rightarrow> string" where
  "compact_from q s = (case s of
      [] \<Rightarrow> []
    | c # t \<Rightarrow>
        if html_char c then u_escape (of_char c) @ compact_from q t
        else if line_sep s \<noteq> None then u_escape (the (line_sep s)) @ compact_from q (drop 3 s)
        else if q then
          (if c = CHR 0x5C then (case t of [] \<Rightarrow> [c] | e # t' \<Rightarrow> c # e # compact_from True t')
           else c # compact_from (c \<noteq> CHR 0x22) t)
        else if is_ws c then compact_from False t
        else c # compact_from (c = CHR 0x22) t)"
  by pat_completeness auto
termination by (relation "measure (\<lambda>(q, s). length s)") auto

declare compact_from.simps [simp del]

definition json_compact :: "string \<Rightarrow> string" where "json_compact s = compact_from False s"

text \<open>A name and value of an object, in the writer's syntax.\<close>

definition json_field :: "string \<Rightarrow> string \<Rightarrow> string" where
  "json_field name v = json_quote name @ '':'' @ v"

definition json_object :: "string list \<Rightarrow> string" where
  "json_object fs = ''{'' @ join_with '','' fs @ ''}''"

definition json_array :: "string list \<Rightarrow> string" where
  "json_array vs = ''['' @ join_with '','' vs @ '']''"

text \<open>Reading an object or an array without decoding its values: member names and raw texts.\<close>

fun raw_members :: "nat \<Rightarrow> string \<Rightarrow> (string \<times> string) list option" where
  "raw_members 0 s = None"
| "raw_members (Suc k) s = (case s of
      [] \<Rightarrow> None
    | q # r \<Rightarrow> (case str_lit r of
        Parsed name t \<Rightarrow>
          (let v = skip_ws (drop 1 (skip_ws t)) in
           case json_value v of
             Parsed j u \<Rightarrow>
               (let raw = take (length v - length u) v in
                if has_prefix (skip_ws u) '','' then
                  map_option (\<lambda>ms. (name, raw) # ms) (raw_members k (skip_ws (drop 1 (skip_ws u))))
                else Some [(name, raw)])
           | _ \<Rightarrow> None)
      | _ \<Rightarrow> None))"

fun raw_elements :: "nat \<Rightarrow> string \<Rightarrow> string list option" where
  "raw_elements 0 s = None"
| "raw_elements (Suc k) s = (case json_value s of
      Parsed j u \<Rightarrow>
        (let raw = take (length s - length u) s in
         if has_prefix (skip_ws u) '','' then
           map_option (\<lambda>vs. raw # vs) (raw_elements k (skip_ws (drop 1 (skip_ws u))))
         else Some [raw])
    | _ \<Rightarrow> None)"

definition raw_object :: "string \<Rightarrow> (string \<times> string) list option" where
  "raw_object s = (let b = skip_ws (drop 1 (skip_ws s)) in
    if has_prefix b ''}'' then Some [] else raw_members (length s) b)"

definition raw_array :: "string \<Rightarrow> string list option" where
  "raw_array s = (let b = skip_ws (drop 1 (skip_ws s)) in
    if has_prefix b '']'' then Some [] else raw_elements (length s) b)"

end
