(* ===== verification/Schema.thy ===== *)
theory Schema
  imports GoJson "HOL-Library.Monad_Syntax"
begin

section \<open>The telemetry envelope (\<open>pkg/schema/v1.go\<close>)\<close>

text \<open>
  The batch and event records, their wire form (what \<open>json.Marshal\<close> writes for the struct tags and
  what a \<open>Decoder\<close> with \<open>DisallowUnknownFields\<close> reads) and their validation. A Go \<open>error\<close> is an
  option: \<open>None\<close> is \<open>nil\<close>. The payload of an event is its raw bytes, as \<open>json.RawMessage\<close> keeps
  them. Not modelled: a batch text that repeats the member \<open>events\<close> (Go then merges the elements of
  both arrays; here the last one counts).
\<close>

subsection \<open>Records\<close>

abbreviation (input) Version1 :: int where "Version1 \<equiv> 1"
abbreviation (input) MaxEventsPerBatch :: nat where "MaxEventsPerBatch \<equiv> 1000"
abbreviation (input) MaxEventTypeLength :: nat where "MaxEventTypeLength \<equiv> 64"
abbreviation (input) MaxIdentifierLength :: nat where "MaxIdentifierLength \<equiv> 128"
abbreviation (input) MaxPayloadBytes :: nat where "MaxPayloadBytes \<equiv> 32768"

abbreviation SourceServer :: string where "SourceServer \<equiv> ''server''"
abbreviation SourceClient :: string where "SourceClient \<equiv> ''client_untrusted''"
abbreviation AuthorityServer :: string where "AuthorityServer \<equiv> ''A''"
abbreviation AuthorityClient :: string where "AuthorityClient \<equiv> ''B''"
abbreviation AuthorityHealth :: string where "AuthorityHealth \<equiv> ''C''"

record event =
  ev_type :: string
  ev_source :: string
  ev_authority :: string
  ev_component :: string
  ev_source_id :: string
  ev_schema_version :: int
  ev_collector :: string
  ev_sequence :: "64 word"
  ev_time :: int
  ev_receive :: int
  ev_player_session :: string
  ev_player :: string
  ev_client_sequence :: "64 word option"
  ev_client_time :: "int option"
  ev_payload :: string

record batch =
  ba_schema_version :: int
  ba_server :: string
  ba_session :: string
  ba_sequence :: "64 word"
  ba_time :: int
  ba_collector :: string
  ba_build :: string
  ba_config_hash :: string
  ba_events :: "event list"

definition zero_event :: event where
  "zero_event = \<lparr>ev_type = [], ev_source = [], ev_authority = [], ev_component = [],
     ev_source_id = [], ev_schema_version = 0, ev_collector = [], ev_sequence = 0, ev_time = 0,
     ev_receive = 0, ev_player_session = [], ev_player = [], ev_client_sequence = None,
     ev_client_time = None, ev_payload = []\<rparr>"

definition zero_batch :: batch where
  "zero_batch = \<lparr>ba_schema_version = 0, ba_server = [], ba_session = [], ba_sequence = 0,
     ba_time = 0, ba_collector = [], ba_build = [], ba_config_hash = [], ba_events = []\<rparr>"

subsection \<open>Validation\<close>

datatype schema_error =
    UnsupportedVersion
  | IdentifierRequired string | IdentifierTooLong string
  | NoBatchSequence | NegativeBatchTime | BadEventCount | InEvent nat schema_error
  | BadEventType | BadSource | BadAuthority | ClientClaimsServerAuthority
  | NoServerSequence | NegativeEventTime | NoClientSequence
  | PayloadTooLarge | PayloadNotJson
  | VisibilityNotServer | VisibilityNotObject | VisibilityFieldRequired string
  | VisibilityBadStream | VisibilityBadProbability | VisibilityFieldNegative string
  | VisibilityNotValidated

text \<open>The first error of a sequence of checks, as a chain of early returns reports it.\<close>

fun first_error :: "'e option list \<Rightarrow> 'e option" where
  "first_error [] = None"
| "first_error (None # cs) = first_error cs"
| "first_error (Some e # cs) = Some e"

definition fail_if :: "bool \<Rightarrow> 'e \<Rightarrow> 'e option" where
  "fail_if c e = (if c then Some e else None)"

lemma fail_if_None [simp]: "fail_if c e = None \<longleftrightarrow> \<not> c"
  by (simp add: fail_if_def)

lemma first_error_None: "first_error cs = None \<longleftrightarrow> (\<forall>c \<in> set cs. c = None)"
  by (induction cs rule: first_error.induct) auto

lemma first_error_Cons_None [simp]:
  "first_error (c # cs) = None \<longleftrightarrow> c = None \<and> first_error cs = None"
  by (cases c) auto

definition validateIdentifier :: "string \<Rightarrow> string \<Rightarrow> bool \<Rightarrow> schema_error option" where
  "validateIdentifier name value required =
    (let trimmed = trim_space value in
     if required \<and> trimmed = [] then Some (IdentifierRequired name)
     else if length value > MaxIdentifierLength then Some (IdentifierTooLong name)
     else None)"

definition validatedFirstPersonOrigin :: "string \<Rightarrow> bool" where
  "validatedFirstPersonOrigin origin \<longleftrightarrow>
    origin = ''VALIDATED_FIRST_PERSON_HEAD'' \<or> origin = ''FIRST_PERSON_EYE''"

definition visibility_string_keys :: "string list" where
  "visibility_string_keys = [''observer_player_id'', ''target_player_id'', ''classification'',
     ''observer_origin_mode'', ''sampling_stream'', ''sampling_policy_version'', ''sampling_reason'',
     ''risk_set_definition'', ''scheduler_load_state'', ''visibility_policy_version'']"

definition visibility_number_keys :: "string list" where
  "visibility_number_keys = [''observer_eligible_count'', ''target_eligible_count'',
     ''probe_started_ms'', ''probe_completed_ms'']"

definition requireString :: "(string \<times> json) list \<Rightarrow> string \<Rightarrow> schema_error option" where
  "requireString flds key = (case get_string flds key of
      None \<Rightarrow> Some (VisibilityFieldRequired key)
    | Some v \<Rightarrow> fail_if (trim_space v = []) (VisibilityFieldRequired key))"

definition requireNonNegative :: "(string \<times> json) list \<Rightarrow> string \<Rightarrow> schema_error option" where
  "requireNonNegative flds key = (case get_float flds key of
      None \<Rightarrow> Some (VisibilityFieldNegative key)
    | Some v \<Rightarrow> fail_if (v < 0) (VisibilityFieldNegative key))"

definition probability_field :: "(string \<times> json) list \<Rightarrow> string \<Rightarrow> bool" where
  "probability_field flds key = (case get_float flds key of
      None \<Rightarrow> False | Some v \<Rightarrow> v > 0 \<and> v \<le> 1)"

definition visibility_checks :: "(string \<times> json) list \<Rightarrow> schema_error option" where
  "visibility_checks flds =
    (let stream = or_empty (get_string flds ''sampling_stream'');
         classification = or_empty (get_string flds ''classification'');
         origin = or_empty (get_string flds ''observer_origin_mode'');
         validationID = or_empty (get_string flds ''visibility_validation_id'');
         duration = or_zero (get_float flds ''occlusion_duration_ms'')
     in first_error
       [first_error (map (requireString flds) visibility_string_keys),
        fail_if (stream \<noteq> ''random_opportunity'' \<and> stream \<noteq> ''event_enrichment'') VisibilityBadStream,
        fail_if (\<not> probability_field flds ''observer_inclusion_probability''
            \<or> \<not> probability_field flds ''target_inclusion_probability''
            \<or> \<not> probability_field flds ''queue_admission_probability'') VisibilityBadProbability,
        first_error (map (requireNonNegative flds) visibility_number_keys),
        fail_if (classification = ''ROBUSTLY_OCCLUDED'' \<and>
            (\<not> validatedFirstPersonOrigin origin \<or> trim_space validationID = [] \<or> duration \<le> 0))
          VisibilityNotValidated])"

definition validateVisibilityPayload :: "string \<Rightarrow> schema_error option" where
  "validateVisibilityPayload raw =
    (if raw = [] then Some VisibilityNotObject
     else case unmarshal_map raw of
         None \<Rightarrow> Some VisibilityNotObject
       | Some flds \<Rightarrow> visibility_checks flds)"

definition event_validate :: "event \<Rightarrow> schema_error option" where
  "event_validate e = first_error
    [fail_if (trim_space (ev_type e) = [] \<or> length (ev_type e) > MaxEventTypeLength) BadEventType,
     fail_if (ev_source e \<noteq> SourceServer \<and> ev_source e \<noteq> SourceClient) BadSource,
     (if ev_authority e \<noteq> [] then first_error
        [fail_if (ev_authority e \<noteq> AuthorityServer \<and> ev_authority e \<noteq> AuthorityClient \<and>
            ev_authority e \<noteq> AuthorityHealth) BadAuthority,
         fail_if (ev_source e = SourceClient \<and> ev_authority e \<noteq> AuthorityClient \<and>
            ev_authority e \<noteq> AuthorityHealth) ClientClaimsServerAuthority]
      else None),
     fail_if (ev_sequence e = 0) NoServerSequence,
     fail_if (ev_time e < 0) NegativeEventTime,
     validateIdentifier ''player_session_id'' (ev_player_session e) False,
     validateIdentifier ''player_id'' (ev_player e) False,
     fail_if (ev_source e = SourceClient \<and> ev_client_sequence e = None) NoClientSequence,
     fail_if (length (ev_payload e) > MaxPayloadBytes) PayloadTooLarge,
     fail_if (ev_payload e \<noteq> [] \<and> \<not> json_valid (ev_payload e)) PayloadNotJson,
     (if ev_type e = ''VISIBILITY_OBSERVATION'' then
        (if ev_source e \<noteq> SourceServer \<or> ev_authority e \<noteq> AuthorityServer
         then Some VisibilityNotServer else validateVisibilityPayload (ev_payload e))
      else None)]"

primrec validate_events :: "nat \<Rightarrow> event list \<Rightarrow> schema_error option" where
  "validate_events i [] = None"
| "validate_events i (e # es) = (case event_validate e of
      Some err \<Rightarrow> Some (InEvent i err) | None \<Rightarrow> validate_events (Suc i) es)"

definition batch_validate :: "batch \<Rightarrow> schema_error option" where
  "batch_validate b = first_error
    [fail_if (ba_schema_version b \<noteq> Version1) UnsupportedVersion,
     validateIdentifier ''server_id'' (ba_server b) True,
     validateIdentifier ''server_session_id'' (ba_session b) True,
     fail_if (ba_sequence b = 0) NoBatchSequence,
     fail_if (ba_time b < 0) NegativeBatchTime,
     fail_if (ba_events b = [] \<or> length (ba_events b) > MaxEventsPerBatch) BadEventCount,
     validate_events 0 (ba_events b)]"

subsection \<open>Wire form: writing\<close>

definition quoted_unless_empty :: "string \<Rightarrow> string \<Rightarrow> string list" where
  "quoted_unless_empty name v = (if v = [] then [] else [json_field name (json_quote v)])"

definition show_uint64 :: "64 word \<Rightarrow> string" where "show_uint64 w = digits (uint w)"

definition marshal_event :: "event \<Rightarrow> string" where
  "marshal_event e = json_object (
     [json_field ''event_type'' (json_quote (ev_type e)),
      json_field ''source'' (json_quote (ev_source e))] @
     quoted_unless_empty ''source_authority'' (ev_authority e) @
     quoted_unless_empty ''source_component'' (ev_component e) @
     quoted_unless_empty ''source_event_id'' (ev_source_id e) @
     (if ev_schema_version e = 0 then []
      else [json_field ''source_schema_version'' (show_int (ev_schema_version e))]) @
     quoted_unless_empty ''collector_version'' (ev_collector e) @
     [json_field ''server_sequence'' (show_uint64 (ev_sequence e)),
      json_field ''server_time_ms'' (show_int (ev_time e))] @
     (if ev_receive e = 0 then [] else [json_field ''server_receive_ms'' (show_int (ev_receive e))]) @
     quoted_unless_empty ''player_session_id'' (ev_player_session e) @
     quoted_unless_empty ''player_id'' (ev_player e) @
     (case ev_client_sequence e of None \<Rightarrow> []
      | Some w \<Rightarrow> [json_field ''client_sequence'' (show_uint64 w)]) @
     (case ev_client_time e of None \<Rightarrow> []
      | Some t \<Rightarrow> [json_field ''client_monotonic_time_ms'' (show_int t)]) @
     (if ev_payload e = [] then [] else [json_field ''payload'' (json_compact (ev_payload e))]))"

definition batch_text :: "batch \<Rightarrow> string" where
  "batch_text b = json_object (
     [json_field ''schema_version'' (show_int (ba_schema_version b)),
      json_field ''server_id'' (json_quote (ba_server b)),
      json_field ''server_session_id'' (json_quote (ba_session b)),
      json_field ''batch_sequence'' (show_uint64 (ba_sequence b)),
      json_field ''server_time_ms'' (show_int (ba_time b))] @
     quoted_unless_empty ''collector_version'' (ba_collector b) @
     quoted_unless_empty ''dayz_build'' (ba_build b) @
     quoted_unless_empty ''configuration_hash'' (ba_config_hash b) @
     [json_field ''events'' (if ba_events b = [] then ''null''
        else json_array (map marshal_event (ba_events b)))])"

text \<open>\<open>json.Marshal\<close> fails on a raw message that is not JSON.\<close>

definition marshal_batch :: "batch \<Rightarrow> string option" where
  "marshal_batch b =
    (if list_all (\<lambda>e. ev_payload e = [] \<or> json_valid (ev_payload e)) (ba_events b)
     then Some (batch_text b) else None)"

subsection \<open>Wire form: reading\<close>

definition event_fields :: "string list" where
  "event_fields = [''event_type'', ''source'', ''source_authority'', ''source_component'',
     ''source_event_id'', ''source_schema_version'', ''collector_version'', ''server_sequence'',
     ''server_time_ms'', ''server_receive_ms'', ''player_session_id'', ''player_id'',
     ''client_sequence'', ''client_monotonic_time_ms'', ''payload'']"

definition batch_fields :: "string list" where
  "batch_fields = [''schema_version'', ''server_id'', ''server_session_id'', ''batch_sequence'',
     ''server_time_ms'', ''collector_version'', ''dayz_build'', ''configuration_hash'', ''events'']"

definition known_fields :: "string list \<Rightarrow> (string \<times> 'a) list \<Rightarrow> bool" where
  "known_fields names ms = list_all (\<lambda>(k, _). list_ex (equal_fold k) names) ms"

definition tree :: "string \<Rightarrow> json" where
  "tree raw = (case json_text raw of Some j \<Rightarrow> j | None \<Rightarrow> JNull)"

text \<open>The raw text of the last member for a field: \<open>RawMessage\<close> keeps even \<open>null\<close>.\<close>

definition last_raw :: "string \<Rightarrow> (string \<times> string) list \<Rightarrow> string option" where
  "last_raw name ms = (case filter (\<lambda>(k, _). equal_fold k name) ms of
      [] \<Rightarrow> None | ms' \<Rightarrow> Some (snd (last ms')))"

text \<open>A pointer field: \<open>null\<close> resets it.\<close>

definition decode_pointer :: "(json \<Rightarrow> 'a option) \<Rightarrow> string \<Rightarrow> (string \<times> json) list \<Rightarrow> 'a option option" where
  "decode_pointer conv name ms =
    foldl (\<lambda>acc (k, j). if \<not> equal_fold k name then acc
        else (case acc of None \<Rightarrow> None
          | Some _ \<Rightarrow> if j = JNull then Some None else map_option Some (conv j))) (Some None) ms"

definition decode_event_members :: "(string \<times> string) list \<Rightarrow> event option" where
  "decode_event_members raws =
    (let ms = map (\<lambda>(k, r). (k, tree r)) raws in do {
      ty \<leftarrow> decode_member conv_string ''event_type'' ms [];
      src \<leftarrow> decode_member conv_string ''source'' ms [];
      auth \<leftarrow> decode_member conv_string ''source_authority'' ms [];
      comp \<leftarrow> decode_member conv_string ''source_component'' ms [];
      sid \<leftarrow> decode_member conv_string ''source_event_id'' ms [];
      ver \<leftarrow> decode_member conv_int64 ''source_schema_version'' ms 0;
      coll \<leftarrow> decode_member conv_string ''collector_version'' ms [];
      sq \<leftarrow> decode_member conv_uint64 ''server_sequence'' ms 0;
      tm \<leftarrow> decode_member conv_int64 ''server_time_ms'' ms 0;
      rcv \<leftarrow> decode_member conv_int64 ''server_receive_ms'' ms 0;
      ps \<leftarrow> decode_member conv_string ''player_session_id'' ms [];
      pid \<leftarrow> decode_member conv_string ''player_id'' ms [];
      cs \<leftarrow> decode_pointer conv_uint64 ''client_sequence'' ms;
      ct \<leftarrow> decode_pointer conv_int64 ''client_monotonic_time_ms'' ms;
      Some \<lparr>ev_type = ty, ev_source = src, ev_authority = auth, ev_component = comp,
        ev_source_id = sid, ev_schema_version = ver, ev_collector = coll, ev_sequence = sq,
        ev_time = tm, ev_receive = rcv, ev_player_session = ps, ev_player = pid,
        ev_client_sequence = cs, ev_client_time = ct,
        ev_payload = or_empty (last_raw ''payload'' raws)\<rparr> })"

text \<open>\<open>strict\<close> is \<open>DisallowUnknownFields\<close>.\<close>

definition decode_event :: "bool \<Rightarrow> string \<Rightarrow> event option" where
  "decode_event strict raw = (case tree raw of
      JNull \<Rightarrow> Some zero_event
    | JObj _ \<Rightarrow> do {
        raws \<leftarrow> raw_object raw;
        if strict \<and> \<not> known_fields event_fields raws then None else decode_event_members raws }
    | _ \<Rightarrow> None)"

primrec decode_list :: "(string \<Rightarrow> 'a option) \<Rightarrow> string list \<Rightarrow> 'a list option" where
  "decode_list f [] = Some []"
| "decode_list f (r # rs) = do { x \<leftarrow> f r; xs \<leftarrow> decode_list f rs; Some (x # xs) }"

definition decode_events :: "bool \<Rightarrow> (string \<times> string) list \<Rightarrow> event list option" where
  "decode_events strict raws = (case last_raw ''events'' raws of
      None \<Rightarrow> Some []
    | Some raw \<Rightarrow> (case tree raw of
        JNull \<Rightarrow> Some []
      | JArr _ \<Rightarrow> do { rs \<leftarrow> raw_array raw; decode_list (decode_event strict) rs }
      | _ \<Rightarrow> None))"

definition decode_batch_members :: "bool \<Rightarrow> (string \<times> string) list \<Rightarrow> batch option" where
  "decode_batch_members strict raws =
    (let ms = map (\<lambda>(k, r). (k, tree r)) raws in do {
      ver \<leftarrow> decode_member conv_int64 ''schema_version'' ms 0;
      srv \<leftarrow> decode_member conv_string ''server_id'' ms [];
      ses \<leftarrow> decode_member conv_string ''server_session_id'' ms [];
      sq \<leftarrow> decode_member conv_uint64 ''batch_sequence'' ms 0;
      tm \<leftarrow> decode_member conv_int64 ''server_time_ms'' ms 0;
      coll \<leftarrow> decode_member conv_string ''collector_version'' ms [];
      bld \<leftarrow> decode_member conv_string ''dayz_build'' ms [];
      cfg \<leftarrow> decode_member conv_string ''configuration_hash'' ms [];
      evs \<leftarrow> decode_events strict raws;
      Some \<lparr>ba_schema_version = ver, ba_server = srv, ba_session = ses, ba_sequence = sq,
        ba_time = tm, ba_collector = coll, ba_build = bld, ba_config_hash = cfg, ba_events = evs\<rparr> })"

definition decode_batch :: "bool \<Rightarrow> string \<Rightarrow> batch option" where
  "decode_batch strict raw = (case tree raw of
      JNull \<Rightarrow> Some zero_batch
    | JObj _ \<Rightarrow> do {
        raws \<leftarrow> raw_object raw;
        if strict \<and> \<not> known_fields batch_fields raws then None
        else decode_batch_members strict raws }
    | _ \<Rightarrow> None)"

text \<open>
  \<open>decoder.Decode(&batch)\<close> on a stream that holds the bytes \<open>s\<close>, with the bytes it leaves, and
  \<open>ensureEOF\<close> on those. \<open>unmarshal_batch\<close> is \<open>json.Unmarshal\<close>, which takes the whole text and
  ignores unknown fields.
\<close>

definition decoder_decode :: "string \<Rightarrow> (batch \<times> string) option" where
  "decoder_decode s = (case json_value s of
      Parsed j r \<Rightarrow> map_option (\<lambda>b. (b, r))
        (decode_batch True (take (length (skip_ws s) - length r) (skip_ws s)))
    | _ \<Rightarrow> None)"

definition ensureEOF :: "string \<Rightarrow> bool" where "ensureEOF rest \<longleftrightarrow> skip_ws rest = []"

definition decode_line :: "string \<Rightarrow> batch option" where
  "decode_line s = (case decoder_decode s of
      Some (b, r) \<Rightarrow> if ensureEOF r then Some b else None
    | None \<Rightarrow> None)"

definition unmarshal_batch :: "string \<Rightarrow> batch option" where
  "unmarshal_batch s = (if json_valid s then decode_batch False s else None)"

subsection \<open>A small batch, for examples\<close>

definition sample_event :: event where
  "sample_event = zero_event\<lparr>ev_type := ''PLAYER_CONNECTED'', ev_source := ''server'',
     ev_sequence := 1, ev_time := 1000, ev_player_session := ''ss:p1''\<rparr>"

definition sample_batch :: "64 word \<Rightarrow> batch" where
  "sample_batch n = zero_batch\<lparr>ba_schema_version := 1, ba_server := ''srv'', ba_session := ''ss'',
     ba_sequence := n, ba_events := [sample_event]\<rparr>"

lemma sample_batch_simps [simp]:
  "ba_server (sample_batch n) = ''srv''" "ba_session (sample_batch n) = ''ss''"
  "ba_sequence (sample_batch n) = n"
  by (simp_all add: sample_batch_def)

lemma marshal_sample: "marshal_batch (sample_batch n) = Some (batch_text (sample_batch n))"
  by (simp add: marshal_batch_def sample_batch_def sample_event_def zero_event_def)

lemma validate_sample: "n \<noteq> 0 \<Longrightarrow> batch_validate (sample_batch n) = None"
  by (simp add: batch_validate_def event_validate_def sample_batch_def sample_event_def
      zero_batch_def zero_event_def validateIdentifier_def trim_space_plain plain_char_def Let_def fail_if_def)

lemma decode_sample:
  "decoder_decode (batch_text (sample_batch 7) @ [CHR 0x0A]) = Some (sample_batch 7, [CHR 0x0A])"
  by code_simp

lemma decode_line_sample:
  "decode_line (batch_text (sample_batch 7) @ [CHR 0x0A]) = Some (sample_batch 7)"
  by (simp add: decode_line_def decode_sample ensureEOF_def skip_ws_def is_ws_def)

subsection \<open>What an accepted batch guarantees\<close>

lemma validate_events_None: "validate_events i es = None \<longleftrightarrow> (\<forall>e \<in> set es. event_validate e = None)"
  by (induction es arbitrary: i) (auto split: option.splits)

lemma validateIdentifier_None:
  "validateIdentifier name v required = None \<longleftrightarrow>
    (required \<longrightarrow> trim_space v \<noteq> []) \<and> length v \<le> MaxIdentifierLength"
  by (simp add: validateIdentifier_def Let_def)

lemma batch_validate_events:
  "batch_validate b = None \<Longrightarrow> e \<in> set (ba_events b) \<Longrightarrow> event_validate e = None"
  by (simp add: batch_validate_def validate_events_None)

text \<open>
  Claim C7 [accepted_batch_trust]: the trust boundary of a batch that \<open>Validate\<close> accepts. Its identity
  fields are usable (non-blank, at most 128 bytes, non-zero sequence) and it has 1 to 1000 events;
  an event that came from a client carries its client sequence number and never claims server
  authority; an event with authority A, and every visibility observation, comes from the server;
  payloads are bounded and well-formed JSON.
\<close>

theorem accepted_batch_trust:
  assumes "batch_validate b = None"
  shows "ba_schema_version b = Version1 \<and> trim_space (ba_server b) \<noteq> [] \<and> length (ba_server b) \<le> 128 \<and>
    trim_space (ba_session b) \<noteq> [] \<and> length (ba_session b) \<le> 128 \<and> ba_sequence b \<noteq> 0 \<and>
    length (ba_events b) \<in> {1..1000} \<and>
    list_all (\<lambda>e. ev_sequence e \<noteq> 0 \<and> 0 \<le> ev_time e \<and> length (ev_payload e) \<le> MaxPayloadBytes \<and>
      (ev_payload e = [] \<or> json_valid (ev_payload e)) \<and>
      (ev_source e = SourceClient \<and> ev_client_sequence e \<noteq> None \<and> ev_authority e \<in> {[], ''B'', ''C''} \<and>
         ev_type e \<noteq> ''VISIBILITY_OBSERVATION'' \<or>
       ev_source e = SourceServer \<and> ev_authority e \<in> {[], ''A'', ''B'', ''C''} \<and>
         (ev_type e = ''VISIBILITY_OBSERVATION'' \<longrightarrow> ev_authority e = AuthorityServer))) (ba_events b)"
proof -
  have "list_all (\<lambda>e. ev_sequence e \<noteq> 0 \<and> 0 \<le> ev_time e \<and> length (ev_payload e) \<le> MaxPayloadBytes \<and>
      (ev_payload e = [] \<or> json_valid (ev_payload e)) \<and>
      (ev_source e = SourceClient \<and> ev_client_sequence e \<noteq> None \<and> ev_authority e \<in> {[], ''B'', ''C''} \<and>
         ev_type e \<noteq> ''VISIBILITY_OBSERVATION'' \<or>
       ev_source e = SourceServer \<and> ev_authority e \<in> {[], ''A'', ''B'', ''C''} \<and>
         (ev_type e = ''VISIBILITY_OBSERVATION'' \<longrightarrow> ev_authority e = AuthorityServer))) (ba_events b)"
    unfolding list_all_iff
  proof
    fix e assume "e \<in> set (ba_events b)"
    note ok = batch_validate_events[OF assms this]
    show "ev_sequence e \<noteq> 0 \<and> 0 \<le> ev_time e \<and> length (ev_payload e) \<le> MaxPayloadBytes \<and>
      (ev_payload e = [] \<or> json_valid (ev_payload e)) \<and>
      (ev_source e = SourceClient \<and> ev_client_sequence e \<noteq> None \<and> ev_authority e \<in> {[], ''B'', ''C''} \<and>
         ev_type e \<noteq> ''VISIBILITY_OBSERVATION'' \<or>
       ev_source e = SourceServer \<and> ev_authority e \<in> {[], ''A'', ''B'', ''C''} \<and>
         (ev_type e = ''VISIBILITY_OBSERVATION'' \<longrightarrow> ev_authority e = AuthorityServer))"
      using ok by (cases "ev_type e = ''VISIBILITY_OBSERVATION''"; cases "ev_source e = SourceServer")
        (auto simp: event_validate_def split: if_splits)
  qed
  moreover have "length (ba_events b) \<in> {1..1000}"
    using assms by (cases "ba_events b") (auto simp: batch_validate_def)
  ultimately show ?thesis
    using assms by (simp add: batch_validate_def validateIdentifier_None)
qed

theorem accepted_batch_trust_witness:
  "list_all (\<lambda>e. ev_source e = SourceServer \<and> ev_sequence e \<noteq> 0) (ba_events (sample_batch 7))"
  using accepted_batch_trust[OF validate_sample, of 7] by (simp add: sample_batch_def sample_event_def)

subsection \<open>Visibility evidence\<close>

definition vis_strings :: "(string \<times> string) list" where
  "vis_strings = [(''observer_player_id'', ''a''), (''target_player_id'', ''b''),
     (''classification'', ''ROBUSTLY_OCCLUDED''), (''observer_origin_mode'', ''FIRST_PERSON_EYE''),
     (''sampling_stream'', ''random_opportunity''), (''sampling_policy_version'', ''v''),
     (''sampling_reason'', ''r''), (''risk_set_definition'', ''d''), (''scheduler_load_state'', ''i''),
     (''visibility_policy_version'', ''v''), (''visibility_validation_id'', ''w'')]"

definition vis_numbers :: "(string \<times> string) list" where
  "vis_numbers = [(''observer_inclusion_probability'', ''1''), (''target_inclusion_probability'', ''1''),
    (''queue_admission_probability'', ''1''), (''observer_eligible_count'', ''2''),
    (''target_eligible_count'', ''2''), (''probe_started_ms'', ''5''), (''probe_completed_ms'', ''6''),
    (''occlusion_duration_ms'', ''400'')]"

definition vis_members :: "(string \<times> json) list" where
  "vis_members = map (\<lambda>(k, v). (k, JStr v)) vis_strings @ map (\<lambda>(k, v). (k, JNum v)) vis_numbers"

definition vis_payload :: string where
  "vis_payload = json_object (map (\<lambda>(k, v). json_field k (json_quote v)) vis_strings @
     map (\<lambda>(k, v). json_field k v) vis_numbers)"

lemma vis_payload_text: "json_text vis_payload = Some (JObj vis_members)"
  by code_simp

lemma num_real_samples: "num_real ''1'' = 1" "num_real ''2'' = 2" "num_real ''400'' = 400"
  "num_real ''5'' = 5" "num_real ''6'' = 6"
  by (simp_all add: num_real_def has_prefix_def is_digit_def num_exponent_def scale10_def
      digits_val_def digit_val_def)

lemma vis_payload_map: "unmarshal_map vis_payload = Some vis_members"
  by (simp add: unmarshal_map_def unmarshal_any_def vis_payload_text)
    (simp add: vis_members_def vis_strings_def vis_numbers_def num_real_samples float_fits_def)

definition vis_batch :: batch where
  "vis_batch = (sample_batch 8)\<lparr>ba_events := [sample_event\<lparr>ev_type := ''VISIBILITY_OBSERVATION'',
     ev_authority := AuthorityServer, ev_payload := vis_payload\<rparr>]\<rparr>"

lemma vis_payload_length: "length vis_payload < 1000"
  by code_simp

lemma vis_payload_nonempty: "vis_payload \<noteq> []"
  by (simp add: vis_payload_def json_object_def)

lemma vis_payload_accepted: "validateVisibilityPayload vis_payload = None"
  by (simp add: validateVisibilityPayload_def vis_payload_map vis_payload_nonempty)
    (simp add: vis_members_def vis_strings_def vis_numbers_def visibility_checks_def
      visibility_string_keys_def visibility_number_keys_def requireString_def requireNonNegative_def
      probability_field_def get_string_def get_float_def obj_get_def or_empty_def or_zero_def
      num_real_samples validatedFirstPersonOrigin_def trim_space_plain plain_char_def Let_def)

lemma validate_vis_batch: "batch_validate vis_batch = None"
  using vis_payload_length
  by (simp add: vis_batch_def batch_validate_def event_validate_def sample_batch_def sample_event_def
      zero_batch_def zero_event_def validateIdentifier_def trim_space_plain plain_char_def Let_def
      vis_payload_accepted json_valid_def vis_payload_text fail_if_def)

text \<open>
  Claim C8 [robust_occlusion_evidence]: no accepted batch holds an unsupported occlusion claim. A
  visibility observation classified \<open>ROBUSTLY_OCCLUDED\<close> names both players, has sampling
  probabilities in (0, 1], comes from a validated first-person origin with a validation id, and
  lasted a positive time.
\<close>

theorem robust_occlusion_evidence:
  assumes "batch_validate b = None" "e \<in> set (ba_events b)" "ev_type e = ''VISIBILITY_OBSERVATION''"
  shows "case unmarshal_map (ev_payload e) of None \<Rightarrow> False | Some f \<Rightarrow>
    list_all (\<lambda>k. \<exists>v. get_string f k = Some v \<and> trim_space v \<noteq> []) visibility_string_keys \<and>
    list_all (\<lambda>k. \<exists>x. get_float f k = Some x \<and> 0 < x \<and> x \<le> 1)
      [''observer_inclusion_probability'', ''target_inclusion_probability'', ''queue_admission_probability''] \<and>
    (get_string f ''classification'' = Some ''ROBUSTLY_OCCLUDED'' \<longrightarrow>
      or_empty (get_string f ''observer_origin_mode'') \<in> {''VALIDATED_FIRST_PERSON_HEAD'', ''FIRST_PERSON_EYE''} \<and>
      trim_space (or_empty (get_string f ''visibility_validation_id'')) \<noteq> [] \<and>
      0 < or_zero (get_float f ''occlusion_duration_ms''))"
proof -
  have "validateVisibilityPayload (ev_payload e) = None"
    using batch_validate_events[OF assms(1,2)] assms(3)
    by (simp add: event_validate_def split: if_splits)
  then obtain f where f: "unmarshal_map (ev_payload e) = Some f" "visibility_checks f = None"
    by (auto simp: validateVisibilityPayload_def split: if_splits option.splits)
  have required: "requireString f k = None \<longleftrightarrow> (\<exists>v. get_string f k = Some v \<and> trim_space v \<noteq> [])" for k
    by (auto simp: requireString_def split: option.splits)
  have probability: "probability_field f k \<longleftrightarrow> (\<exists>x. get_float f k = Some x \<and> 0 < x \<and> x \<le> 1)" for k
    by (auto simp: probability_field_def split: option.splits)
  show ?thesis
    using f(2) by (auto simp: f(1) visibility_checks_def Let_def first_error_None list_all_iff required
        probability validatedFirstPersonOrigin_def or_empty_def)
qed

theorem robust_occlusion_evidence_witness:
  "validatedFirstPersonOrigin (or_empty (get_string vis_members ''observer_origin_mode'')) \<and>
    0 < or_zero (get_float vis_members ''occlusion_duration_ms'')"
proof -
  have "get_string vis_members ''classification'' = Some ''ROBUSTLY_OCCLUDED''"
    by (simp add: vis_members_def vis_strings_def vis_numbers_def get_string_def obj_get_def)
  then show ?thesis
    using robust_occlusion_evidence[OF validate_vis_batch, of "hd (ba_events vis_batch)"]
    by (simp add: vis_batch_def vis_payload_map validatedFirstPersonOrigin_def)
qed

end
