(* ===== verification/FileSystem.thy ===== *)
theory FileSystem
  imports GoStrings "HOL-Library.Finite_Map"
begin

section \<open>Files, faults and atomic writes\<close>

text \<open>
  What the program uses of \<open>os\<close> and \<open>path/filepath\<close>. A path is the list of its components, so
  \<open>filepath.Join\<close> is append, \<open>filepath.Dir\<close> is \<open>butlast\<close> and \<open>filepath.WalkDir\<close> visits paths in
  their component-wise lexical order; code that compares whole path strings compares
  \<open>path_string\<close>. A file system maps paths to contents and modification times; directories exist as
  soon as they are needed (\<open>os.MkdirAll\<close>). Everything the outside world decides during one call is
  an \<open>io\<close> record: the system call that fails (none if \<open>None\<close>), the random part of the temporary
  name, how many bytes a failing write leaves, whether the deferred clean-up succeeds, a file that
  another process puts at the destination, the clock and its two text forms.
\<close>

type_synonym path = "string list"

record stored_file =
  f_data :: string
  f_time :: int

type_synonym fs = "(path, stored_file) fmap"

datatype syscall =
    StatFinal | ReadFinal | Mkdir | CreateTemp | Chmod | WriteData | WriteNewline | SyncFile
  | CloseFile | RenameFile | OpenDir | SyncDir | RemoveFile

record io =
  io_fault :: "syscall option"
  io_temp :: string
  io_partial :: nat
  io_cleanup :: bool
  io_race :: "stored_file option"
  io_now :: int
  io_stamp :: string
  io_windows :: bool

definition calm :: "string \<Rightarrow> int \<Rightarrow> io" where
  "calm tmp now = \<lparr>io_fault = None, io_temp = tmp, io_partial = 0, io_cleanup = True,
     io_race = None, io_now = now, io_stamp = [], io_windows = False\<rparr>"

definition fails :: "io \<Rightarrow> syscall \<Rightarrow> bool" where
  "fails i c \<longleftrightarrow> io_fault i = Some c"

definition path_string :: "path \<Rightarrow> string" where
  "path_string p = join_with ''/'' p"

text \<open>\<open>filepath.Ext\<close> and \<open>filepath.Base\<close>\<close>

definition path_base :: "path \<Rightarrow> string" where "path_base p = (if p = [] then ''.'' else last p)"

definition path_ext :: "path \<Rightarrow> string" where
  "path_ext p = (case last_index CHR ''.'' (path_base p) of
      None \<Rightarrow> [] | Some i \<Rightarrow> drop i (path_base p))"

definition is_below :: "path \<Rightarrow> path \<Rightarrow> bool" where
  "is_below rdir p \<longleftrightarrow> take (length rdir) p = rdir \<and> length rdir < length p"

text \<open>The files below a directory, in the order of \<open>filepath.WalkDir\<close>.\<close>

definition walk :: "path \<Rightarrow> fs \<Rightarrow> path list" where
  "walk rdir fs = filter (is_below rdir) (sorted_list_of_fset (fmdom fs))"

lemma set_walk [store_simps]: "set (walk rdir fs) = {p. p |\<in>| fmdom fs \<and> is_below rdir p}"
  by (auto simp: walk_def sorted_list_of_fset.rep_eq)

lemma distinct_walk [simp]: "distinct (walk rdir fs)"
  by (simp add: walk_def sorted_list_of_fset.rep_eq)

lemma sorted_walk: "sorted (walk rdir fs)"
  by (simp add: walk_def sorted_list_of_fset.rep_eq sorted_wrt_filter)

lemma is_below_append [simp]: "xs \<noteq> [] \<Longrightarrow> is_below rdir (rdir @ xs)"
  by (simp add: is_below_def)

lemma is_belowE:
  assumes "is_below rdir p"
  obtains xs where "p = rdir @ xs" "xs \<noteq> []"
  using assms unfolding is_below_def by (metis append_take_drop_id drop_eq_Nil2 not_le)

subsection \<open>File names made from identifiers\<close>

text \<open>\<open>ReplaceAllString\<close> of \<open>[^a-zA-Z0-9._-]+\<close> by one underscore per run.\<close>

definition safe_char :: "char \<Rightarrow> bool" where
  "safe_char c = (let n = of_char c :: int in
    48 \<le> n \<and> n \<le> 57 \<or> 65 \<le> n \<and> n \<le> 90 \<or> 97 \<le> n \<and> n \<le> 122 \<or> n = 46 \<or> n = 95 \<or> n = 45)"

fun replace_unsafe :: "bool \<Rightarrow> string \<Rightarrow> string" where
  "replace_unsafe in_run [] = []"
| "replace_unsafe in_run (c # s) =
    (if safe_char c then c # replace_unsafe False s
     else if in_run then replace_unsafe True s
     else CHR ''_'' # replace_unsafe True s)"

definition sanitise :: "string \<Rightarrow> string" where
  "sanitise v = (let cleaned = replace_unsafe False v in
    if cleaned = [] \<or> cleaned = ''.'' \<or> cleaned = ''..'' then ''unknown'' else cleaned)"

lemma replace_unsafe_safe: "list_all safe_char (replace_unsafe r s)"
  by (induction r s rule: replace_unsafe.induct) (auto simp: safe_char_def)

text \<open>A sanitised identifier is one safe path component: no separator, not \<open>.\<close> or \<open>..\<close>.\<close>

lemma sanitise_safe: "list_all safe_char (sanitise v)"
  using replace_unsafe_safe[of False v] by (simp add: sanitise_def Let_def safe_char_def)

lemma sanitise_component:
  "sanitise v \<noteq> [] \<and> sanitise v \<noteq> ''.'' \<and> sanitise v \<noteq> ''..'' \<and> CHR ''/'' \<notin> set (sanitise v)"
proof -
  have "CHR ''/'' \<notin> set (sanitise v)"
    using sanitise_safe[of v] by (auto simp: list_all_iff safe_char_def)
  then show ?thesis by (auto simp: sanitise_def Let_def)
qed

lemma replace_unsafe_id: "list_all safe_char s \<Longrightarrow> replace_unsafe r s = s"
  by (induction s arbitrary: r) auto

lemma sanitise_idem: "sanitise (sanitise v) = sanitise v"
  using sanitise_component[of v] replace_unsafe_id[OF sanitise_safe[of v]]
  by (simp add: sanitise_def[of "sanitise v"] Let_def)

subsection \<open>Writing a file through a temporary one\<close>

text \<open>
  \<open>os.CreateTemp(dir, ".batch-*.tmp")\<close>: \<open>io_temp\<close> is the name it settles on; a name that is taken
  is never reused.
\<close>

definition temp_path :: "path \<Rightarrow> io \<Rightarrow> path" where
  "temp_path dir i = dir @ [''.batch-'' @ io_temp i @ ''.tmp'']"

definition cleanup :: "io \<Rightarrow> path \<Rightarrow> fs \<Rightarrow> fs" where
  "cleanup i tmp fs = (if io_cleanup i then fmdrop tmp fs else fs)"

lemma fmlookup_cleanup [store_simps]:
  "p \<noteq> tmp \<Longrightarrow> fmlookup (cleanup i tmp fs) p = fmlookup fs p"
  by (simp add: cleanup_def)

lemma fmlookup_cleanup_fresh: "fmlookup (cleanup i tmp fs) p = Some f \<Longrightarrow> fmlookup fs p = Some f"
  by (auto simp: cleanup_def split: if_splits)

lemma temp_path_ext: "path_ext (temp_path dir i) = ''.tmp''"
proof -
  have "''.batch-'' @ io_temp i @ ''.tmp'' = (''.batch-'' @ io_temp i) @ CHR ''.'' # ''tmp''" by simp
  moreover have "CHR ''.'' \<notin> set ''tmp''" by simp
  ultimately have "last_index CHR ''.'' (''.batch-'' @ io_temp i @ ''.tmp'') =
      Some (length (''.batch-'' @ io_temp i))"
    by (metis last_index_append)
  then show ?thesis by (simp add: path_ext_def path_base_def temp_path_def)
qed

end
