(* ===== verification/Storage.thy ===== *)
theory Storage
  imports Schema FileSystem
begin

section \<open>The immutable raw store (\<open>internal/storage/raw.go\<close>)\<close>

text \<open>
  \<open>RawStore.Put\<close> writes one batch to one file and never rewrites it. The module also states the
  contract of the \<open>BatchStore\<close> interface (the one method \<open>Put\<close>), which the ingest server and the
  spool importer call: locale \<open>batch_store\<close>, interpreted here by the raw store and in theory Outbox
  by the agent's queue. Calls hold the store's mutex, so they are atomic; \<open>io\<close> carries their faults.
\<close>

datatype store_error =
  AlreadyStored | BatchConflict | CapacityExceeded | ServerIDMismatch | MarshalError | StoreIO

definition batch_file_name :: "batch \<Rightarrow> string" where
  "batch_file_name b = pad20 (uint (ba_sequence b)) @ ''.json''"

definition raw_dir :: "path \<Rightarrow> batch \<Rightarrow> path" where
  "raw_dir rdir b = rdir @ [sanitise (ba_server b), sanitise (ba_session b)]"

definition raw_path :: "path \<Rightarrow> batch \<Rightarrow> path" where
  "raw_path rdir b = raw_dir rdir b @ [batch_file_name b]"

text \<open>\<open>NewRawStore\<close>: the state of a store is its root and the file system.\<close>

definition new_raw_store :: "io \<Rightarrow> path \<Rightarrow> path option" where
  "new_raw_store i rdir = (if rdir = [] \<or> fails i Mkdir then None else Some rdir)"

definition raw_put_new :: "io \<Rightarrow> path \<Rightarrow> string \<Rightarrow> fs \<Rightarrow> store_error option \<times> fs" where
  "raw_put_new i final data fs =
    (let tmp = temp_path (butlast final) i;
         empty_file = \<lparr>f_data = [], f_time = io_now i\<rparr>;
         partial = \<lparr>f_data = take (io_partial i) data, f_time = io_now i\<rparr>;
         written = \<lparr>f_data = data, f_time = io_now i\<rparr>;
         complete = \<lparr>f_data = data @ [CHR 0x0A], f_time = io_now i\<rparr>
     in
     if fails i CreateTemp \<or> tmp |\<in>| fmdom fs then (Some StoreIO, fs)
     else if fails i Chmod then (Some StoreIO, cleanup i tmp (fmupd tmp empty_file fs))
     else if fails i WriteData then (Some StoreIO, cleanup i tmp (fmupd tmp partial fs))
     else if fails i WriteNewline then (Some StoreIO, cleanup i tmp (fmupd tmp written fs))
     else if fails i SyncFile \<or> fails i CloseFile
     then (Some StoreIO, cleanup i tmp (fmupd tmp complete fs))
     else if fails i RenameFile then
       (case io_race i of
          Some other \<Rightarrow>
            (Some (if trim_space (f_data other) = data then AlreadyStored else BatchConflict),
             cleanup i tmp (fmupd tmp complete (fmupd final other fs)))
        | None \<Rightarrow> (Some StoreIO, cleanup i tmp (fmupd tmp complete fs)))
     else
       (let fs' = fmupd final complete fs in
        if \<not> io_windows i \<and> (fails i OpenDir \<or> fails i SyncDir) then (Some StoreIO, fs')
        else (None, fs')))"

definition raw_put :: "path \<Rightarrow> io \<Rightarrow> batch \<Rightarrow> fs \<Rightarrow> store_error option \<times> fs" where
  "raw_put rdir i b fs =
    (case marshal_batch b of
       None \<Rightarrow> (Some MarshalError, fs)
     | Some data \<Rightarrow>
         (let final = raw_path rdir b in
          if fails i Mkdir then (Some StoreIO, fs)
          else if fails i StatFinal then (Some StoreIO, fs)
          else (case fmlookup fs final of
              Some existing \<Rightarrow>
                (Some (if fails i ReadFinal then StoreIO
                   else if trim_space (f_data existing) = data then AlreadyStored
                   else BatchConflict), fs)
            | None \<Rightarrow> raw_put_new i final data fs)))"

subsection \<open>The interface both stores provide\<close>

text \<open>
  \<open>holds b s\<close>: the store keeps batch \<open>b\<close> durably. A \<open>Put\<close> that reports success or a duplicate
  leaves the batch in the store, and no \<open>Put\<close>, whatever it reports, loses a stored batch.
\<close>

locale batch_store =
  fixes put :: "'env \<Rightarrow> batch \<Rightarrow> 's \<Rightarrow> store_error option \<times> 's"
    and holds :: "batch \<Rightarrow> 's \<Rightarrow> bool"
  assumes put_stored: "put i b s = (None, s') \<Longrightarrow> holds b s'"
    and put_duplicate: "put i b s = (Some AlreadyStored, s') \<Longrightarrow> holds b s'"
    and put_keeps: "put i b s = (r, s') \<Longrightarrow> holds b0 s \<Longrightarrow> holds b0 s'"
begin

definition acknowledged :: "store_error option \<Rightarrow> bool" where
  "acknowledged r \<longleftrightarrow> r = None \<or> r = Some AlreadyStored"

lemma put_acknowledged: "put i b s = (r, s') \<Longrightarrow> acknowledged r \<Longrightarrow> holds b s'"
  by (auto simp: acknowledged_def dest: put_stored put_duplicate)

end

subsection \<open>The raw store keeps the contract\<close>

lemma batch_text_shape: "\<exists>m. batch_text b = ''{'' @ m @ ''}''"
  by (simp add: batch_text_def json_object_def)

lemma space_bytes_not_plain: "x \<in> set (take (space_len s) s) \<Longrightarrow> \<not> plain_char x"
proof (cases s)
  case Nil
  then show "x \<in> set (take (space_len s) s) \<Longrightarrow> \<not> plain_char x" by simp
next
  case (Cons a r)
  show "x \<in> set (take (space_len s) s) \<Longrightarrow> \<not> plain_char x"
  proof (cases r)
    case Nil
    with Cons show "x \<in> set (take (space_len s) s) \<Longrightarrow> \<not> plain_char x"
      by (auto simp: space_len_def plain_char_def split: if_splits)
  next
    case (Cons b r')
    with \<open>s = a # r\<close> show "x \<in> set (take (space_len s) s) \<Longrightarrow> \<not> plain_char x"
      by (cases r')
        (auto simp: space_len_def plain_char_def numeral_2_eq_2 numeral_3_eq_3 split: if_splits)
  qed
qed

lemma space_len_le: "space_len s \<le> length s"
proof (cases s)
  case (Cons a r)
  then show ?thesis
    by (cases r; cases "tl r") (simp_all add: space_len_def numeral_3_eq_3)
qed simp

lemma space_len_last: "plain_char c \<Longrightarrow> space_len (s @ [c]) \<noteq> Suc (length s)"
  using space_bytes_not_plain[of c "s @ [c]"] by auto

lemma space_len_rev_plain_head:
  assumes "plain_char c"
  shows "space_len_rev (c # s) = 0"
proof -
  have "space_len (rev (take (Suc n) (c # s))) \<noteq> Suc (length (take n s))" for n
    using space_len_last[OF assms, of "rev (take n s)"] by simp
  from this[of 0] this[of 1] this[of 2] space_len_le[of "rev (take 3 (c # s))"] show ?thesis
    by (cases s; cases "tl s")
      (auto simp: space_len_rev_def numeral_2_eq_2 numeral_3_eq_3 space_len_plain assms)
qed

lemma trim_space_batch_text: "trim_space (batch_text b @ [CHR 0x0A]) = batch_text b"
proof -
  obtain m where m: "batch_text b = ''{'' @ m @ ''}''" using batch_text_shape by blast
  have p: "plain_char CHR ''{''" "plain_char CHR ''}''" by (simp_all add: plain_char_def)
  have "trim_left (batch_text b @ [CHR 0x0A]) = batch_text b @ [CHR 0x0A]"
    by (simp add: m trim_left_def strip_by_stop space_len_plain p)
  moreover have "strip_by space_len_rev (CHR 0x0A # CHR ''}'' # rev m @ ''{'') =
      strip_by space_len_rev (CHR ''}'' # rev m @ ''{'')"
    by (subst strip_by.simps) (simp add: space_len_rev_def space_len_def)
  moreover have "strip_by space_len_rev (CHR ''}'' # rev m @ ''{'') = CHR ''}'' # rev m @ ''{''"
    by (rule strip_by_stop) (rule space_len_rev_plain_head[OF p(2)])
  ultimately show ?thesis
    by (simp add: trim_space_def trim_right_def m)
qed

lemma marshal_batch_text: "marshal_batch b = Some data \<Longrightarrow> data = batch_text b"
  by (simp add: marshal_batch_def split: if_splits)

definition raw_holds :: "path \<Rightarrow> batch \<Rightarrow> fs \<Rightarrow> bool" where
  "raw_holds rdir b fs \<longleftrightarrow> (case fmlookup fs (raw_path rdir b) of
      None \<Rightarrow> False
    | Some f \<Rightarrow> marshal_batch b = Some (trim_space (f_data f)))"

lemma raw_put_new_result:
  assumes "raw_put_new i final data fs = (r, fs')" "final |\<notin>| fmdom fs"
  shows "fmlookup fs' final = None \<and> r = Some StoreIO
    \<or> (\<exists>f. fmlookup fs' final = Some f \<and> f_data f = data @ [CHR 0x0A] \<and> r \<in> {None, Some StoreIO})
    \<or> (\<exists>other. io_race i = Some other \<and> fmlookup fs' final = Some other \<and>
         r = Some (if trim_space (f_data other) = data then AlreadyStored else BatchConflict))
    \<or> final = temp_path (butlast final) i"
proof (cases "final = temp_path (butlast final) i")
  case False
  then show ?thesis
    using assms fmdom_notD[OF assms(2)]
    by (auto simp: raw_put_new_def Let_def store_simps split: if_splits option.splits)
qed simp

lemma raw_put_new_keeps:
  assumes "raw_put_new i final data fs = (r, fs')" "final |\<notin>| fmdom fs" "fmlookup fs p = Some f"
  shows "fmlookup fs' p = Some f"
proof -
  have "p \<noteq> final" using assms(2,3) by (auto dest: fmdomI)
  show ?thesis
  proof (cases "fails i CreateTemp \<or> temp_path (butlast final) i |\<in>| fmdom fs")
    case True
    then show ?thesis using assms by (simp add: raw_put_new_def Let_def)
  next
    case False
    then have "p \<noteq> temp_path (butlast final) i" using assms(3) by (auto dest: fmdomI)
    then show ?thesis
      using assms \<open>p \<noteq> final\<close>
      by (auto simp: raw_put_new_def Let_def store_simps split: if_splits option.splits)
  qed
qed

lemma has_json_ext: "path_ext (d @ [batch_file_name b]) = ''.json''"
proof -
  have "batch_file_name b = pad20 (uint (ba_sequence b)) @ CHR ''.'' # ''json''"
    by (simp add: batch_file_name_def)
  moreover have "CHR ''.'' \<notin> set ''json''" by simp
  ultimately have "last_index CHR ''.'' (batch_file_name b) =
      Some (length (pad20 (uint (ba_sequence b))))"
    by (metis last_index_append)
  then show ?thesis by (simp add: path_ext_def path_base_def batch_file_name_def)
qed

lemma raw_path_ne_temp: "raw_path rdir b \<noteq> temp_path d i"
  using has_json_ext[of "raw_dir rdir b" b] temp_path_ext[of d i] by (auto simp: raw_path_def)

lemma raw_put_cases:
  assumes "raw_put rdir i b fs = (r, fs')"
  obtains (unchanged) "fs' = fs" "r \<noteq> None"
      "r = Some AlreadyStored \<Longrightarrow> raw_holds rdir b fs"
  | (fresh) data where "marshal_batch b = Some data" "raw_path rdir b |\<notin>| fmdom fs"
      "raw_put_new i (raw_path rdir b) data fs = (r, fs')"
  using assms
  by (auto simp: raw_put_def Let_def raw_holds_def fmdom_notI split: option.splits if_splits)

lemma raw_put_immutable_lemma:
  assumes "fmlookup fs p = Some f"
  shows "fmlookup (snd (raw_put rdir i b fs)) p = Some f"
proof -
  obtain r fs' where put: "raw_put rdir i b fs = (r, fs')" by fastforce
  then show ?thesis
    by (cases rule: raw_put_cases) (use put assms raw_put_new_keeps in auto)
qed

lemma raw_put_stored:
  assumes "raw_put rdir i b fs = (r, fs')" "r = None \<or> r = Some AlreadyStored"
  shows "raw_holds rdir b fs'"
  using assms(1)
proof (cases rule: raw_put_cases)
  case unchanged
  then show ?thesis using assms(2) by auto
next
  case (fresh data)
  show ?thesis
    using raw_put_new_result[OF fresh(3,2)] fresh(1) assms(2) marshal_batch_text[OF fresh(1)]
      raw_path_ne_temp
    by (auto simp: raw_holds_def trim_space_batch_text split: if_splits)
qed

interpretation raw: batch_store "raw_put rdir" "raw_holds rdir" for rdir
proof
  fix i b s s' r b0
  show "raw_put rdir i b s = (None, s') \<Longrightarrow> raw_holds rdir b s'"
    by (rule raw_put_stored) auto
  show "raw_put rdir i b s = (Some AlreadyStored, s') \<Longrightarrow> raw_holds rdir b s'"
    by (rule raw_put_stored) auto
  show "raw_put rdir i b s = (r, s') \<Longrightarrow> raw_holds rdir b0 s \<Longrightarrow> raw_holds rdir b0 s'"
    using raw_put_immutable_lemma[of s "raw_path rdir b0" _ rdir i b]
    by (auto simp: raw_holds_def split: option.splits)
qed

subsection \<open>File names\<close>

lemma uint_bound20: "uint (w :: 64 word) < 10 ^ 20"
  using uint_lt2p[of w] by simp

lemma append_less_same: "length xs = length ys \<Longrightarrow>
    xs @ zs < ys @ (zs :: 'a :: linorder list) \<longleftrightarrow> xs < ys"
  by (induction xs ys rule: list_induct2) auto

lemma length_pad20: "length (pad20 (uint (w :: 64 word))) = 20"
  using uint_bound20[of w] by (simp add: pad20_eq_dec)

lemma batch_file_name_less:
  "batch_file_name b < batch_file_name b' \<longleftrightarrow> ba_sequence b < ba_sequence b'"
  using pad20_less_iff[OF _ uint_bound20 _ uint_bound20, of "ba_sequence b" "ba_sequence b'"]
  by (simp add: batch_file_name_def append_less_same length_pad20 word_less_def)

lemma batch_file_name_eq:
  "batch_file_name b = batch_file_name b' \<longleftrightarrow> ba_sequence b = ba_sequence b'"
  using batch_file_name_less[of b b'] batch_file_name_less[of b' b]
  by (metis batch_file_name_def less_irrefl linorder_less_linear)

lemma raw_path_eq: "raw_path rdir b = raw_path rdir b' \<longleftrightarrow>
    sanitise (ba_server b) = sanitise (ba_server b') \<and>
    sanitise (ba_session b) = sanitise (ba_session b') \<and> ba_sequence b = ba_sequence b'"
  by (auto simp: raw_path_def raw_dir_def batch_file_name_eq)

subsection \<open>Properties\<close>

text \<open>
  Claim C17 [raw_put_immutable]: the raw store is append-only. Whatever system call fails, whatever
  another process does meanwhile and whatever \<open>Put\<close> returns, every file that was on disk before the
  call is there after it with the same contents.
\<close>

theorem raw_put_immutable: "fmsubset fs (snd (raw_put rdir i b fs))"
  unfolding fmsubset_alt_def fmpred_iff using raw_put_immutable_lemma by blast

text \<open>
  Claim C18 [raw_put_all_or_nothing]: a \<open>Put\<close> of a new batch is all or nothing under every single
  fault: the batch file is absent and the call failed, or it holds the complete JSON text and its
  newline; the call returns \<open>nil\<close> only in the second case, and then no temporary file is left.
\<close>

theorem raw_put_all_or_nothing:
  assumes "marshal_batch b = Some data" "raw_path rdir b |\<notin>| fmdom fs" "io_race i = None"
  shows "case raw_put rdir i b fs of (r, fs') \<Rightarrow>
    (r = Some StoreIO \<and> fmlookup fs' (raw_path rdir b) = None) \<or>
    (r = Some StoreIO \<and> map_option f_data (fmlookup fs' (raw_path rdir b)) = Some (data @ [CHR 0x0A])) \<or>
    (r = None \<and> map_option f_data (fmlookup fs' (raw_path rdir b)) = Some (data @ [CHR 0x0A]) \<and>
       fmdom fs' = finsert (raw_path rdir b) (fmdom fs))"
proof -
  obtain r fs' where put: "raw_put rdir i b fs = (r, fs')" by fastforce
  have none: "fmlookup fs (raw_path rdir b) = None" using assms(2) by (rule fmdom_notD)
  show ?thesis
  proof (cases "fails i Mkdir \<or> fails i StatFinal")
    case True
    then show ?thesis
      using assms(1) none put by (auto simp: raw_put_def Let_def split: if_splits)
  next
    case False
    then have new: "raw_put_new i (raw_path rdir b) data fs = (r, fs')"
      using assms(1) none put by (simp add: raw_put_def Let_def)
    have "r = None \<Longrightarrow> fmdom fs' = finsert (raw_path rdir b) (fmdom fs)"
      using new by (auto simp: raw_put_new_def Let_def assms(3) split: if_splits)
    then show ?thesis
      using raw_put_new_result[OF new assms(2)] put assms(3) raw_path_ne_temp by auto
  qed
qed

theorem raw_put_all_or_nothing_witness:
  "case raw_put [''data''] ((calm ''t'' 5)\<lparr>io_fault := Some SyncDir\<rparr>) (sample_batch 7) fmempty of (r, fs') \<Rightarrow>
    (r = Some StoreIO \<and> fmlookup fs' (raw_path [''data''] (sample_batch 7)) = None) \<or>
    (r = Some StoreIO \<and> map_option f_data (fmlookup fs' (raw_path [''data''] (sample_batch 7))) =
       Some (batch_text (sample_batch 7) @ [CHR 0x0A])) \<or>
    (r = None \<and> map_option f_data (fmlookup fs' (raw_path [''data''] (sample_batch 7))) =
       Some (batch_text (sample_batch 7) @ [CHR 0x0A]) \<and>
       fmdom fs' = finsert (raw_path [''data''] (sample_batch 7)) (fmdom fmempty))"
  using raw_put_all_or_nothing[OF marshal_sample, of "[''data'']" 7 fmempty
      "(calm ''t'' 5)\<lparr>io_fault := Some SyncDir\<rparr>"]
  by (simp add: calm_def)

text \<open>
  Claim C19 [raw_put_idempotent]: after a \<open>Put\<close> that reported success, a second \<open>Put\<close> whose reads
  succeed changes nothing; it reports a duplicate for the same batch text and a conflict for any
  other batch with the same identity.
\<close>

theorem raw_put_idempotent:
  assumes "raw_put rdir i b fs = (None, fs')" "raw_path rdir b' = raw_path rdir b"
    and "marshal_batch b' = Some data'"
    and "\<not> fails j Mkdir" "\<not> fails j StatFinal" "\<not> fails j ReadFinal"
  shows "raw_put rdir j b' fs' =
    (Some (if data' = batch_text b then AlreadyStored else BatchConflict), fs')"
proof -
  have "raw_holds rdir b fs'" by (rule raw.put_stored[OF assms(1)])
  then obtain f where f: "fmlookup fs' (raw_path rdir b) = Some f"
    and "marshal_batch b = Some (trim_space (f_data f))"
    by (auto simp: raw_holds_def split: option.splits)
  then have "trim_space (f_data f) = batch_text b" by (simp add: marshal_batch_text)
  then show ?thesis using f assms(2-) by (auto simp: raw_put_def Let_def)
qed

lemma raw_put_calm:
  assumes "marshal_batch b = Some data" "raw_path rdir b |\<notin>| fmdom fs"
    and "temp_path (raw_dir rdir b) i |\<notin>| fmdom fs" "io_fault i = None"
  shows "raw_put rdir i b fs =
    (None, fmupd (raw_path rdir b) \<lparr>f_data = data @ [CHR 0x0A], f_time = io_now i\<rparr> fs)"
  using assms fmdom_notD[OF assms(2)]
  by (simp add: raw_put_def raw_put_new_def Let_def fails_def raw_path_def)

theorem raw_put_idempotent_witness:
  "raw_put [''data''] (calm ''u'' 6) (sample_batch 7)
     (snd (raw_put [''data''] (calm ''t'' 5) (sample_batch 7) fmempty)) =
   (Some AlreadyStored, snd (raw_put [''data''] (calm ''t'' 5) (sample_batch 7) fmempty))"
  using raw_put_idempotent[where rdir = "[''data'']" and i = "calm ''t'' 5" and b = "sample_batch 7"
      and b' = "sample_batch 7" and fs = fmempty and j = "calm ''u'' 6"
      and data' = "batch_text (sample_batch 7)"]
  by (simp add: raw_put_calm marshal_sample calm_def fails_def)

text \<open>
  Within one server session the raw files sort, as \<open>WalkDir\<close> visits
  them, by batch sequence number, and two batches share a file exactly when their sanitised server
  and session names and their sequence numbers agree.
\<close>

theorem raw_path_order:
  "(raw_path rdir b = raw_path rdir b' \<longleftrightarrow>
      sanitise (ba_server b) = sanitise (ba_server b') \<and>
      sanitise (ba_session b) = sanitise (ba_session b') \<and> ba_sequence b = ba_sequence b') \<and>
   (raw_dir rdir b @ [batch_file_name b] < raw_dir rdir b @ [batch_file_name b'] \<longleftrightarrow>
      ba_sequence b < ba_sequence b')"
  by (simp add: raw_path_eq lex_snoc batch_file_name_less)

text \<open>
  Sanitising is not injective. Two different server sessions whose
  names differ only in characters outside \<open>[a-zA-Z0-9._-]\<close> share their files, so that the second
  session's batch with the same number is refused as a conflict.
\<close>

theorem raw_sessions_collide:
  "let b1 = (sample_batch 1)\<lparr>ba_session := ''a:1''\<rparr>; b2 = (sample_batch 1)\<lparr>ba_session := ''a_1''\<rparr>;
       fs1 = snd (raw_put [''data''] (calm ''t'' 5) b1 fmempty)
   in ba_session b1 \<noteq> ba_session b2 \<and> fst (raw_put [''data''] (calm ''t'' 5) b1 fmempty) = None \<and>
      raw_put [''data''] (calm ''u'' 6) b2 fs1 = (Some BatchConflict, fs1)"
  by code_simp

end
