(* ===== verification/Outbox.thy ===== *)
theory Outbox
  imports Storage
begin

section \<open>The agent's durable queue (\<open>internal/agent/outbox.go\<close>)\<close>

text \<open>
  The queue keeps every accepted batch as a file below \<open>outbox\<close> and an in-memory index of those
  files (list, set of known paths, byte count). A state is the pair of the in-memory record and the
  file system. Every method holds the mutex, so a method is one atomic step; its faults are in \<open>io\<close>.
  The lemmas show that the index always describes the disk, what capacity and order the queue
  keeps, what a restart recovers, and that a batch leaves only by \<open>Remove\<close> or \<open>DeadLetter\<close>.
\<close>

subsection \<open>State\<close>

record queued_file =
  q_path :: path
  q_size :: int
  q_time :: int

record outbox =
  o_root :: path
  o_dead :: path
  o_server :: string
  o_max_bytes :: int
  o_max_batches :: int
  o_items :: "queued_file list"
  o_known :: "path set"
  o_bytes :: int
  o_dead_letters :: int
  o_wake :: bool

type_synonym outbox_state = "outbox \<times> fs"

subsection \<open>Writing a queued file\<close>

definition atomic_write :: "io \<Rightarrow> path \<Rightarrow> string \<Rightarrow> fs \<Rightarrow> store_error option \<times> fs" where
  "atomic_write i p data fs =
    (let tmp = temp_path (butlast p) i;
         empty_file = \<lparr>f_data = [], f_time = io_now i\<rparr>;
         partial = \<lparr>f_data = take (io_partial i) data, f_time = io_now i\<rparr>;
         complete = \<lparr>f_data = data, f_time = io_now i\<rparr>
     in
     if fails i Mkdir \<or> fails i CreateTemp \<or> tmp |\<in>| fmdom fs then (Some StoreIO, fs)
     else if fails i Chmod then (Some StoreIO, cleanup i tmp (fmupd tmp empty_file fs))
     else if fails i WriteData then (Some StoreIO, cleanup i tmp (fmupd tmp partial fs))
     else if fails i SyncFile \<or> fails i CloseFile \<or> fails i RenameFile
     then (Some StoreIO, cleanup i tmp (fmupd tmp complete fs))
     else
       (let fs' = fmupd p complete fs in
        if \<not> io_windows i \<and> (fails i OpenDir \<or> fails i SyncDir) then (Some StoreIO, fs')
        else (None, fs')))"

subsection \<open>Methods\<close>

definition batch_path :: "outbox \<Rightarrow> batch \<Rightarrow> path" where
  "batch_path q b = o_root q @ [sanitise (ba_server b), sanitise (ba_session b), batch_file_name b]"

primrec position :: "('a \<Rightarrow> bool) \<Rightarrow> 'a list \<Rightarrow> nat option" where
  "position P [] = None"
| "position P (x # xs) = (if P x then Some 0 else map_option Suc (position P xs))"

definition index_of :: "outbox \<Rightarrow> path \<Rightarrow> nat option" where
  "index_of q p = (if p \<notin> o_known q then None else position (\<lambda>x. q_path x = p) (o_items q))"

definition remove_at :: "outbox \<Rightarrow> nat \<Rightarrow> outbox" where
  "remove_at q k = (let item = o_items q ! k in
    q\<lparr>o_bytes := i64 (o_bytes q - q_size item), o_known := o_known q - {q_path item},
      o_items := take k (o_items q) @ drop (Suc k) (o_items q)\<rparr>)"

definition outbox_put :: "io \<Rightarrow> batch \<Rightarrow> outbox_state \<Rightarrow> store_error option \<times> outbox_state" where
  "outbox_put i b s = (case s of (q, fs) \<Rightarrow>
    if ba_server b \<noteq> o_server q then (Some ServerIDMismatch, s)
    else (case marshal_batch b of
      None \<Rightarrow> (Some MarshalError, s)
    | Some text \<Rightarrow>
        (let data = text @ [CHR 0x0A]; p = batch_path q b in
         if fails i ReadFinal then (Some StoreIO, s)
         else (case fmlookup fs p of
           Some existing \<Rightarrow> (Some (if f_data existing = data then AlreadyStored else BatchConflict), s)
         | None \<Rightarrow>
             if int (length (o_items q)) \<ge> o_max_batches q
               \<or> i64 (o_bytes q + int (length data)) > o_max_bytes q
             then (Some CapacityExceeded, s)
             else (case atomic_write i p data fs of
               (Some e, fs') \<Rightarrow> (Some e, (q, fs'))
             | (None, fs') \<Rightarrow>
                 (let item = \<lparr>q_path = p, q_size = int (length data), q_time = io_now i\<rparr> in
                  (None, (q\<lparr>o_items := o_items q @ [item], o_known := insert p (o_known q),
                     o_bytes := i64 (o_bytes q + q_size item), o_wake := True\<rparr>, fs')))))))) "

definition outbox_peek :: "outbox \<Rightarrow> (path \<times> int) option" where
  "outbox_peek q = (case o_items q of [] \<Rightarrow> None | x # _ \<Rightarrow> Some (q_path x, q_size x))"

definition outbox_read :: "io \<Rightarrow> path \<Rightarrow> outbox_state \<Rightarrow> store_error + string" where
  "outbox_read i p s = (if p = [] \<or> fails i ReadFinal then Inl StoreIO
    else (case fmlookup (snd s) p of None \<Rightarrow> Inl StoreIO | Some f \<Rightarrow> Inr (f_data f)))"

definition outbox_remove :: "io \<Rightarrow> path \<Rightarrow> outbox_state \<Rightarrow> store_error option \<times> outbox_state" where
  "outbox_remove i p s = (case s of (q, fs) \<Rightarrow> (case index_of q p of
      None \<Rightarrow> (None, s)
    | Some k \<Rightarrow> if fails i RemoveFile then (Some StoreIO, s)
        else (None, (remove_at q k, fmdrop p fs))))"

definition add_suffix :: "path \<Rightarrow> string \<Rightarrow> path" where
  "add_suffix p suf = butlast p @ [last p @ suf]"

definition reason_metadata :: "io \<Rightarrow> string \<Rightarrow> string" where
  "reason_metadata j reason =
    ''{'' @ [CHR 0x0A] @ ''  '' @ json_quote ''failed_at'' @ '': '' @ json_quote (io_stamp j) @
    '','' @ [CHR 0x0A] @ ''  '' @ json_quote ''reason'' @ '': '' @ json_quote reason @
    [CHR 0x0A] @ ''}'' @ [CHR 0x0A]"

definition dead_destination :: "io \<Rightarrow> path \<Rightarrow> outbox_state \<Rightarrow> path" where
  "dead_destination i p s = (case s of (q, fs) \<Rightarrow>
    let dest = o_dead q @ drop (length (o_root q)) p in
    if dest |\<in>| fmdom fs then add_suffix dest (''.'' @ io_stamp i) else dest)"

text \<open>\<open>i\<close> are the outcomes of moving the batch, \<open>j\<close> those of writing its reason.\<close>

definition outbox_dead_letter ::
  "io \<Rightarrow> io \<Rightarrow> path \<Rightarrow> string \<Rightarrow> outbox_state \<Rightarrow> store_error option \<times> outbox_state" where
  "outbox_dead_letter i j p reason s = (case s of (q, fs) \<Rightarrow> (case index_of q p of
      None \<Rightarrow> (None, s)
    | Some k \<Rightarrow>
        (if fails i Mkdir \<or> fails i StatFinal \<or> fails i RenameFile then (Some StoreIO, s)
         else (case fmlookup fs p of
           None \<Rightarrow> (Some StoreIO, s)
         | Some f \<Rightarrow>
             (let dest = dead_destination i p s;
                  fs1 = fmupd dest f (fmdrop p fs);
                  fs2 = snd (atomic_write j (add_suffix dest ''.reason.json'')
                          (reason_metadata j reason) fs1);
                  q' = remove_at q k
              in (None, (q'\<lparr>o_dead_letters := o_dead_letters q' + 1\<rparr>, fs2)))))))"

record queue_stats =
  st_batches :: int
  st_bytes :: int
  st_dead_letters :: int
  st_max_batches :: int
  st_max_bytes :: int

definition outbox_stats :: "outbox \<Rightarrow> queue_stats" where
  "outbox_stats q = \<lparr>st_batches = int (length (o_items q)), st_bytes = o_bytes q,
     st_dead_letters = o_dead_letters q, st_max_batches = o_max_batches q,
     st_max_bytes = o_max_bytes q\<rparr>"

definition at_capacity :: "outbox \<Rightarrow> bool" where
  "at_capacity q = (let stats = outbox_stats q in
    st_batches stats \<ge> st_max_batches stats \<or> st_bytes stats \<ge> st_max_bytes stats)"

subsection \<open>Opening\<close>

definition file_before :: "queued_file \<Rightarrow> queued_file \<Rightarrow> bool" where
  "file_before x y = (if q_time x \<noteq> q_time y then q_time x < q_time y
    else path_string (q_path x) < path_string (q_path y))"

definition queued_at :: "fs \<Rightarrow> path \<Rightarrow> queued_file" where
  "queued_at fs p = (case fmlookup fs p of
      Some f \<Rightarrow> \<lparr>q_path = p, q_size = int (length (f_data f)), q_time = f_time f\<rparr>
    | None \<Rightarrow> \<lparr>q_path = p, q_size = 0, q_time = 0\<rparr>)"

definition json_files :: "path \<Rightarrow> fs \<Rightarrow> path list" where
  "json_files rdir fs = filter (\<lambda>p. path_ext p = ''.json'') (walk rdir fs)"

definition count_dead_letters :: "path \<Rightarrow> fs \<Rightarrow> int" where
  "count_dead_letters rdir fs = int (length (filter (\<lambda>p.
     str_contains (path_base p) ''.json'' \<and> \<not> has_suffix (path_base p) ''.reason.json'')
     (walk rdir fs)))"

definition scan :: "outbox \<Rightarrow> fs \<Rightarrow> outbox" where
  "scan q fs =
    (let files = sort_by file_before (map (queued_at fs) (json_files (o_root q) fs));
         q' = foldl (\<lambda>q x. q\<lparr>o_items := o_items q @ [x], o_known := insert (q_path x) (o_known q),
                o_bytes := i64 (o_bytes q + q_size x)\<rparr>) q files
     in q'\<lparr>o_dead_letters := count_dead_letters (o_dead q) fs\<rparr>)"

definition open_outbox ::
  "io \<Rightarrow> path \<Rightarrow> string \<Rightarrow> int \<Rightarrow> int \<Rightarrow> fs \<Rightarrow> store_error + outbox" where
  "open_outbox i data_dir server_id max_bytes max_batches fs =
    (if data_dir = [] \<or> server_id = [] then Inl StoreIO
     else if max_bytes \<le> 0 \<or> max_batches \<le> 0 then Inl StoreIO
     else if fails i Mkdir \<or> fails i StatFinal then Inl StoreIO
     else Inr (scan \<lparr>o_root = data_dir @ [''outbox''], o_dead = data_dir @ [''dead-letter''],
       o_server = server_id, o_max_bytes = max_bytes, o_max_batches = max_batches, o_items = [],
       o_known = {}, o_bytes = 0, o_dead_letters = 0, o_wake = False\<rparr> fs))"

subsection \<open>Steps and reachable states\<close>

text \<open>One call of a method, or a restart of the agent on the same data directory.\<close>

inductive outbox_step :: "outbox_state \<Rightarrow> outbox_state \<Rightarrow> bool" where
  step_put: "outbox_put i b s = (r, s') \<Longrightarrow> outbox_step s s'"
| step_remove: "outbox_remove i p s = (r, s') \<Longrightarrow> outbox_step s s'"
| step_dead_letter: "outbox_dead_letter i j p reason s = (r, s') \<Longrightarrow> outbox_step s s'"
| step_restart: "o_root q = d @ [''outbox''] \<Longrightarrow>
    open_outbox i d (o_server q) (o_max_bytes q) (o_max_batches q) fs = Inr q' \<Longrightarrow>
    outbox_step (q, fs) (q', fs)"

inductive outbox_reachable :: "outbox_state \<Rightarrow> bool" where
  reach_open: "open_outbox i d sid mb mn fs = Inr q \<Longrightarrow> outbox_reachable (q, fs)"
| reach_step: "outbox_reachable s \<Longrightarrow> outbox_step s s' \<Longrightarrow> outbox_reachable s'"

subsection \<open>Lemmas on the index\<close>

lemma position_Some:
  "position P xs = Some k \<Longrightarrow> k < length xs \<and> P (xs ! k) \<and> (\<forall>y \<in> set (take k xs). \<not> P y)"
  by (induction xs arbitrary: k) (auto split: if_splits)

lemma position_None: "position P xs = None \<longleftrightarrow> (\<forall>x \<in> set xs. \<not> P x)"
  by (induction xs) auto

lemma drop_position:
  assumes "position (\<lambda>x. f x = p) xs = Some k" "distinct (map f xs)"
  shows "take k xs @ drop (Suc k) xs = filter (\<lambda>x. f x \<noteq> p) xs"
  using assms
proof (induction xs arbitrary: k)
  case Nil
  then show ?case by simp
next
  case (Cons x xs)
  show ?case
  proof (cases "f x = p")
    case True
    then have "filter (\<lambda>y. f y \<noteq> p) xs = xs" using Cons.prems(2) by (auto simp: filter_id_conv image_iff)
    with True Cons.prems(1) show ?thesis by simp
  qed (use Cons in auto)
qed

lemma sum_list_remove_at:
  assumes "k < length xs"
  shows "sum_list (map g (take k xs @ drop (Suc k) xs)) = sum_list (map g xs) - (g (xs ! k) :: int)"
proof -
  have "xs = take k xs @ xs ! k # drop (Suc k) xs" using assms by (simp add: id_take_nth_drop)
  then have "sum_list (map g xs) = sum_list (map g (take k xs @ xs ! k # drop (Suc k) xs))" by simp
  then show ?thesis by simp
qed

lemma i64_add_left: "i64 (i64 a + b) = i64 (a + b)"
proof -
  have "((a + h) mod m - h + b + h) mod m = (a + b + h) mod m" for h m :: int
    using mod_add_left_eq[of "a + h" m b] by (simp add: algebra_simps)
  then show ?thesis by (simp add: i64_def)
qed

lemma i64_diff_left: "i64 (i64 a - b) = i64 (a - b)"
  using i64_add_left[of a "- b"] by simp

lemma last_index_snoc_suffix:
  assumes "CHR ''.'' \<notin> set suf"
  shows "path_ext (add_suffix p (CHR ''.'' # suf)) = CHR ''.'' # suf"
proof -
  have "last_index CHR ''.'' (last p @ CHR ''.'' # suf) = Some (length (last p))"
    using assms by (rule last_index_append)
  then show ?thesis by (simp add: path_ext_def path_base_def add_suffix_def)
qed

lemma is_below_add_suffix: "is_below d p \<Longrightarrow> is_below d (add_suffix p suf)"
  by (auto simp: is_below_def add_suffix_def take_butlast butlast_append
      dest: arg_cong[of _ _ length] split: nat_diff_split)

subsection \<open>Effect of an atomic write\<close>

lemma atomic_write_keeps:
  assumes "atomic_write i p data fs = (r, fs')" "fmlookup fs p' = Some f" "p' \<noteq> p"
  shows "fmlookup fs' p' = Some f"
proof (cases "fails i Mkdir \<or> fails i CreateTemp \<or> temp_path (butlast p) i |\<in>| fmdom fs")
  case True
  then show ?thesis using assms by (simp add: atomic_write_def Let_def)
next
  case False
  then have "p' \<noteq> temp_path (butlast p) i" using assms(2) by (auto dest: fmdomI)
  then show ?thesis
    using assms by (auto simp: atomic_write_def Let_def store_simps split: if_splits)
qed

lemma atomic_write_ok:
  "atomic_write i p data fs = (None, fs') \<Longrightarrow> fs' = fmupd p \<lparr>f_data = data, f_time = io_now i\<rparr> fs"
  by (auto simp: atomic_write_def Let_def split: if_splits)

text \<open>Whatever fails, the only files a write can create are its target, complete, and a
  temporary file.\<close>

lemma atomic_write_frame:
  assumes "atomic_write i p data fs = (r, fs')"
  shows "fmlookup fs' p' = fmlookup fs p' \<or> p' = temp_path (butlast p) i \<or>
    p' = p \<and> fmlookup fs' p' = Some \<lparr>f_data = data, f_time = io_now i\<rparr>"
proof (cases "p' = p \<or> p' = temp_path (butlast p) i")
  case False
  then show ?thesis
    using assms by (auto simp: atomic_write_def Let_def store_simps split: if_splits)
next
  case True
  then show ?thesis
    using assms by (auto simp: atomic_write_def Let_def store_simps split: if_splits)
qed

lemma batch_path_below: "is_below (o_root q) (batch_path q b)"
  by (simp add: batch_path_def)

lemma batch_path_ext: "path_ext (batch_path q b) = ''.json''"
  using has_json_ext[of "o_root q @ [sanitise (ba_server b), sanitise (ba_session b)]" b]
  by (simp add: batch_path_def)

subsection \<open>The invariant: the index describes the disk\<close>

definition tracked :: "path \<Rightarrow> fs \<Rightarrow> queued_file \<Rightarrow> bool" where
  "tracked rdir fs x \<longleftrightarrow> is_below rdir (q_path x) \<and> path_ext (q_path x) = ''.json'' \<and>
    (case fmlookup fs (q_path x) of None \<Rightarrow> False | Some f \<Rightarrow> q_size x = int (length (f_data f)))"

definition outbox_inv :: "outbox_state \<Rightarrow> bool" where
  "outbox_inv s \<longleftrightarrow> (case s of (q, fs) \<Rightarrow>
     o_root q \<noteq> [] \<and> last (o_root q) = ''outbox'' \<and>
     o_dead q = butlast (o_root q) @ [''dead-letter''] \<and>
     distinct (map q_path (o_items q)) \<and>
     o_known q = set (map q_path (o_items q)) \<and>
     o_bytes q = i64 (sum_list (map q_size (o_items q))) \<and>
     list_all (tracked (o_root q) fs) (o_items q))"

lemma root_dead_disjoint:
  "outbox_inv (q, fs) \<Longrightarrow> is_below (o_root q) p \<Longrightarrow> is_below (o_dead q) p' \<Longrightarrow> p \<noteq> p'"
  by (cases "o_root q" rule: rev_cases) (auto simp: outbox_inv_def is_below_def)

lemma index_of_Some:
  assumes "outbox_inv (q, fs)" "index_of q p = Some k"
  shows "k < length (o_items q)" "q_path (o_items q ! k) = p" "p \<in> o_known q"
    "o_items (remove_at q k) = filter (\<lambda>x. q_path x \<noteq> p) (o_items q)"
  using assms position_Some[of "\<lambda>x. q_path x = p" "o_items q" k]
    drop_position[of q_path p "o_items q" k]
  by (auto simp: index_of_def remove_at_def outbox_inv_def Let_def split: if_splits)

lemma index_of_None:
  "outbox_inv (q, fs) \<Longrightarrow> index_of q p = None \<longleftrightarrow> p \<notin> set (map q_path (o_items q))"
  by (auto simp: index_of_def outbox_inv_def position_None)

lemma remove_at_frame [simp]:
  "o_root (remove_at q k) = o_root q" "o_dead (remove_at q k) = o_dead q"
  "o_server (remove_at q k) = o_server q" "o_max_bytes (remove_at q k) = o_max_bytes q"
  "o_max_batches (remove_at q k) = o_max_batches q"
  "o_dead_letters (remove_at q k) = o_dead_letters q"
  by (simp_all add: remove_at_def Let_def)

text \<open>Removing an entry keeps the invariant on any file system that still has the other files.\<close>

lemma remove_at_inv:
  assumes inv: "outbox_inv (q, fs)" and k: "index_of q p = Some k"
    and others: "\<And>x. x \<in> set (o_items q) \<Longrightarrow> q_path x \<noteq> p \<Longrightarrow>
      fmlookup fs' (q_path x) = fmlookup fs (q_path x)"
  shows "outbox_inv (remove_at q k, fs')"
proof -
  note idx = index_of_Some[OF inv k]
  have "o_bytes (remove_at q k) = i64 (sum_list (map q_size (o_items (remove_at q k))))"
    using inv sum_list_remove_at[OF idx(1), of q_size]
    by (simp add: remove_at_def Let_def outbox_inv_def i64_diff_left)
  moreover have "o_known (remove_at q k) = set (map q_path (o_items (remove_at q k)))"
  proof -
    have "o_known (remove_at q k) = o_known q - {p}" using idx by (simp add: remove_at_def Let_def)
    then show ?thesis using inv by (auto simp: idx(4) outbox_inv_def)
  qed
  ultimately show ?thesis
    using inv others
    by (auto simp: outbox_inv_def idx(4) list_all_iff tracked_def distinct_map_filter)
qed

lemma outbox_put_cases:
  assumes "outbox_put i b (q, fs) = (r, s')"
  obtains (refused) e where "r = Some e" "s' = (q, fs)"
      "e = AlreadyStored \<Longrightarrow>
        \<exists>f. fmlookup fs (batch_path q b) = Some f \<and> f_data f = batch_text b @ [CHR 0x0A]"
  | (failed) data e fs' where "marshal_batch b = Some data" "batch_path q b |\<notin>| fmdom fs"
      "atomic_write i (batch_path q b) (data @ [CHR 0x0A]) fs = (Some e, fs')"
      "r = Some e" "s' = (q, fs')"
  | (queued) data fs' item where "marshal_batch b = Some data" "batch_path q b |\<notin>| fmdom fs"
      "atomic_write i (batch_path q b) (data @ [CHR 0x0A]) fs = (None, fs')" "r = None"
      "item = \<lparr>q_path = batch_path q b, q_size = int (length (data @ [CHR 0x0A])), q_time = io_now i\<rparr>"
      "int (length (o_items q)) < o_max_batches q"
      "i64 (o_bytes q + q_size item) \<le> o_max_bytes q"
      "s' = (q\<lparr>o_items := o_items q @ [item], o_known := insert (batch_path q b) (o_known q),
         o_bytes := i64 (o_bytes q + q_size item), o_wake := True\<rparr>, fs')"
proof (cases "marshal_batch b")
  case None
  then show ?thesis
    using assms refused by (auto simp: outbox_put_def split: if_splits)
next
  case (Some data)
  note btext = marshal_batch_text[OF Some]
  show ?thesis
  proof (cases "fmlookup fs (batch_path q b)")
    case (Some f)
    then show ?thesis
      using assms refused \<open>marshal_batch b = Some data\<close> btext
      by (auto simp: outbox_put_def Let_def split: if_splits)
  next
    case None
    obtain w fs' where w: "atomic_write i (batch_path q b) (data @ [CHR 0x0A]) fs = (w, fs')"
      by fastforce
    show ?thesis
    proof (cases "ba_server b \<noteq> o_server q \<or> fails i ReadFinal \<or>
        int (length (o_items q)) \<ge> o_max_batches q \<or>
        i64 (o_bytes q + int (length (data @ [CHR 0x0A]))) > o_max_bytes q")
      case True
      then show ?thesis
        using assms refused Some None by (auto simp: outbox_put_def Let_def split: if_splits)
    next
      case False
      then show ?thesis
        using assms failed[OF Some, of _ fs'] queued[OF Some, of fs'] Some None w
        by (cases w) (auto simp: outbox_put_def Let_def fmdom_notI)
    qed
  qed
qed

lemma tracked_not_temp: "tracked rdir fs x \<Longrightarrow> q_path x \<noteq> temp_path d i"
  using temp_path_ext[of d i] by (auto simp: tracked_def)

lemma outbox_put_inv:
  assumes inv: "outbox_inv (q, fs)" and put: "outbox_put i b (q, fs) = (r, s')"
  shows "outbox_inv s'"
  using put
proof (cases rule: outbox_put_cases)
  case (refused e)
  then show ?thesis using inv by simp
next
  case (failed data e fs')
  have "fmlookup fs p = Some f \<Longrightarrow> fmlookup fs' p = Some f" for p f
    using atomic_write_keeps[OF failed(3), of p f] fmdomI[of fs p f] failed(2) by blast
  then have "tracked (o_root q) fs x \<Longrightarrow> tracked (o_root q) fs' x" for x
    by (auto simp: tracked_def split: option.splits)
  then show ?thesis using inv failed(5) by (auto simp: outbox_inv_def list_all_iff)
next
  case (queued data fs' item)
  note fs' = atomic_write_ok[OF queued(3)]
  have "q_path x \<noteq> batch_path q b" if "x \<in> set (o_items q)" for x
  proof -
    have "tracked (o_root q) fs x" using that inv by (simp add: outbox_inv_def list_all_iff)
    then show ?thesis using queued(2) by (auto simp: tracked_def split: option.splits dest: fmdomI)
  qed
  then have "batch_path q b \<notin> q_path ` set (o_items q)"
    "\<forall>x \<in> set (o_items q). batch_path q b \<noteq> q_path x" by force+
  moreover have "tracked (o_root q) fs' item"
    using batch_path_below batch_path_ext by (simp add: queued(5) tracked_def fs')
  ultimately show ?thesis
    using inv queued(5,8)
    by (simp add: outbox_inv_def list_all_iff tracked_def fs' i64_add_left)
qed

lemma outbox_remove_cases:
  assumes "outbox_remove i p (q, fs) = (r, s')"
  obtains (absent) "r = None" "s' = (q, fs)" "index_of q p = None"
  | (failed) "r = Some StoreIO" "s' = (q, fs)"
  | (removed) k where "r = None" "index_of q p = Some k" "s' = (remove_at q k, fmdrop p fs)"
  using assms by (auto simp: outbox_remove_def split: option.splits if_splits)

lemma outbox_remove_inv:
  assumes inv: "outbox_inv (q, fs)" and rem: "outbox_remove i p (q, fs) = (r, s')"
  shows "outbox_inv s'"
  using rem
proof (cases rule: outbox_remove_cases)
  case (removed k)
  then show ?thesis using remove_at_inv[OF inv removed(2), of "fmdrop p fs"] by simp
qed (use inv in auto)

lemma outbox_inv_dead_letters: "outbox_inv (q\<lparr>o_dead_letters := n\<rparr>, fs) = outbox_inv (q, fs)"
  by (simp add: outbox_inv_def)

lemma outbox_dead_letter_cases:
  assumes "outbox_dead_letter i j p reason (q, fs) = (r, s')"
  obtains (absent) "r = None" "s' = (q, fs)" "index_of q p = None"
  | (failed) "r = Some StoreIO" "s' = (q, fs)"
  | (moved) k f w fs2 where "r = None" "index_of q p = Some k" "fmlookup fs p = Some f"
      "atomic_write j (add_suffix (dead_destination i p (q, fs)) ''.reason.json'')
         (reason_metadata j reason) (fmupd (dead_destination i p (q, fs)) f (fmdrop p fs)) = (w, fs2)"
      "s' = ((remove_at q k)\<lparr>o_dead_letters := o_dead_letters q + 1\<rparr>, fs2)"
proof -
  obtain w fs2 where w: "atomic_write j (add_suffix (dead_destination i p (q, fs)) ''.reason.json'')
      (reason_metadata j reason)
      (fmupd (dead_destination i p (q, fs)) (the (fmlookup fs p)) (fmdrop p fs)) = (w, fs2)"
    by fastforce
  then show ?thesis
    using assms moved[of "the (index_of q p)" "the (fmlookup fs p)" w fs2] absent failed
    by (auto simp: outbox_dead_letter_def Let_def split: option.splits if_splits)
qed

lemma dead_destination_below:
  assumes "is_below (o_root q) p"
  shows "is_below (o_dead q) (dead_destination i p (q, fs))"
proof -
  obtain xs where "p = o_root q @ xs" "xs \<noteq> []" using assms by (rule is_belowE)
  then show ?thesis by (auto simp: dead_destination_def Let_def intro: is_below_add_suffix)
qed

lemma outbox_dead_letter_inv:
  assumes inv: "outbox_inv (q, fs)" and dead: "outbox_dead_letter i j p reason (q, fs) = (r, s')"
  shows "outbox_inv s'"
  using dead
proof (cases rule: outbox_dead_letter_cases)
  case (moved k f w fs2)
  let ?dest = "dead_destination i p (q, fs)"
  note idx = index_of_Some[OF inv moved(2)]
  have "is_below (o_root q) p" using inv idx by (auto simp: outbox_inv_def list_all_iff tracked_def)
  then have dest: "is_below (o_dead q) ?dest" by (rule dead_destination_below)
  have "fmlookup fs2 (q_path x) = fmlookup fs (q_path x)"
    if x: "x \<in> set (o_items q)" "q_path x \<noteq> p" for x
  proof -
    have t: "tracked (o_root q) fs x" using inv x by (auto simp: outbox_inv_def list_all_iff)
    then have "is_below (o_root q) (q_path x)" by (simp add: tracked_def)
    then have "q_path x \<noteq> ?dest" "q_path x \<noteq> add_suffix ?dest ''.reason.json''"
      using root_dead_disjoint[OF inv] dest is_below_add_suffix by blast+
    then show ?thesis
      using atomic_write_frame[OF moved(4), of "q_path x"] tracked_not_temp[OF t] x(2) by auto
  qed
  then show ?thesis
    using remove_at_inv[OF inv moved(2), of fs2] by (simp add: moved(5) outbox_inv_dead_letters)
qed (use inv in auto)

subsection \<open>Opening and scanning\<close>

interpretation file_order: comparison file_before
  unfolding file_before_def by (rule comparison_lex) (rule comparison_key)

definition scanned_files :: "path \<Rightarrow> fs \<Rightarrow> queued_file list" where
  "scanned_files rdir fs = sort_by file_before (map (queued_at fs) (json_files rdir fs))"

lemma scan_fold:
  assumes "o_bytes q = i64 n"
  shows "foldl (\<lambda>q x. q\<lparr>o_items := o_items q @ [x], o_known := insert (q_path x) (o_known q),
      o_bytes := i64 (o_bytes q + q_size x)\<rparr>) q xs =
    q\<lparr>o_items := o_items q @ xs, o_known := o_known q \<union> q_path ` set xs,
      o_bytes := i64 (n + sum_list (map q_size xs))\<rparr>"
  using assms
proof (induction xs arbitrary: q n)
  case Nil
  then show ?case by simp
next
  case (Cons x xs)
  have "i64 (o_bytes q + q_size x) = i64 (n + q_size x)" using Cons.prems by (simp add: i64_add_left)
  then show ?case using Cons.IH[of _ "n + q_size x"] by (simp add: add.assoc insert_commute)
qed

lemma scan_fields:
  assumes "o_items q = []" "o_known q = {}" "o_bytes q = 0"
  shows "scan q fs = q\<lparr>o_items := scanned_files (o_root q) fs,
    o_known := q_path ` set (scanned_files (o_root q) fs),
    o_bytes := i64 (sum_list (map q_size (scanned_files (o_root q) fs))),
    o_dead_letters := count_dead_letters (o_dead q) fs\<rparr>"
  using assms scan_fold[of q 0 "scanned_files (o_root q) fs"]
  by (simp add: scan_def Let_def scanned_files_def i64_def)

lemma q_path_queued_at [simp]: "q_path (queued_at fs p) = p"
  by (simp add: queued_at_def split: option.split)

lemma set_json_files: "set (json_files rdir fs) =
    {p. p |\<in>| fmdom fs \<and> is_below rdir p \<and> path_ext p = ''.json''}"
  by (auto simp: json_files_def store_simps)

lemma distinct_scanned: "distinct (map q_path (scanned_files rdir fs))"
proof -
  have "mset (map q_path (scanned_files rdir fs)) = mset (json_files rdir fs)"
    by (simp add: scanned_files_def mset_map multiset.map_comp comp_def)
  moreover have "distinct (json_files rdir fs)" by (simp add: json_files_def)
  ultimately show ?thesis by (metis distinct_count_atmost_1 set_mset_mset)
qed

lemma tracked_scanned: "list_all (tracked rdir fs) (scanned_files rdir fs)"
  by (auto simp: list_all_iff scanned_files_def set_json_files tracked_def queued_at_def fmdom_notI
      split: option.splits dest: fmdom_notI)

lemma open_outbox_fields:
  assumes "open_outbox i d sid mb mn fs = Inr q"
  shows "o_root q = d @ [''outbox'']" "o_dead q = d @ [''dead-letter'']" "o_server q = sid"
    "o_max_bytes q = mb" "o_max_batches q = mn" "o_items q = scanned_files (o_root q) fs"
    "outbox_inv (q, fs)"
  using assms distinct_scanned[of "o_root q" fs] tracked_scanned[of "o_root q" fs]
  by (auto simp: open_outbox_def scan_fields outbox_inv_def split: if_splits)

lemma outbox_step_inv: "outbox_step s s' \<Longrightarrow> outbox_inv s \<Longrightarrow> outbox_inv s'"
  by (cases s) (auto elim!: outbox_step.cases
      intro: outbox_put_inv outbox_remove_inv outbox_dead_letter_inv open_outbox_fields)

lemma outbox_reachable_inv: "outbox_reachable s \<Longrightarrow> outbox_inv s"
  by (induction rule: outbox_reachable.induct)
    (auto intro: outbox_step_inv open_outbox_fields)

subsection \<open>What the queue holds, as its clients see it\<close>

text \<open>
  The abstract value of a queue: the paths in delivery order, each with the bytes a \<open>Read\<close> returns.
  Locale \<open>delivery_queue\<close> is what the uploader relies on.
\<close>

definition file_text :: "fs \<Rightarrow> path \<Rightarrow> string" where
  "file_text fs p = (case fmlookup fs p of None \<Rightarrow> [] | Some f \<Rightarrow> f_data f)"

definition queue_contents :: "outbox_state \<Rightarrow> (path \<times> string) list" where
  "queue_contents s = map (\<lambda>x. (q_path x, file_text (snd s) (q_path x))) (o_items (fst s))"

definition without :: "path \<Rightarrow> (path \<times> string) list \<Rightarrow> (path \<times> string) list" where
  "without p = filter (\<lambda>c. fst c \<noteq> p)"

locale delivery_queue =
  fixes inv :: "'s \<Rightarrow> bool"
    and contents :: "'s \<Rightarrow> (path \<times> string) list"
    and peek :: "'s \<Rightarrow> (path \<times> int) option"
    and get :: "io \<Rightarrow> path \<Rightarrow> 's \<Rightarrow> store_error + string"
    and remove :: "io \<Rightarrow> path \<Rightarrow> 's \<Rightarrow> store_error option \<times> 's"
    and bury :: "io \<Rightarrow> io \<Rightarrow> path \<Rightarrow> string \<Rightarrow> 's \<Rightarrow> store_error option \<times> 's"
    and buried :: "string \<Rightarrow> 's \<Rightarrow> bool"
  assumes contents_distinct: "inv s \<Longrightarrow> distinct (map fst (contents s))"
    and peek_none: "inv s \<Longrightarrow> peek s = None \<longleftrightarrow> contents s = []"
    and peek_first: "inv s \<Longrightarrow> peek s = Some (p, n) \<Longrightarrow> p = fst (hd (contents s))"
    and get_content: "inv s \<Longrightarrow> (p, d) \<in> set (contents s) \<Longrightarrow> get i p s = Inr d' \<Longrightarrow> d' = d"
    and remove_inv: "inv s \<Longrightarrow> remove i p s = (r, s') \<Longrightarrow> inv s'"
    and remove_contents: "inv s \<Longrightarrow> remove i p s = (r, s') \<Longrightarrow>
      contents s' = (if r = None then without p (contents s) else contents s)"
    and bury_inv: "inv s \<Longrightarrow> bury i j p reason s = (r, s') \<Longrightarrow> inv s'"
    and bury_contents: "inv s \<Longrightarrow> bury i j p reason s = (r, s') \<Longrightarrow>
      contents s' = (if r = None then without p (contents s) else contents s)"
    and bury_keeps: "inv s \<Longrightarrow> (p, d) \<in> set (contents s) \<Longrightarrow> bury i j p reason s = (None, s') \<Longrightarrow>
      buried d s'"
begin

lemma peek_hd: "inv s \<Longrightarrow> peek s = Some (p, n) \<Longrightarrow> \<exists>d cs. contents s = (p, d) # cs"
  using peek_none[of s] peek_first[of s p n] by (cases "contents s") auto

lemma without_head:
  assumes "inv s" "contents s = (p, d) # cs"
  shows "without p (contents s) = cs"
proof -
  have "\<forall>c \<in> set cs. fst c \<noteq> p" using contents_distinct[OF assms(1)] assms(2) by force
  then show ?thesis by (simp add: assms(2) without_def filter_id_conv)
qed

text \<open>What one visit to the front of the queue does to the contents.\<close>

lemma get_front:
  assumes "inv s" "peek s = Some (p, n)" "get i p s = Inr d"
  shows "\<exists>cs. contents s = (p, d) # cs"
proof -
  obtain d' cs where cs: "contents s = (p, d') # cs" using peek_hd[OF assms(1,2)] by blast
  then have "d = d'" using get_content[OF assms(1) _ assms(3), of d'] by simp
  with cs show ?thesis by simp
qed

lemma remove_front:
  assumes "inv s" "contents s = (p, d) # cs" "remove i p s = (None, s')"
  shows "contents s' = cs"
  using remove_contents[OF assms(1,3)] without_head[OF assms(1,2)] by simp

lemma bury_front:
  assumes "inv s" "contents s = (p, d) # cs" "bury i j p reason s = (None, s')"
  shows "contents s' = cs \<and> buried d s'"
  using bury_contents[OF assms(1,3)] without_head[OF assms(1,2)] bury_keeps[OF assms(1) _ assms(3), of d]
    assms(2) by simp

end

lemma contents_put:
  assumes inv: "outbox_inv (q, fs)" and put: "outbox_put i b (q, fs) = (r, s')"
  shows "queue_contents s' = queue_contents (q, fs) @
    (if r = None then [(batch_path q b, batch_text b @ [CHR 0x0A])] else [])"
proof -
  have on_disk: "\<exists>f. fmlookup fs (q_path x) = Some f" if "x \<in> set (o_items q)" for x
    using inv that by (auto simp: outbox_inv_def list_all_iff tracked_def split: option.splits)
  show ?thesis
    using put
  proof (cases rule: outbox_put_cases)
    case (refused e)
    then show ?thesis by simp
  next
    case (failed data e fs')
    have "file_text fs' (q_path x) = file_text fs (q_path x)" if x: "x \<in> set (o_items q)" for x
    proof -
      obtain f where f: "fmlookup fs (q_path x) = Some f" using on_disk[OF x] by blast
      then have "q_path x \<noteq> batch_path q b" using failed(2) by (auto dest: fmdomI)
      from atomic_write_keeps[OF failed(3) f this] f show ?thesis by (simp add: file_text_def)
    qed
    then show ?thesis using failed(4,5) by (simp add: queue_contents_def)
  next
    case (queued data fs' item)
    have "batch_path q b \<noteq> q_path x" if "x \<in> set (o_items q)" for x
      using on_disk[OF that] queued(2) by (auto dest: fmdomI)
    then show ?thesis
      using queued(4,5,8) atomic_write_ok[OF queued(3)] marshal_batch_text[OF queued(1)]
      by (auto simp: queue_contents_def file_text_def)
  qed
qed

lemma contents_drop:
  assumes "outbox_inv (q, fs)" "index_of q p = Some k"
    and "\<And>x. x \<in> set (o_items q) \<Longrightarrow> q_path x \<noteq> p \<Longrightarrow>
      fmlookup fs' (q_path x) = fmlookup fs (q_path x)"
  shows "map (\<lambda>x. (q_path x, file_text fs' (q_path x))) (o_items (remove_at q k)) =
    without p (queue_contents (q, fs))"
  using assms(3) index_of_Some(4)[OF assms(1,2)]
  by (auto simp: queue_contents_def without_def filter_map comp_def file_text_def)

lemma contents_absent:
  "outbox_inv (q, fs) \<Longrightarrow> index_of q p = None \<Longrightarrow>
    without p (queue_contents (q, fs)) = queue_contents (q, fs)"
  by (auto simp: index_of_None without_def queue_contents_def filter_id_conv)

lemma contents_remove:
  assumes inv: "outbox_inv (q, fs)" and rem: "outbox_remove i p (q, fs) = (r, s')"
  shows "queue_contents s' =
    (if r = None then without p (queue_contents (q, fs)) else queue_contents (q, fs))"
  using rem
proof (cases rule: outbox_remove_cases)
  case (removed k)
  then show ?thesis
    using contents_drop[OF inv removed(2), of "fmdrop p fs"] by (simp add: queue_contents_def)
qed (use contents_absent[OF inv] in auto)

definition outbox_buried :: "string \<Rightarrow> outbox_state \<Rightarrow> bool" where
  "outbox_buried data s \<longleftrightarrow> (case s of (q, fs) \<Rightarrow>
     list_ex (\<lambda>p. file_text fs p = data) (walk (o_dead q) fs))"

lemma dead_letter_moves:
  assumes inv: "outbox_inv (q, fs)" and k: "index_of q p = Some k"
    and dead: "outbox_dead_letter i j p reason (q, fs) = (None, (q', fs'))"
  shows "queue_contents (q', fs') = without p (queue_contents (q, fs))"
    and "fmlookup fs' (dead_destination i p (q, fs)) = fmlookup fs p"
    and "is_below (o_dead q') (dead_destination i p (q, fs))"
    and "\<lbrakk>p' |\<in>| fmdom fs; p' \<noteq> p; p' \<noteq> dead_destination i p (q, fs);
      p' \<noteq> add_suffix (dead_destination i p (q, fs)) ''.reason.json''\<rbrakk> \<Longrightarrow>
      fmlookup fs' p' = fmlookup fs p'"
proof -
  let ?dest = "dead_destination i p (q, fs)"
  from dead k obtain f w where f: "fmlookup fs p = Some f"
    and w: "atomic_write j (add_suffix ?dest ''.reason.json'') (reason_metadata j reason)
      (fmupd ?dest f (fmdrop p fs)) = (w, fs')"
    and q': "q' = (remove_at q k)\<lparr>o_dead_letters := o_dead_letters q + 1\<rparr>"
    by (cases rule: outbox_dead_letter_cases) auto
  note idx = index_of_Some[OF inv k]
  have t: "tracked (o_root q) fs x" if "x \<in> set (o_items q)" for x
    using inv that by (auto simp: outbox_inv_def list_all_iff)
  have "is_below (o_root q) p" using t idx by (auto simp: tracked_def)
  then have dest: "is_below (o_dead q) ?dest" by (rule dead_destination_below)
  then show "is_below (o_dead q') ?dest" by (simp add: q')
  have "?dest \<noteq> add_suffix ?dest ''.reason.json''"
    by (cases ?dest rule: rev_cases) (use dest in \<open>auto simp: add_suffix_def is_below_def\<close>)
  then show "fmlookup fs' ?dest = fmlookup fs p"
    using atomic_write_keeps[OF w, of ?dest f] f by simp
  have keep: "fmlookup fs' p' = fmlookup fs p'"
    if "p' |\<in>| fmdom fs" "p' \<noteq> p" "p' \<noteq> ?dest" "p' \<noteq> add_suffix ?dest ''.reason.json''" for p'
    using that atomic_write_keeps[OF w, of p'] by auto
  then show "\<lbrakk>p' |\<in>| fmdom fs; p' \<noteq> p; p' \<noteq> ?dest; p' \<noteq> add_suffix ?dest ''.reason.json''\<rbrakk> \<Longrightarrow>
      fmlookup fs' p' = fmlookup fs p'" .
  have "fmlookup fs' (q_path x) = fmlookup fs (q_path x)"
    if x: "x \<in> set (o_items q)" "q_path x \<noteq> p" for x
  proof (rule keep)
    show "q_path x |\<in>| fmdom fs"
      using t[OF x(1)] by (auto simp: tracked_def split: option.splits intro: fmdomI)
    show "q_path x \<noteq> ?dest" "q_path x \<noteq> add_suffix ?dest ''.reason.json''"
      using root_dead_disjoint[OF inv] t[OF x(1)] dest is_below_add_suffix
      by (auto simp: tracked_def)
  qed (rule x(2))
  then show "queue_contents (q', fs') = without p (queue_contents (q, fs))"
    using contents_drop[OF inv k, of fs'] by (simp add: queue_contents_def q')
qed

lemma contents_dead_letter:
  assumes inv: "outbox_inv (q, fs)" and dead: "outbox_dead_letter i j p reason (q, fs) = (r, s')"
  shows "queue_contents s' =
    (if r = None then without p (queue_contents (q, fs)) else queue_contents (q, fs))"
  using dead
proof (cases rule: outbox_dead_letter_cases)
  case (moved k f w fs2)
  then show ?thesis
    using dead_letter_moves(1)[OF inv moved(2)] dead by (cases s') auto
qed (use contents_absent[OF inv] in auto)

lemma contents_file:
  assumes inv: "outbox_inv (q, fs)" and c: "(p, d) \<in> set (queue_contents (q, fs))"
  shows "\<exists>f. fmlookup fs p = Some f \<and> f_data f = d" "\<exists>k. index_of q p = Some k"
proof -
  obtain x where x: "x \<in> set (o_items q)" "q_path x = p" "d = file_text fs p"
    using c by (auto simp: queue_contents_def)
  then have "tracked (o_root q) fs x" using inv by (auto simp: outbox_inv_def list_all_iff)
  then show "\<exists>f. fmlookup fs p = Some f \<and> f_data f = d"
    using x by (auto simp: tracked_def file_text_def split: option.splits)
  show "\<exists>k. index_of q p = Some k"
    using index_of_None[OF inv, of p] x by (cases "index_of q p") auto
qed

interpretation queue: delivery_queue outbox_inv queue_contents "\<lambda>s. outbox_peek (fst s)"
  outbox_read outbox_remove outbox_dead_letter outbox_buried
proof
  fix s s' :: outbox_state and p d d' reason i j r and n :: int
  obtain q fs where s: "s = (q, fs)" by fastforce
  assume inv: "outbox_inv s"
  show "distinct (map fst (queue_contents s))"
    using inv by (simp add: s queue_contents_def comp_def outbox_inv_def)
  show "(outbox_peek (fst s) = None) = (queue_contents s = [])"
    by (simp add: outbox_peek_def queue_contents_def split: list.split)
  show "outbox_peek (fst s) = Some (p, n) \<Longrightarrow> p = fst (hd (queue_contents s))"
    by (auto simp: outbox_peek_def queue_contents_def split: list.splits)
  show "(p, d) \<in> set (queue_contents s) \<Longrightarrow> outbox_read i p s = Inr d' \<Longrightarrow> d' = d"
    using contents_file(1)[of q fs p d] inv
    by (auto simp: s outbox_read_def split: if_splits option.splits)
  show "outbox_remove i p s = (r, s') \<Longrightarrow> outbox_inv s'"
    "outbox_remove i p s = (r, s') \<Longrightarrow> queue_contents s' =
      (if r = None then without p (queue_contents s) else queue_contents s)"
    using inv outbox_remove_inv contents_remove unfolding s by blast+
  show "outbox_dead_letter i j p reason s = (r, s') \<Longrightarrow> outbox_inv s'"
    "outbox_dead_letter i j p reason s = (r, s') \<Longrightarrow> queue_contents s' =
      (if r = None then without p (queue_contents s) else queue_contents s)"
    using inv outbox_dead_letter_inv contents_dead_letter unfolding s by blast+
  show "outbox_buried d s'" if c: "(p, d) \<in> set (queue_contents s)"
    and dead: "outbox_dead_letter i j p reason s = (None, s')"
  proof -
    obtain q' fs' where s': "s' = (q', fs')" by fastforce
    obtain k f where k: "index_of q p = Some k" and f: "fmlookup fs p = Some f" "f_data f = d"
      using contents_file[of q fs p d] inv c by (auto simp: s)
    note moved = dead_letter_moves[OF inv[unfolded s] k dead[unfolded s s']]
    show ?thesis
      using moved(2,3) f
      by (force simp: s' outbox_buried_def list_ex_iff store_simps file_text_def intro: fmdomI)
  qed
qed

subsection \<open>The queue is a batch store\<close>

definition outbox_holds :: "batch \<Rightarrow> outbox_state \<Rightarrow> bool" where
  "outbox_holds b s \<longleftrightarrow> (case fmlookup (snd s) (batch_path (fst s) b) of
      None \<Rightarrow> False | Some f \<Rightarrow> f_data f = batch_text b @ [CHR 0x0A])"

lemma outbox_put_stored:
  assumes put: "outbox_put i b (q, fs) = (r, s')" and r: "r = None \<or> r = Some AlreadyStored"
  shows "outbox_holds b s'"
  using put
proof (cases rule: outbox_put_cases)
  case (refused e)
  then show ?thesis using r by (auto simp: outbox_holds_def)
next
  case (failed data e fs')
  then have "e = StoreIO" by (auto simp: atomic_write_def Let_def split: if_splits)
  then show ?thesis using failed(4) r by auto
next
  case (queued data fs' item)
  then show ?thesis
    using atomic_write_ok[OF queued(3)] marshal_batch_text[OF queued(1)]
    by (simp add: outbox_holds_def batch_path_def)
qed

lemma outbox_put_keeps:
  assumes put: "outbox_put i b (q, fs) = (r, (q', fs'))"
  shows "o_root q' = o_root q" "fmlookup fs p = Some f \<Longrightarrow> fmlookup fs' p = Some f"
proof -
  show "o_root q' = o_root q" using put by (cases rule: outbox_put_cases) auto
  assume f: "fmlookup fs p = Some f"
  show "fmlookup fs' p = Some f"
    using put
  proof (cases rule: outbox_put_cases)
    case (failed data e fs2)
    then show ?thesis using atomic_write_keeps[OF failed(3) f] f by (auto dest: fmdomI)
  next
    case (queued data fs2 item)
    then show ?thesis using atomic_write_keeps[OF queued(3) f] f by (auto dest: fmdomI)
  qed (use f in auto)
qed

interpretation outbox: batch_store outbox_put outbox_holds
proof
  fix i b s s' r b0
  show "outbox_put i b s = (None, s') \<Longrightarrow> outbox_holds b s'"
    "outbox_put i b s = (Some AlreadyStored, s') \<Longrightarrow> outbox_holds b s'"
    by (cases s, rule outbox_put_stored, auto)+
  assume "outbox_put i b s = (r, s')" "outbox_holds b0 s"
  then show "outbox_holds b0 s'"
    using outbox_put_keeps[of i b "fst s" "snd s" r "fst s'" "snd s'"]
    by (auto simp: outbox_holds_def batch_path_def split: option.splits)
qed

subsection \<open>A concrete queue\<close>

definition empty_outbox :: outbox where
  "empty_outbox = \<lparr>o_root = [''data'', ''outbox''], o_dead = [''data'', ''dead-letter''],
     o_server = ''srv'', o_max_bytes = 1000, o_max_batches = 2, o_items = [], o_known = {},
     o_bytes = 0, o_dead_letters = 0, o_wake = False\<rparr>"

definition sample_queue :: outbox_state where
  "sample_queue = snd (outbox_put (calm ''t'' 5) (sample_batch 7) (empty_outbox, fmempty))"

lemma open_empty: "open_outbox (calm t n) [''data''] ''srv'' 1000 2 fmempty = Inr empty_outbox"
  by (simp add: open_outbox_def fails_def calm_def scan_fields scanned_files_def json_files_def
      walk_def sorted_list_of_fset.rep_eq count_dead_letters_def empty_outbox_def i64_def)

lemma sample_text_length: "length (batch_text (sample_batch 7)) < 999"
  by code_simp

lemma outbox_put_calm:
  assumes "marshal_batch b = Some data" "batch_path q b |\<notin>| fmdom fs" "ba_server b = o_server q"
    and "temp_path (butlast (batch_path q b)) i |\<notin>| fmdom fs" "io_fault i = None"
    and "int (length (o_items q)) < o_max_batches q"
    and "i64 (o_bytes q + int (length (data @ [CHR 0x0A]))) \<le> o_max_bytes q"
  shows "outbox_put i b (q, fs) = (None,
    (q\<lparr>o_items := o_items q @ [\<lparr>q_path = batch_path q b, q_size = int (length (data @ [CHR 0x0A])),
         q_time = io_now i\<rparr>], o_known := insert (batch_path q b) (o_known q),
       o_bytes := i64 (o_bytes q + int (length (data @ [CHR 0x0A]))), o_wake := True\<rparr>,
     fmupd (batch_path q b) \<lparr>f_data = data @ [CHR 0x0A], f_time = io_now i\<rparr> fs))"
  using assms fmdom_notD[OF assms(2)]
  by (simp add: outbox_put_def atomic_write_def Let_def fails_def)

abbreviation sample_data :: string where
  "sample_data \<equiv> batch_text (sample_batch 7) @ [CHR 0x0A]"

lemma sample_put: "outbox_put (calm ''t'' 5) (sample_batch 7) (empty_outbox, fmempty) =
  (None, sample_queue)"
  and sample_queue_fs: "fmlookup (snd sample_queue) (batch_path empty_outbox (sample_batch 7)) =
    Some \<lparr>f_data = sample_data, f_time = 5\<rparr>"
  and sample_queue_dom: "fmdom (snd sample_queue) = {|batch_path empty_outbox (sample_batch 7)|}"
  and sample_queue_frame: "o_root (fst sample_queue) = [''data'', ''outbox'']"
    "o_dead (fst sample_queue) = [''data'', ''dead-letter'']"
  using outbox_put_calm[OF marshal_sample[of 7], of empty_outbox fmempty "calm ''t'' 5"]
    sample_text_length
  by (simp_all add: sample_queue_def empty_outbox_def calm_def i64_id in_i64_def)

lemma sample_queue_reachable: "outbox_reachable sample_queue"
  by (rule reach_step[OF reach_open step_put]) (rule open_empty[of "[]" 0], rule sample_put)

lemma sample_queue_contents:
  "queue_contents sample_queue = [(batch_path empty_outbox (sample_batch 7), sample_data)]"
  using contents_put[OF open_outbox_fields(7)[OF open_empty[of "[]" 0]] sample_put]
  by (simp add: queue_contents_def empty_outbox_def)

subsection \<open>Properties\<close>

text \<open>
  Claim C3 [outbox_index_sound]: in every reachable state of the queue, through any sequence of
  puts, removals, dead-letterings and restarts with any of their faults, the in-memory index agrees
  with itself and with the disk: the known paths are those of the list, no path is listed twice, the
  byte count is the (wrapped) sum of the sizes, and every entry is a \<open>.json\<close> file below the outbox
  directory that is on disk with the recorded size.
\<close>

theorem outbox_index_sound:
  assumes "outbox_reachable (q, fs)"
  shows "distinct (map q_path (o_items q)) \<and> o_known q = set (map q_path (o_items q)) \<and>
    st_bytes (outbox_stats q) = i64 (sum_list (map q_size (o_items q))) \<and>
    (\<forall>x \<in> set (o_items q). is_below (o_root q) (q_path x) \<and> path_ext (q_path x) = ''.json'' \<and>
       (\<exists>f. fmlookup fs (q_path x) = Some f \<and> q_size x = int (length (f_data f))))"
  using outbox_reachable_inv[OF assms]
  by (auto simp: outbox_inv_def outbox_stats_def list_all_iff tracked_def split: option.splits)

theorem outbox_index_sound_witness:
  "o_known (fst sample_queue) = set (map q_path (o_items (fst sample_queue)))"
  using outbox_index_sound[of "fst sample_queue" "snd sample_queue"] sample_queue_reachable by simp

text \<open>
  Claim C4 [outbox_put_fifo]: \<open>Put\<close> refines the enqueue of an abstract FIFO queue under every fault.
  When it reports success, the batch's JSON line is appended behind everything queued before and
  the queue is within both configured limits; when it reports any error, the contents are unchanged.
\<close>

theorem outbox_put_fifo:
  assumes "outbox_reachable (q, fs)" "outbox_put i b (q, fs) = (r, (q', fs'))"
  shows "queue_contents (q', fs') = queue_contents (q, fs) @
      (if r = None then [(batch_path q b, batch_text b @ [CHR 0x0A])] else []) \<and>
    (r = None \<longrightarrow> int (length (queue_contents (q', fs'))) \<le> o_max_batches q' \<and>
      o_bytes q' \<le> o_max_bytes q')"
  using assms(2) contents_put[OF outbox_reachable_inv[OF assms(1)] assms(2)]
  by (cases rule: outbox_put_cases) (auto simp: queue_contents_def)

theorem outbox_put_fifo_witness:
  "queue_contents sample_queue = [(batch_path empty_outbox (sample_batch 7), sample_data)] \<and>
   o_bytes (fst sample_queue) \<le> o_max_bytes (fst sample_queue)"
proof -
  have "outbox_reachable (empty_outbox, fmempty)" by (rule reach_open[OF open_empty[of "[]" 0]])
  from outbox_put_fifo[OF this, of "calm ''t'' 5" "sample_batch 7" None "fst sample_queue"
      "snd sample_queue"] sample_put
  show ?thesis by (simp add: queue_contents_def empty_outbox_def)
qed

text \<open>
  Claim C9 [outbox_restart_recovers]: a restart on the same data directory finds exactly the files
  the queue had durably accepted: every queued batch is queued again with the same bytes, the new
  queue lists every \<open>.json\<close> file below the outbox once, and it is ordered by modification time and
  then by path.
\<close>

theorem outbox_restart_recovers:
  assumes "outbox_reachable (q, fs)" "o_root q = d @ [''outbox'']"
    and "open_outbox i d sid mb mn fs = Inr q'"
  shows "set (queue_contents (q, fs)) \<subseteq> set (queue_contents (q', fs)) \<and>
    distinct (map fst (queue_contents (q', fs))) \<and>
    fst ` set (queue_contents (q', fs)) =
      {p. p |\<in>| fmdom fs \<and> is_below (d @ [''outbox'']) p \<and> path_ext p = ''.json''} \<and>
    sorted_wrt (\<lambda>x y. \<not> file_before y x) (o_items q')"
proof -
  note opened = open_outbox_fields[OF assms(3)]
  have items: "q_path ` set (o_items q') =
      {p. p |\<in>| fmdom fs \<and> is_below (d @ [''outbox'']) p \<and> path_ext p = ''.json''}"
    by (auto simp: opened(6,1) scanned_files_def set_json_files image_iff)
  have "q_path x \<in> q_path ` set (o_items q')" if "x \<in> set (o_items q)" for x
    using outbox_reachable_inv[OF assms(1)] that assms(2) unfolding items
    by (auto simp: outbox_inv_def list_all_iff tracked_def split: option.splits intro: fmdomI)
  then have "set (queue_contents (q, fs)) \<subseteq> set (queue_contents (q', fs))"
    by (simp add: queue_contents_def image_iff subset_iff) metis
  moreover have "sorted_wrt (\<lambda>x y. \<not> file_before y x) (o_items q')"
    by (simp add: opened(6) scanned_files_def file_order.sorted_sort_by)
  moreover have "fst ` set (queue_contents (q', fs)) = q_path ` set (o_items q')"
    by (simp add: queue_contents_def image_image)
  ultimately show ?thesis
    using queue.contents_distinct[OF opened(7)] items by simp
qed

theorem outbox_restart_recovers_witness:
  "case open_outbox (calm ''v'' 9) [''data''] ''srv'' 1000 2 (snd sample_queue) of
     Inr q' \<Rightarrow> (batch_path empty_outbox (sample_batch 7), sample_data) \<in>
       set (queue_contents (q', snd sample_queue))
   | Inl _ \<Rightarrow> False"
proof -
  have "\<exists>q'. open_outbox (calm ''v'' 9) [''data''] ''srv'' 1000 2 (snd sample_queue) = Inr q'"
    by (simp add: open_outbox_def fails_def calm_def)
  then obtain q' where q': "open_outbox (calm ''v'' 9) [''data''] ''srv'' 1000 2 (snd sample_queue) = Inr q'"
    by blast
  from outbox_restart_recovers[of "fst sample_queue" "snd sample_queue" "[''data'']", OF _ _ q']
  show ?thesis
    using sample_queue_reachable sample_queue_frame(1) sample_queue_contents q' by simp
qed

text \<open>
  Claim C10 [outbox_dead_letter_preserves]: dead-lettering a queued batch takes exactly that batch
  out of the queue and keeps its bytes: the file is found unchanged at the destination below the
  dead-letter directory, no other file is touched except the batch's own reason file, and the
  dead-letter counter goes up by one. (The hypothesis on the destination can fail only when two
  dead-lettered copies of one path carry the same nanosecond.)
\<close>

theorem outbox_dead_letter_preserves:
  assumes "outbox_reachable (q, fs)" "(p, data) \<in> set (queue_contents (q, fs))"
    and "dead_destination i p (q, fs) |\<notin>| fmdom fs"
    and "outbox_dead_letter i j p reason (q, fs) = (None, (q', fs'))"
  shows "queue_contents (q', fs') = without p (queue_contents (q, fs)) \<and>
    is_below (o_dead q') (dead_destination i p (q, fs)) \<and>
    map_option f_data (fmlookup fs' (dead_destination i p (q, fs))) = Some data \<and>
    (\<forall>p'. p' |\<in>| fmdom fs \<longrightarrow> p' \<noteq> p \<longrightarrow>
       p' \<noteq> add_suffix (dead_destination i p (q, fs)) ''.reason.json'' \<longrightarrow>
       fmlookup fs' p' = fmlookup fs p') \<and>
    o_dead_letters q' = o_dead_letters q + 1"
proof -
  note inv = outbox_reachable_inv[OF assms(1)]
  obtain k f where k: "index_of q p = Some k" and f: "fmlookup fs p = Some f" "f_data f = data"
    using contents_file[OF inv assms(2)] by blast
  have "o_dead_letters q' = o_dead_letters q + 1"
    using assms(4) k by (cases rule: outbox_dead_letter_cases) auto
  then show ?thesis using dead_letter_moves[OF inv k assms(4)] f assms(3) by auto
qed

lemma outbox_dead_letter_calm:
  "index_of q p = Some k \<Longrightarrow> fmlookup fs p = Some f \<Longrightarrow> io_fault i = None \<Longrightarrow>
    fst (outbox_dead_letter i j p reason (q, fs)) = None"
  by (simp add: outbox_dead_letter_def fails_def Let_def)

lemma sample_index: "index_of (fst sample_queue) (batch_path empty_outbox (sample_batch 7)) = Some 0"
proof -
  obtain q fs where s: "sample_queue = (q, fs)" by fastforce
  then have "outbox_inv (q, fs)" using outbox_reachable_inv[OF sample_queue_reachable] by simp
  then show ?thesis
    using sample_queue_contents by (auto simp: s queue_contents_def index_of_def outbox_inv_def)
qed

theorem outbox_dead_letter_preserves_witness:
  "let p = batch_path empty_outbox (sample_batch 7); dest = dead_destination (calm [] 1) p sample_queue in
   map_option f_data (fmlookup (snd (snd (outbox_dead_letter (calm [] 1) (calm ''w'' 2) p ''bad'' sample_queue)))
     dest) = Some sample_data"
proof -
  let ?p = "batch_path empty_outbox (sample_batch 7)"
  obtain q fs where s: "sample_queue = (q, fs)" by fastforce
  obtain r s' where dead: "outbox_dead_letter (calm [] 1) (calm ''w'' 2) ?p ''bad'' sample_queue = (r, s')"
    by (metis surj_pair)
  then have r: "r = None"
    using outbox_dead_letter_calm[of q ?p 0 fs "\<lparr>f_data = sample_data, f_time = 5\<rparr>"
        "calm [] 1" "calm ''w'' 2" "''bad''"] sample_index sample_queue_fs
    by (simp add: s calm_def)
  have "dead_destination (calm [] 1) ?p sample_queue |\<notin>| fmdom (snd sample_queue)"
    using sample_queue_dom sample_queue_frame
    by (auto simp: s dead_destination_def batch_path_def empty_outbox_def)
  then show ?thesis
    using outbox_dead_letter_preserves[of "fst sample_queue" "snd sample_queue" ?p sample_data
        "calm [] 1" "calm ''w'' 2" "''bad''" "fst s'" "snd s'"]
      sample_queue_reachable sample_queue_contents dead r by (simp add: Let_def)
qed

text \<open>
  Claim C22 [outbox_orphan]: when the batch file has been renamed into place but the directory cannot
  be synced, \<open>Put\<close> reports an error and leaves the file on disk without an index entry. The
  retry then reports the batch as already stored, although it is in neither the list that the
  uploader reads nor the counts: it waits until the agent is restarted.
\<close>

theorem outbox_orphan:
  assumes "outbox_reachable (q, fs)" "marshal_batch b = Some data" "ba_server b = o_server q"
    and "batch_path q b |\<notin>| fmdom fs" "temp_path (butlast (batch_path q b)) i |\<notin>| fmdom fs"
    and "int (length (o_items q)) < o_max_batches q"
    and "i64 (o_bytes q + int (length (data @ [CHR 0x0A]))) \<le> o_max_bytes q"
    and "io_fault i = Some SyncDir" "\<not> io_windows i" "io_fault j = None"
  shows "\<exists>fs'. outbox_put i b (q, fs) = (Some StoreIO, (q, fs')) \<and>
    outbox_put j b (q, fs') = (Some AlreadyStored, (q, fs')) \<and>
    batch_path q b |\<in>| fmdom fs' \<and> batch_path q b \<notin> fst ` set (queue_contents (q, fs'))"
proof -
  let ?fs' = "fmupd (batch_path q b) \<lparr>f_data = data @ [CHR 0x0A], f_time = io_now i\<rparr> fs"
  have "x \<in> set (o_items q) \<Longrightarrow> q_path x |\<in>| fmdom fs" for x
    using outbox_reachable_inv[OF assms(1)]
    by (auto simp: outbox_inv_def list_all_iff tracked_def split: option.splits intro: fmdomI)
  then have "batch_path q b \<notin> fst ` set (queue_contents (q, ?fs'))"
    using assms(4) by (auto simp: queue_contents_def)
  then show ?thesis
    using assms fmdom_notD[OF assms(4)]
    by (intro exI[of _ ?fs']) (simp add: outbox_put_def atomic_write_def Let_def fails_def)
qed

theorem outbox_orphan_witness:
  "\<exists>fs'. outbox_put ((calm ''t'' 5)\<lparr>io_fault := Some SyncDir\<rparr>) (sample_batch 7) (empty_outbox, fmempty) =
      (Some StoreIO, (empty_outbox, fs')) \<and>
    outbox_put (calm ''u'' 6) (sample_batch 7) (empty_outbox, fs') =
      (Some AlreadyStored, (empty_outbox, fs')) \<and>
    batch_path empty_outbox (sample_batch 7) |\<in>| fmdom fs' \<and>
    batch_path empty_outbox (sample_batch 7) \<notin> fst ` set (queue_contents (empty_outbox, fs'))"
  by (rule outbox_orphan[OF reach_open[OF open_empty[of "[]" 0]] marshal_sample])
    (use sample_text_length in \<open>simp_all add: empty_outbox_def calm_def i64_id in_i64_def\<close>)

end
