(* ===== verification/Config.thy ===== *)
theory Config
  imports GoStrings
begin

section \<open>Agent configuration (\<open>internal/agent/config.go\<close>)\<close>

text \<open>
  The configuration record, its defaults, the durations read from it (seconds converted to
  nanoseconds in \<open>int64\<close>) and the upstream endpoint. Reading the file, its environment overrides and
  the URL and address checks of \<open>Validate\<close> are not modelled.
\<close>

record agent_config =
  c_listen :: string
  c_server :: string
  c_local_token :: string
  c_upstream :: string
  c_bearer :: string
  c_data_dir :: string
  c_spool_dir :: string
  c_max_bytes :: int
  c_max_batches :: int
  c_interval :: int
  c_timeout :: int
  c_min_retry :: int
  c_max_retry :: int

definition default_config :: agent_config where
  "default_config = \<lparr>c_listen = ''127.0.0.1:8080'', c_server = [], c_local_token = [],
     c_upstream = [], c_bearer = [], c_data_dir = ''./data'', c_spool_dir = [],
     c_max_bytes = 5 * 1024 * 1024 * 1024, c_max_batches = 250000, c_interval = 1, c_timeout = 15,
     c_min_retry = 1, c_max_retry = 300\<rparr>"

definition seconds :: "int \<Rightarrow> int" where
  "seconds n = i64 (n * 1000000000)"

definition upload_interval :: "agent_config \<Rightarrow> int" where
  "upload_interval c = seconds (c_interval c)"

definition request_timeout :: "agent_config \<Rightarrow> int" where
  "request_timeout c = seconds (c_timeout c)"

definition minimum_retry :: "agent_config \<Rightarrow> int" where
  "minimum_retry c = seconds (c_min_retry c)"

definition maximum_retry :: "agent_config \<Rightarrow> int" where
  "maximum_retry c = seconds (c_max_retry c)"

definition upstream_endpoint :: "agent_config \<Rightarrow> string" where
  "upstream_endpoint c = (let base = trim_right_char CHR ''/'' (c_upstream c) in
    if has_suffix base ''/v1/telemetry/batches'' then base else base @ ''/v1/telemetry/batches'')"

lemma seconds_mono: "in_i64 (b * 1000000000) \<Longrightarrow> 0 \<le> a \<Longrightarrow> a \<le> b \<Longrightarrow> seconds a \<le> seconds b"
  by (simp add: seconds_def i64_id in_i64_def)

lemma seconds_exact: "in_i64 (a * 1000000000) \<Longrightarrow> seconds a = a * 1000000000"
  by (simp add: seconds_def i64_id)

end
