(* ===== verification/Uploader.thy ===== *)
theory Uploader
  imports Outbox Config
begin

section \<open>The uploader (\<open>internal/agent/uploader.go\<close>)\<close>

text \<open>
  One goroutine sends the front of the queue upstream and settles it by the response: removed on
  2xx, dead-lettered on a permanent rejection, kept and retried with a doubling delay otherwise.
  The HTTP exchange is input: a \<open>round\<close> holds the outcome of one request, of the file operations,
  the clock readings and the points at which the context is found cancelled. The lemmas are
  about the settling of one round, the retry delay, and whole runs; they use the queue through
  locale \<open>delivery_queue\<close> only.
\<close>

datatype upload_error =
  ReadFailed | RequestFailed | SendFailed | ResponseFailed | RemoveFailed | DeadLetterFailed
| Refused int string

text \<open>\<open>LastError\<close>: the text of the last failure, kept as what produced it; \<open>NoError\<close> is the empty text.\<close>

datatype upload_note = NoError | Failure upload_error | Rejected string

record upload_status =
  us_uploaded :: "64 word"
  us_failures :: "64 word"
  us_attempt :: "int option"
  us_success :: "int option"
  us_error :: upload_note

text \<open>What the HTTP client reports: \<open>NewRequest\<close>, \<open>Do\<close> or reading the body failed, or the status
  code and the body.\<close>

datatype exchange = NoRequest | NoResponse | BrokenBody int | Response int string

record round =
  r_exchange :: exchange
  r_read :: io
  r_settle :: io
  r_reason :: io
  r_started :: int
  r_ended :: int
  r_cancelled :: bool
  r_wait_cancelled :: bool
  r_woken :: bool

record uploader =
  u_queue :: outbox_state
  u_status :: upload_status

definition new_uploader :: "outbox_state \<Rightarrow> uploader" where
  "new_uploader s = \<lparr>u_queue = s, u_status = \<lparr>us_uploaded = 0, us_failures = 0, us_attempt = None,
     us_success = None, us_error = NoError\<rparr>\<rparr>"

definition maximum_response_bytes :: nat where
  "maximum_response_bytes = 4096"

definition record_success :: "int \<Rightarrow> upload_status \<Rightarrow> upload_status" where
  "record_success now st = st\<lparr>us_uploaded := us_uploaded st + 1, us_success := Some now,
     us_error := NoError\<rparr>"

definition record_failure :: "upload_error \<Rightarrow> upload_status \<Rightarrow> upload_status" where
  "record_failure e st = st\<lparr>us_failures := us_failures st + 1, us_error := Failure e\<rparr>"

definition record_permanent_failure :: "string \<Rightarrow> upload_status \<Rightarrow> upload_status" where
  "record_permanent_failure reason st =
    st\<lparr>us_failures := us_failures st + 1, us_error := Rejected reason\<rparr>"

definition permanent_rejection :: "int \<Rightarrow> bool" where
  "permanent_rejection status \<longleftrightarrow> status = 400 \<or> status = 409 \<or> status = 413 \<or> status = 422"

text \<open>The text of \<open>Refused code message\<close> is \<open>message\<close>, or \<open>http.StatusText(code)\<close> when it is empty.\<close>

definition rejection_reason :: "int \<Rightarrow> string \<Rightarrow> string" where
  "rejection_reason code message = ''upstream returned '' @ show_int code @
    (if message \<noteq> [] then '': '' @ message else [])"

definition upload_next :: "round \<Rightarrow> uploader \<Rightarrow> (upload_error + bool) \<times> uploader" where
  "upload_next r u = (case outbox_peek (fst (u_queue u)) of
      None \<Rightarrow> (Inr False, u)
    | Some (p, n) \<Rightarrow>
        (case outbox_read (r_read r) p (u_queue u) of
          Inl e \<Rightarrow> (Inl ReadFailed, u)
        | Inr payload \<Rightarrow>
            (let u = u\<lparr>u_status := (u_status u)\<lparr>us_attempt := Some (r_started r)\<rparr>\<rparr> in
             case r_exchange r of
               NoRequest \<Rightarrow> (Inl RequestFailed, u)
             | NoResponse \<Rightarrow> (Inl SendFailed, u)
             | BrokenBody code \<Rightarrow> (Inl ResponseFailed, u)
             | Response code body \<Rightarrow>
                 (let message = trim_space (take maximum_response_bytes body) in
                  if 200 \<le> code \<and> code < 300 then
                    (case outbox_remove (r_settle r) p (u_queue u) of
                       (Some e, q) \<Rightarrow> (Inl RemoveFailed, u\<lparr>u_queue := q\<rparr>)
                     | (None, q) \<Rightarrow>
                         (Inr True, u\<lparr>u_queue := q, u_status := record_success (r_ended r) (u_status u)\<rparr>))
                  else if permanent_rejection code then
                    (let reason = rejection_reason code message in
                     case outbox_dead_letter (r_settle r) (r_reason r) p reason (u_queue u) of
                       (Some e, q) \<Rightarrow> (Inl DeadLetterFailed, u\<lparr>u_queue := q\<rparr>)
                     | (None, q) \<Rightarrow>
                         (Inr True, u\<lparr>u_queue := q,
                            u_status := record_permanent_failure reason (u_status u)\<rparr>))
                  else (Inl (Refused code message), u)))))"

subsection \<open>The loop\<close>

datatype pause = NoPause | Backoff int | Idle int | Stopped

text \<open>The receive from the queue's wake channel, when it is what ends the idle wait.\<close>

definition take_wake :: "round \<Rightarrow> uploader \<Rightarrow> uploader" where
  "take_wake r u = (if r_woken r
    then u\<lparr>u_queue := ((fst (u_queue u))\<lparr>o_wake := False\<rparr>, snd (u_queue u))\<rparr> else u)"

text \<open>One iteration of \<open>Run\<close>: the new state, the retry delay it leaves, and what it does next.\<close>

definition run_once :: "agent_config \<Rightarrow> round \<Rightarrow> uploader \<Rightarrow> int \<Rightarrow> pause \<times> uploader \<times> int" where
  "run_once c r u delay = (case upload_next r u of
      (Inl e, u') \<Rightarrow>
        if r_cancelled r then (Stopped, u', delay)
        else (let u'' = u'\<lparr>u_status := record_failure e (u_status u')\<rparr> in
          if r_wait_cancelled r then (Stopped, u'', delay)
          else (let d = i64 (delay * 2) in
            (Backoff delay, u'', if d > maximum_retry c then maximum_retry c else d)))
    | (Inr processed, u') \<Rightarrow>
        if r_cancelled r then (Stopped, u', delay)
        else if processed then (NoPause, u', minimum_retry c)
        else if r_wait_cancelled r then (Stopped, u', minimum_retry c)
        else (Idle (upload_interval c), take_wake r u', minimum_retry c))"

text \<open>\<open>Run\<close> over the rounds the outside world offers: the pauses it takes, and the state it leaves
  when the rounds end or the context is cancelled.\<close>

fun run_loop :: "agent_config \<Rightarrow> round list \<Rightarrow> uploader \<Rightarrow> int \<Rightarrow> pause list \<times> uploader \<times> int" where
  "run_loop c [] u delay = ([], u, delay)"
| "run_loop c (r # rs) u delay = (case run_once c r u delay of
      (Stopped, u', d) \<Rightarrow> ([Stopped], u', d)
    | (p, u', d) \<Rightarrow> (case run_loop c rs u' d of (ps, res) \<Rightarrow> (p # ps, res)))"

definition run_uploader :: "agent_config \<Rightarrow> round list \<Rightarrow> uploader \<Rightarrow> pause list \<times> uploader \<times> int" where
  "run_uploader c rs u = run_loop c rs u (minimum_retry c)"

subsection \<open>One round\<close>

lemma upload_next_cases:
  assumes inv: "outbox_inv (u_queue u)" and up: "upload_next r u = (res, u')"
  obtains (idle) "res = Inr False" "u' = u" "queue_contents (u_queue u) = []"
  | (kept) e where "res = Inl e" "outbox_inv (u_queue u')"
      "queue_contents (u_queue u') = queue_contents (u_queue u)"
      "us_uploaded (u_status u') = us_uploaded (u_status u)"
  | (delivered) p d code body where "res = Inr True" "outbox_inv (u_queue u')"
      "queue_contents (u_queue u) = (p, d) # queue_contents (u_queue u')"
      "r_exchange r = Response code body" "200 \<le> code" "code < 300"
      "u_status u' = record_success (r_ended r)
         ((u_status u)\<lparr>us_attempt := Some (r_started r)\<rparr>)"
  | (dead) p d code body where "res = Inr True" "outbox_inv (u_queue u')"
      "queue_contents (u_queue u) = (p, d) # queue_contents (u_queue u')"
      "r_exchange r = Response code body" "permanent_rejection code"
      "outbox_buried d (u_queue u')" "us_uploaded (u_status u') = us_uploaded (u_status u)"
proof (cases "outbox_peek (fst (u_queue u))")
  case None
  then show ?thesis
    using up queue.peek_none[OF inv] idle by (simp add: upload_next_def)
next
  case (Some pn)
  then obtain p n where peek: "outbox_peek (fst (u_queue u)) = Some (p, n)" by (cases pn) auto
  show ?thesis
  proof (cases "outbox_read (r_read r) p (u_queue u)")
    case (Inl e)
    then show ?thesis using up peek inv by (intro kept) (auto simp: upload_next_def)
  next
    case (Inr d)
    obtain cs where cs: "queue_contents (u_queue u) = (p, d) # cs"
      using queue.get_front[OF inv peek Inr] by blast
    note step = upload_next_def Let_def peek Inr
    show ?thesis
    proof (cases "r_exchange r")
      case (Response code body)
      obtain r1 q1 where rem: "outbox_remove (r_settle r) p (u_queue u) = (r1, q1)"
        by (metis surj_pair)
      let ?reason = "rejection_reason code (trim_space (take maximum_response_bytes body))"
      obtain r2 q2 where dl: "outbox_dead_letter (r_settle r) (r_reason r) p ?reason (u_queue u) = (r2, q2)"
        by (metis surj_pair)
      consider (ok) "200 \<le> code \<and> code < 300" | (perm) "\<not> (200 \<le> code \<and> code < 300)" "permanent_rejection code"
        | (temp) "\<not> (200 \<le> code \<and> code < 300)" "\<not> permanent_rejection code" by blast
      then show ?thesis
      proof cases
        case ok
        show ?thesis
        proof (cases r1)
          case None
          then show ?thesis
            using up Response ok rem queue.remove_front[OF inv cs, of _ q1] queue.remove_inv[OF inv rem] cs
            by (intro delivered) (auto simp: step)
        next
          case (Some e)
          then show ?thesis
            using up Response ok rem queue.remove_contents[OF inv rem] queue.remove_inv[OF inv rem]
            by (intro kept) (auto simp: step)
        qed
      next
        case perm
        show ?thesis
        proof (cases r2)
          case None
          then show ?thesis
            using up Response perm dl queue.bury_front[OF inv cs, of _ _ _ q2] queue.bury_inv[OF inv dl] cs
            by (intro dead) (auto simp: step record_permanent_failure_def)
        next
          case (Some e)
          then show ?thesis
            using up Response perm dl queue.bury_contents[OF inv dl] queue.bury_inv[OF inv dl]
            by (intro kept) (auto simp: step)
        qed
      next
        case temp
        then show ?thesis using up Response inv by (intro kept) (auto simp: step)
      qed
    qed (use up inv in \<open>auto simp: step intro!: kept\<close>)
  qed
qed

lemma upload_next_inv: "outbox_inv (u_queue u) \<Longrightarrow> outbox_inv (u_queue (snd (upload_next r u)))"
  by (cases "upload_next r u") (auto elim: upload_next_cases)

subsection \<open>The retry delay\<close>

lemma run_once_delay:
  assumes "0 < delay" "delay \<le> maximum_retry c" "in_i64 (maximum_retry c * 2)"
    and "run_once c r u delay = (Backoff w, u', d)"
  shows "w = delay \<and> d = min (delay * 2) (maximum_retry c)"
proof -
  have "i64 (delay * 2) = delay * 2" using assms(1-3) by (simp add: i64_id in_i64_def)
  then show ?thesis
    using assms(4) by (auto simp: run_once_def Let_def split: prod.splits sum.splits if_splits)
qed

lemma min_mult_cap:
  assumes "0 < (m :: int)" "1 \<le> n"
  shows "min (min x m * n) m = min (x * n) m"
proof (cases "x \<le> m")
  case False
  then have "m * 1 \<le> m * n" "m * n \<le> x * n"
    using assms by (intro mult_left_mono mult_right_mono; simp)+
  with False show ?thesis by simp
qed simp

lemma run_loop_backoff:
  assumes "run_loop c rs u delay = (ps, res)" "list_all (\<lambda>p. \<exists>w. p = Backoff w) ps"
    and "0 < delay" "delay \<le> maximum_retry c" "in_i64 (maximum_retry c * 2)" "k < length ps"
  shows "ps ! k = Backoff (min (delay * 2 ^ k) (maximum_retry c))"
  using assms
proof (induction rs arbitrary: u delay ps res k)
  case Nil
  then show ?case by simp
next
  case (Cons r rs)
  obtain p u1 d1 where once: "run_once c r u delay = (p, u1, d1)" by (metis prod_cases3)
  show ?case
  proof (cases "p = Stopped")
    case True
    then show ?thesis using Cons.prems(1,2) once by auto
  next
    case False
    obtain ps1 res1 where rest: "run_loop c rs u1 d1 = (ps1, res1)" by (metis surj_pair)
    have ps: "ps = p # ps1"
      using False Cons.prems(1) once rest by (cases p) auto
    then obtain w where p: "p = Backoff w" using Cons.prems(2) by auto
    note d = run_once_delay[OF Cons.prems(3-5) once[unfolded p]]
    have IH: "k' < length ps1 \<Longrightarrow> ps1 ! k' = Backoff (min (d1 * 2 ^ k') (maximum_retry c))" for k'
      using Cons.IH[OF rest, of k'] Cons.prems(2-5) d ps p by auto
    show ?thesis
    proof (cases k)
      case 0
      then show ?thesis using ps p d Cons.prems(4) by simp
    next
      case (Suc k')
      have "min (d1 * 2 ^ k') (maximum_retry c) = min (delay * 2 ^ k) (maximum_retry c)"
        using d Suc Cons.prems(3,4) min_mult_cap[of "maximum_retry c" "2 ^ k'" "delay * 2"]
        by (simp add: mult.assoc)
      then show ?thesis using IH[of k'] ps Suc Cons.prems(6) by simp
    qed
  qed
qed

subsection \<open>Draining the queue\<close>

definition good_round :: "round \<Rightarrow> bool" where
  "good_round r \<longleftrightarrow> io_fault (r_read r) = None \<and> io_fault (r_settle r) = None \<and> \<not> r_cancelled r \<and>
    (case r_exchange r of Response code body \<Rightarrow> 200 \<le> code \<and> code < 300 | _ \<Rightarrow> False)"

lemma front_available:
  assumes inv: "outbox_inv s" and cs: "queue_contents s = (p, d) # cs" and "io_fault i = None"
  shows "\<exists>n. outbox_peek (fst s) = Some (p, n)" "outbox_read i p s = Inr d"
proof -
  obtain q fs where s: "s = (q, fs)" by fastforce
  obtain x xs where x: "o_items q = x # xs" "q_path x = p"
    using cs by (auto simp: s queue_contents_def)
  then show "\<exists>n. outbox_peek (fst s) = Some (p, n)" by (simp add: s outbox_peek_def)
  obtain f where "fmlookup fs p = Some f" "f_data f = d"
    using contents_file(1)[of q fs p d] inv cs by (auto simp: s)
  moreover have "p \<noteq> []"
    using inv x by (auto simp: s outbox_inv_def tracked_def is_below_def)
  ultimately show "outbox_read i p s = Inr d"
    using assms(3) by (simp add: s outbox_read_def fails_def)
qed

lemma upload_next_good:
  assumes inv: "outbox_inv (u_queue u)" and cs: "queue_contents (u_queue u) = (p, d) # cs"
    and good: "good_round r"
  shows "\<exists>u'. upload_next r u = (Inr True, u') \<and> outbox_inv (u_queue u') \<and>
    queue_contents (u_queue u') = cs \<and> us_uploaded (u_status u') = us_uploaded (u_status u) + 1"
proof -
  note front = front_available[OF inv cs]
  obtain n where peek: "outbox_peek (fst (u_queue u)) = Some (p, n)"
    using front(1)[of "r_read r"] good by (auto simp: good_round_def)
  obtain code body where x: "r_exchange r = Response code body" "200 \<le> code" "code < 300"
    using good by (auto simp: good_round_def split: exchange.splits)
  obtain r1 q1 where rem: "outbox_remove (r_settle r) p (u_queue u) = (r1, q1)"
    by (metis surj_pair)
  have "r1 = None"
    using rem good
    by (auto simp: outbox_remove_def good_round_def fails_def split: option.splits prod.splits)
  then show ?thesis
    using rem x peek front(2)[of "r_read r"] good queue.remove_front[OF inv cs, of _ q1]
      queue.remove_inv[OF inv rem]
    by (simp add: upload_next_def Let_def good_round_def record_success_def)
qed

lemma take_wake_frame [simp]:
  "queue_contents (u_queue (take_wake r u)) = queue_contents (u_queue u)"
  "outbox_inv (u_queue (take_wake r u)) = outbox_inv (u_queue u)"
  "u_status (take_wake r u) = u_status u"
  by (auto simp: take_wake_def queue_contents_def outbox_inv_def split: prod.split)

lemma run_loop_empty:
  "queue_contents (u_queue u) = [] \<Longrightarrow> outbox_inv (u_queue u) \<Longrightarrow> run_loop c rs u delay = (ps, u', d) \<Longrightarrow>
    queue_contents (u_queue u') = [] \<and> us_uploaded (u_status u') = us_uploaded (u_status u)"
proof (induction rs arbitrary: u delay ps)
  case Nil
  then show ?case by simp
next
  case (Cons r rs)
  have idle: "upload_next r u = (Inr False, u)"
    using Cons.prems(1) queue.peek_none[OF Cons.prems(2)] by (simp add: upload_next_def)
  show ?case
    using Cons.prems Cons.IH[of "take_wake r u" "minimum_retry c"]
    by (auto simp: run_once_def idle split: if_splits prod.splits)
qed

lemma run_loop_drains:
  assumes "outbox_inv (u_queue u)" "list_all good_round rs"
    and "length (queue_contents (u_queue u)) \<le> length rs"
    and "run_loop c rs u delay = (ps, u', d)"
  shows "queue_contents (u_queue u') = [] \<and>
    us_uploaded (u_status u') =
      us_uploaded (u_status u) + of_nat (length (queue_contents (u_queue u))) \<and>
    take (length (queue_contents (u_queue u))) ps =
      replicate (length (queue_contents (u_queue u))) NoPause"
  using assms
proof (induction rs arbitrary: u delay ps)
  case Nil
  then show ?case by simp
next
  case (Cons r rs)
  show ?case
  proof (cases "queue_contents (u_queue u)")
    case Nil
    then show ?thesis using run_loop_empty[OF Nil Cons.prems(1,4)] by simp
  next
    case (Cons pd cs)
    obtain p e where pd: "pd = (p, e)" by fastforce
    obtain u1 where u1: "upload_next r u = (Inr True, u1)" "outbox_inv (u_queue u1)"
      "queue_contents (u_queue u1) = cs" "us_uploaded (u_status u1) = us_uploaded (u_status u) + 1"
      using upload_next_good[of u p e cs r] Cons.prems(1,2) Cons pd by auto
    have "run_once c r u delay = (NoPause, u1, minimum_retry c)"
      using u1(1) Cons.prems(2) by (simp add: run_once_def good_round_def)
    then obtain ps1 where ps1: "run_loop c rs u1 (minimum_retry c) = (ps1, u', d)" "ps = NoPause # ps1"
      using Cons.prems(4) by (auto split: prod.splits)
    show ?thesis
      using Cons.IH[OF u1(2) _ _ ps1(1)] Cons.prems(2,3) Cons u1(3,4) ps1(2) by simp
  qed
qed

subsection \<open>Properties\<close>

text \<open>
  Claim C5 [upload_settles]: one round takes a batch out of the queue in exactly two cases. Either the
  upstream answered the front batch with a 2xx status, or it answered with a permanent rejection
  (400, 409, 413, 422) and the batch's bytes are in the dead-letter directory. In every other
  case (no connection, unreadable response, any other status, a failing file operation) the round
  reports an error and the queue is exactly as before; with an empty queue it does nothing.
\<close>

theorem upload_settles:
  assumes "outbox_reachable (u_queue u)" "upload_next r u = (res, u')"
  shows "case res of
      Inl e \<Rightarrow> queue_contents (u_queue u') = queue_contents (u_queue u)
    | Inr False \<Rightarrow> u' = u \<and> queue_contents (u_queue u) = []
    | Inr True \<Rightarrow> (\<exists>p data code body. r_exchange r = Response code body \<and>
        queue_contents (u_queue u) = (p, data) # queue_contents (u_queue u') \<and>
        (200 \<le> code \<and> code < 300 \<or> code \<in> {400, 409, 413, 422} \<and> outbox_buried data (u_queue u')))"
  using outbox_reachable_inv[OF assms(1)] assms(2)
  by (cases rule: upload_next_cases) (auto simp: permanent_rejection_def)

abbreviation sample_round :: "exchange \<Rightarrow> round" where
  "sample_round x \<equiv> \<lparr>r_exchange = x, r_read = calm [] 0, r_settle = calm [] 0, r_reason = calm ''w'' 0,
     r_started = 1, r_ended = 2, r_cancelled = False, r_wait_cancelled = False, r_woken = False\<rparr>"

lemma sample_front:
  "\<exists>n. outbox_peek (fst sample_queue) = Some (batch_path empty_outbox (sample_batch 7), n)"
  "outbox_read (calm [] 0) (batch_path empty_outbox (sample_batch 7)) sample_queue = Inr sample_data"
  using front_available[OF outbox_reachable_inv[OF sample_queue_reachable] sample_queue_contents,
      of "calm [] 0"]
  by (simp_all add: calm_def)

theorem upload_settles_witness:
  "case upload_next (sample_round (Response 503 ''busy'')) (new_uploader sample_queue) of (res, u') \<Rightarrow>
     res = Inl (Refused 503 ''busy'') \<and> queue_contents (u_queue u') = queue_contents sample_queue"
proof -
  obtain n where "outbox_peek (fst sample_queue) = Some (batch_path empty_outbox (sample_batch 7), n)"
    using sample_front(1) by blast
  then have "fst (upload_next (sample_round (Response 503 ''busy'')) (new_uploader sample_queue)) =
      Inl (Refused 503 ''busy'')"
    using sample_front(2)
    by (simp add: upload_next_def new_uploader_def permanent_rejection_def trim_space_plain
        plain_char_def maximum_response_bytes_def)
  then show ?thesis
    using upload_settles[of "new_uploader sample_queue" "sample_round (Response 503 ''busy'')"]
      sample_queue_reachable by (cases "upload_next (sample_round (Response 503 ''busy'')) (new_uploader sample_queue)")
        (auto simp: new_uploader_def)
qed

text \<open>
  Claim C16 [upload_backoff]: while every round fails, the pauses start at the minimum retry delay,
  double each time and never exceed the maximum (no wrap-around as long as twice the maximum fits
  an \<open>int64\<close> of nanoseconds, which is 146 years).
\<close>

theorem upload_backoff:
  assumes "run_uploader c rs u = (ps, res)" "list_all (\<lambda>p. \<exists>w. p = Backoff w) ps" "k < length ps"
    and "0 < c_min_retry c" "c_min_retry c \<le> c_max_retry c" "c_max_retry c < 4611686018"
  shows "ps ! k = Backoff (min (c_min_retry c * 1000000000 * 2 ^ k) (c_max_retry c * 1000000000))"
proof -
  have exact: "maximum_retry c = c_max_retry c * 1000000000" "minimum_retry c = c_min_retry c * 1000000000"
    using assms(4-6) by (auto simp: maximum_retry_def minimum_retry_def in_i64_def intro!: seconds_exact)
  show ?thesis
    using run_loop_backoff[OF assms(1)[unfolded run_uploader_def] assms(2) _ _ _ assms(3)] assms(4-6)
    by (simp add: exact in_i64_def)
qed

lemma sample_no_response:
  "run_once default_config (sample_round NoResponse) \<lparr>u_queue = sample_queue, u_status = st\<rparr> d =
    (Backoff d, \<lparr>u_queue = sample_queue,
       u_status = record_failure SendFailed (st\<lparr>us_attempt := Some 1\<rparr>)\<rparr>,
     if i64 (d * 2) > 300000000000 then 300000000000 else i64 (d * 2))"
proof -
  obtain n where "outbox_peek (fst sample_queue) = Some (batch_path empty_outbox (sample_batch 7), n)"
    using sample_front(1) by blast
  then show ?thesis
    using sample_front(2)
    by (simp add: run_once_def upload_next_def maximum_retry_def seconds_def default_config_def i64_def)
qed

theorem upload_backoff_witness:
  "fst (run_uploader default_config (replicate 3 (sample_round NoResponse)) (new_uploader sample_queue)) ! 2 =
   Backoff 4000000000"
proof -
  obtain ps res where run: "run_uploader default_config (replicate 3 (sample_round NoResponse))
      (new_uploader sample_queue) = (ps, res)" by (metis surj_pair)
  then have "list_all (\<lambda>p. \<exists>w. p = Backoff w) ps" "length ps = 3"
    by (auto simp: run_uploader_def new_uploader_def numeral_3_eq_3 sample_no_response split: prod.splits)
  from upload_backoff[OF run this(1), of 2] this(2) run show ?thesis
    by (simp add: default_config_def)
qed

text \<open>
  Claim C15 [upload_drains]: delivery is live. If the upstream accepts every batch and no file
  operation fails, then after as many rounds as there are queued batches the queue is empty, every
  batch was counted as uploaded, and the loop never paused in between.
\<close>

theorem upload_drains:
  assumes "outbox_reachable s" "list_all good_round rs" "length (queue_contents s) \<le> length rs"
  shows "case run_uploader c rs (new_uploader s) of (ps, u', d) \<Rightarrow>
    queue_contents (u_queue u') = [] \<and>
    us_uploaded (u_status u') = of_nat (length (queue_contents s)) \<and>
    take (length (queue_contents s)) ps = replicate (length (queue_contents s)) NoPause"
proof -
  obtain ps u' d where run: "run_loop c rs (new_uploader s) (minimum_retry c) = (ps, u', d)"
    by (metis prod_cases3)
  show ?thesis
    unfolding run_uploader_def run
    using run_loop_drains[OF _ assms(2) _ run] outbox_reachable_inv[OF assms(1)] assms(3)
    by (simp add: new_uploader_def)
qed

theorem upload_drains_witness:
  "case run_uploader default_config [sample_round (Response 202 [])] (new_uploader sample_queue) of
     (ps, u', d) \<Rightarrow> queue_contents (u_queue u') = [] \<and> us_uploaded (u_status u') = 1"
  using upload_drains[OF sample_queue_reachable, of "[sample_round (Response 202 [])]" default_config]
  by (simp add: good_round_def calm_def sample_queue_contents case_prod_beta)

end
