(* ===== verification/Ingest.thy ===== *)
theory Ingest
  imports Storage
begin

section \<open>The ingest server (\<open>internal/ingest/server.go\<close>)\<close>

text \<open>
  The HTTP boundary of the central server and of the agent: authentication, decoding, validation,
  the durable store and the counters. The handler is a function of the configuration, the store's
  \<open>Put\<close>, the request with its outside conditions, the counters and the store's state. It is
  generic in the store: its guarantees are proved in locale \<open>batch_store\<close> and hold for the raw
  store (central) and for the queue (agent). Routing and the transport belong to \<open>net/http\<close>.
\<close>

subsection \<open>Configuration and counters\<close>

record ingest_config =
  ic_bearer :: string
  ic_query :: string
  ic_max_request :: int
  ic_read_timeout :: int
  ic_write_timeout :: int
  ic_idle_timeout :: int
  ic_credentials :: "(string \<times> string) list"
  ic_expected :: string

definition default_max_request :: int where
  "default_max_request = 2 * 1024 * 1024"

definition local_query_config :: "string \<Rightarrow> string \<Rightarrow> int \<Rightarrow> ingest_config" where
  "local_query_config query expected max_request = \<lparr>ic_bearer = [], ic_query = query,
     ic_max_request = max_request, ic_read_timeout = 0, ic_write_timeout = 0, ic_idle_timeout = 0,
     ic_credentials = [], ic_expected = expected\<rparr>"

definition new_server_config :: "ingest_config \<Rightarrow> ingest_config" where
  "new_server_config c = (if ic_max_request c \<le> 0 then c\<lparr>ic_max_request := default_max_request\<rparr> else c)"

definition default_duration :: "int \<Rightarrow> int \<Rightarrow> int" where
  "default_duration v fallback = (if v \<le> 0 then fallback else v)"

text \<open>Read-header, read, write and idle timeouts of \<open>HTTPServer\<close>, in nanoseconds.\<close>

definition server_timeouts :: "ingest_config \<Rightarrow> int list" where
  "server_timeouts c = [5000000000, default_duration (ic_read_timeout c) 10000000000,
     default_duration (ic_write_timeout c) 10000000000, default_duration (ic_idle_timeout c) 60000000000]"

record counters =
  n_requests :: "64 word"
  n_accepted :: "64 word"
  n_duplicates :: "64 word"
  n_rejected :: "64 word"
  n_storage_failures :: "64 word"
  n_auth_failures :: "64 word"
  n_decode_failures :: "64 word"
  n_validation_failures :: "64 word"
  n_bytes :: "64 word"
  n_request_us :: "64 word"
  n_storage_us :: "64 word"
  n_spool_files :: "64 word"
  n_spool_batches :: "64 word"

definition zero_counters :: counters where
  "zero_counters = \<lparr>n_requests = 0, n_accepted = 0, n_duplicates = 0, n_rejected = 0,
     n_storage_failures = 0, n_auth_failures = 0, n_decode_failures = 0, n_validation_failures = 0,
     n_bytes = 0, n_request_us = 0, n_storage_us = 0, n_spool_files = 0, n_spool_batches = 0\<rparr>"

definition count_rejected :: "counters \<Rightarrow> counters" where
  "count_rejected n = n\<lparr>n_rejected := n_rejected n + 1\<rparr>"

definition count_auth_failure :: "counters \<Rightarrow> counters" where
  "count_auth_failure n = n\<lparr>n_auth_failures := n_auth_failures n + 1\<rparr>"

definition count_decode_failure :: "counters \<Rightarrow> counters" where
  "count_decode_failure n = n\<lparr>n_decode_failures := n_decode_failures n + 1\<rparr>"

definition count_validation_failure :: "counters \<Rightarrow> counters" where
  "count_validation_failure n = n\<lparr>n_validation_failures := n_validation_failures n + 1\<rparr>"

definition count_storage_failure :: "counters \<Rightarrow> counters" where
  "count_storage_failure n = n\<lparr>n_storage_failures := n_storage_failures n + 1\<rparr>"

text \<open>\<open>RecordSpoolImport\<close>\<close>

definition record_spool_import :: "int \<Rightarrow> int \<Rightarrow> counters \<Rightarrow> counters" where
  "record_spool_import files batches n =
    (let n1 = (if files > 0 then n\<lparr>n_spool_files := n_spool_files n + of_int files\<rparr> else n)
     in if batches > 0 then n1\<lparr>n_spool_batches := n_spool_batches n1 + of_int batches\<rparr> else n1)"

definition metric_line :: "string \<Rightarrow> 64 word \<Rightarrow> string" where
  "metric_line name v = name @ '' '' @ digits (uint v) @ [CHR 0x0A]"

definition handle_metrics :: "counters \<Rightarrow> string" where
  "handle_metrics n = concat [
     metric_line ''dba_ingest_requests_total'' (n_requests n),
     metric_line ''dba_ingest_accepted_total'' (n_accepted n),
     metric_line ''dba_ingest_duplicates_total'' (n_duplicates n),
     metric_line ''dba_ingest_rejected_total'' (n_rejected n),
     metric_line ''dba_ingest_storage_failures_total'' (n_storage_failures n),
     metric_line ''dba_ingest_auth_failures_total'' (n_auth_failures n),
     metric_line ''dba_ingest_decode_failures_total'' (n_decode_failures n),
     metric_line ''dba_ingest_validation_failures_total'' (n_validation_failures n),
     metric_line ''dba_ingest_bytes_received_total'' (n_bytes n),
     metric_line ''dba_ingest_request_duration_microseconds_total'' (n_request_us n),
     metric_line ''dba_ingest_storage_duration_microseconds_total'' (n_storage_us n),
     metric_line ''dba_spool_files_imported_total'' (n_spool_files n),
     metric_line ''dba_spool_batches_imported_total'' (n_spool_batches n)]"

subsection \<open>Authentication\<close>

definition bearer_credential :: "string \<Rightarrow> string" where
  "bearer_credential header =
    (if has_prefix header ''Bearer '' then trim_prefix header ''Bearer '' else [])"

text \<open>\<open>subtle.ConstantTimeCompare\<close>: the bitwise or of all differences, over every byte.\<close>

primrec differences :: "8 word \<Rightarrow> (char \<times> char) list \<Rightarrow> 8 word" where
  "differences acc [] = acc"
| "differences acc (xy # xys) =
    differences (or acc (xor (of_char (fst xy)) (of_char (snd xy)))) xys"

definition secure_equal :: "string \<Rightarrow> string \<Rightarrow> bool" where
  "secure_equal provided expected =
    (if length provided \<noteq> length expected then False
     else differences 0 (zip provided expected) = 0)"

text \<open>The bound server identity (empty if none) and whether the request is authorised.\<close>

definition authorised :: "ingest_config \<Rightarrow> string \<Rightarrow> string \<Rightarrow> string \<Rightarrow> string \<times> bool" where
  "authorised c header query claimed =
    (let provided = bearer_credential header in
     if claimed \<noteq> [] \<and> length (ic_credentials c) > 0 then
       (case map_of (ic_credentials c) claimed of
          None \<Rightarrow> ([], False)
        | Some expected \<Rightarrow>
            if provided = [] \<or> \<not> secure_equal provided expected then ([], False) else (claimed, True))
     else if ic_bearer c = [] \<and> ic_query c = [] then ([], length (ic_credentials c) = 0)
     else if ic_bearer c \<noteq> [] \<and> provided \<noteq> [] \<and> secure_equal provided (ic_bearer c) then ([], True)
     else ([], ic_query c \<noteq> [] \<and> secure_equal query (ic_query c)))"

subsection \<open>The batch handler\<close>

text \<open>
  A request: the three credentials, the whole body the client sends, whether the connection breaks
  after those bytes, and what the outside adds: how many bytes the decoder pulled, the measured
  microseconds, and the conditions of the store's \<open>Put\<close>.
\<close>

record 'env request =
  q_header :: string
  q_token :: string
  q_claimed :: string
  q_body :: string
  q_broken :: bool
  q_pulled :: "64 word"
  q_request_us :: "64 word"
  q_storage_us :: "64 word"
  q_env :: 'env

record response =
  p_status :: int
  p_code :: string
  p_sequence :: "64 word option"
  p_retry_after :: bool

datatype body_error = TooLarge | InvalidJson

definition write_error :: "int \<Rightarrow> string \<Rightarrow> response" where
  "write_error status code = \<lparr>p_status = status, p_code = code, p_sequence = None, p_retry_after = False\<rparr>"

text \<open>
  \<open>Decode\<close> and \<open>ensureEOF\<close> over a body cut by \<open>MaxBytesReader\<close>. A value that is still open when the
  reader stops reports the reader's error; a number, string or keyword is still open until the next
  byte, an object or array ends with its bracket.
\<close>

definition decode_body :: "int \<Rightarrow> string \<Rightarrow> bool \<Rightarrow> body_error + batch" where
  "decode_body limit body broken =
    (let truncated = int (length body) > limit;
         data = take (nat limit) body;
         failing = truncated \<or> broken;
         stopped = (if truncated then TooLarge else InvalidJson)
     in case json_value data of
       Malformed \<Rightarrow> Inl InvalidJson
     | Incomplete \<Rightarrow> Inl stopped
     | Parsed j r \<Rightarrow>
         if r = [] \<and> failing \<and> \<not> (case j of JObj _ \<Rightarrow> True | JArr _ \<Rightarrow> True | _ \<Rightarrow> False)
         then Inl stopped
         else (case decoder_decode data of
             None \<Rightarrow> Inl InvalidJson
           | Some (b, r) \<Rightarrow> if ensureEOF r \<and> \<not> failing then Inr b else Inl InvalidJson))"

text \<open>The response to the result of \<open>Put\<close>, and what it counts.\<close>

definition store_response ::
  "store_error option \<Rightarrow> batch \<Rightarrow> counters \<Rightarrow> response \<times> counters" where
  "store_response r b n = (case r of
      None \<Rightarrow>
        (\<lparr>p_status = 202, p_code = ''stored'', p_sequence = Some (ba_sequence b),
           p_retry_after = False\<rparr>, n\<lparr>n_accepted := n_accepted n + 1\<rparr>)
    | Some AlreadyStored \<Rightarrow>
        (\<lparr>p_status = 200, p_code = ''duplicate'', p_sequence = Some (ba_sequence b),
           p_retry_after = False\<rparr>, n\<lparr>n_duplicates := n_duplicates n + 1\<rparr>)
    | Some BatchConflict \<Rightarrow> (write_error 409 ''batch_conflict'', count_rejected n)
    | Some CapacityExceeded \<Rightarrow>
        ((write_error 503 ''storage_capacity_exceeded'')\<lparr>p_retry_after := True\<rparr>, count_storage_failure n)
    | Some _ \<Rightarrow> (write_error 500 ''storage_failed'', count_storage_failure n))"

definition handle_batch ::
  "ingest_config \<Rightarrow> ('env \<Rightarrow> batch \<Rightarrow> 's \<Rightarrow> store_error option \<times> 's) \<Rightarrow> 'env request \<Rightarrow>
    counters \<times> 's \<Rightarrow> response \<times> counters \<times> 's" where
  "handle_batch c put q st =
    (let n0 = (fst st)\<lparr>n_requests := n_requests (fst st) + 1\<rparr>;
         s = snd st;
         finish = (\<lambda>n. n\<lparr>n_request_us := n_request_us n + q_request_us q\<rparr>);
         pulled = (\<lambda>n. finish (n\<lparr>n_bytes := n_bytes n + q_pulled q\<rparr>))
     in case authorised c (q_header q) (q_token q) (q_claimed q) of (bound, ok) \<Rightarrow>
       if \<not> ok then
         (write_error 401 ''unauthorised'', finish (count_auth_failure (count_rejected n0)), s)
       else (case decode_body (ic_max_request c) (q_body q) (q_broken q) of
           Inl TooLarge \<Rightarrow> (write_error 413 ''request_too_large'',
             pulled (count_rejected (count_decode_failure n0)), s)
         | Inl InvalidJson \<Rightarrow> (write_error 400 ''invalid_json'',
             pulled (count_rejected (count_decode_failure n0)), s)
         | Inr b \<Rightarrow>
             (case batch_validate b of
                Some e \<Rightarrow> (write_error 422
                    (if e = UnsupportedVersion then ''unsupported_schema_version'' else ''invalid_batch''),
                  pulled (count_rejected (count_validation_failure n0)), s)
              | None \<Rightarrow>
                  if ic_expected c \<noteq> [] \<and> ba_server b \<noteq> ic_expected c then
                    (write_error 403 ''server_id_mismatch'', pulled (count_rejected n0), s)
                  else if bound \<noteq> [] \<and> ba_server b \<noteq> bound then
                    (write_error 403 ''server_id_mismatch'',
                     pulled (count_auth_failure (count_rejected n0)), s)
                  else (case put (q_env q) b s of (r, s') \<Rightarrow>
                    (let n1 = n0\<lparr>n_storage_us := n_storage_us n0 + q_storage_us q\<rparr>;
                         (p, n2) = store_response r b n1
                     in (p, pulled n2, s'))))))"

primrec serve :: "ingest_config \<Rightarrow> ('env \<Rightarrow> batch \<Rightarrow> 's \<Rightarrow> store_error option \<times> 's) \<Rightarrow>
    'env request list \<Rightarrow> counters \<times> 's \<Rightarrow> response list \<times> counters \<times> 's" where
  "serve c put [] st = ([], st)"
| "serve c put (q # qs) st = (case handle_batch c put q st of (p, st1) \<Rightarrow>
    (case serve c put qs st1 of (ps, st2) \<Rightarrow> (p # ps, st2)))"

subsection \<open>Credentials are compared exactly\<close>

lemma of_char_word_eq: "(of_char a :: 8 word) = of_char b \<longleftrightarrow> a = b"
proof
  assume "(of_char a :: 8 word) = of_char b"
  then have "(of_nat (of_char a) :: 8 word) = of_nat (of_char b)" by (simp only: of_nat_of_char)
  then have "unat (of_nat (of_char a) :: 8 word) = unat (of_nat (of_char b) :: 8 word)" by simp
  then have "(of_char a :: nat) mod 256 = of_char b mod 256" by (simp only: unat_of_nat) simp
  then show "a = b" by simp
qed simp

lemma word_xor_eq_0: "xor a b = (0 :: 'a :: len word) \<longleftrightarrow> a = b"
proof
  assume "xor a b = 0"
  then have "xor (xor a b) b = b" by simp
  then show "a = b" by (simp add: xor.assoc)
qed simp

lemma differences_0: "differences acc xys = 0 \<longleftrightarrow> acc = 0 \<and> (\<forall>(x, y) \<in> set xys. x = y)"
  by (induction xys arbitrary: acc) (auto simp: or_eq_0_iff word_xor_eq_0 of_char_word_eq)

lemma secure_equal_iff: "secure_equal a b \<longleftrightarrow> a = b"
proof -
  have "length a = length b \<Longrightarrow> (\<forall>(x, y) \<in> set (zip a b). x = y) \<longleftrightarrow> a = b"
    by (induction a b rule: list_induct2) auto
  then show ?thesis by (auto simp: secure_equal_def differences_0)
qed

lemma bearer_credential_append [simp]: "bearer_credential (''Bearer '' @ t) = t"
  by (simp only: bearer_credential_def has_prefix_append trim_prefix_append if_True)

subsection \<open>What a request can do\<close>

lemma store_response_counts:
  assumes "store_response r b n = (p, n')"
  shows "p_status p = (case r of None \<Rightarrow> 202 | Some AlreadyStored \<Rightarrow> 200 | Some BatchConflict \<Rightarrow> 409
      | Some CapacityExceeded \<Rightarrow> 503 | Some _ \<Rightarrow> 500)"
    "n_requests n' = n_requests n"
    "n_accepted n' = n_accepted n + (if r = None then 1 else 0)"
    "n_duplicates n' = n_duplicates n + (if r = Some AlreadyStored then 1 else 0)"
    "n_rejected n' = n_rejected n + (if r = Some BatchConflict then 1 else 0)"
    "n_storage_failures n' = n_storage_failures n +
       (if r \<in> {None, Some AlreadyStored, Some BatchConflict} then 0 else 1)"
  using assms
  by (auto simp: store_response_def write_error_def count_rejected_def count_storage_failure_def
      split: option.splits store_error.splits)

lemma handle_batch_cases:
  assumes "handle_batch c put q (n, s) = (p, n', s')"
  obtains (unauthorised) "p_status p = 401" "s' = s" "\<not> snd (authorised c (q_header q) (q_token q) (q_claimed q))"
      "n_requests n' = n_requests n + 1" "n_accepted n' = n_accepted n"
      "n_duplicates n' = n_duplicates n" "n_rejected n' = n_rejected n + 1"
      "n_storage_failures n' = n_storage_failures n"
  | (refused) "p_status p \<in> {400, 403, 413, 422}" "s' = s"
      "n_requests n' = n_requests n + 1" "n_accepted n' = n_accepted n"
      "n_duplicates n' = n_duplicates n" "n_rejected n' = n_rejected n + 1"
      "n_storage_failures n' = n_storage_failures n"
  | (stored) b bound r where
      "authorised c (q_header q) (q_token q) (q_claimed q) = (bound, True)"
      "decode_body (ic_max_request c) (q_body q) (q_broken q) = Inr b" "batch_validate b = None"
      "ic_expected c = [] \<or> ba_server b = ic_expected c" "bound = [] \<or> ba_server b = bound"
      "put (q_env q) b s = (r, s')"
      "p_status p = (case r of None \<Rightarrow> 202 | Some AlreadyStored \<Rightarrow> 200 | Some BatchConflict \<Rightarrow> 409
         | Some CapacityExceeded \<Rightarrow> 503 | Some _ \<Rightarrow> 500)"
      "n_requests n' = n_requests n + 1"
      "n_accepted n' = n_accepted n + (if r = None then 1 else 0)"
      "n_duplicates n' = n_duplicates n + (if r = Some AlreadyStored then 1 else 0)"
      "n_rejected n' = n_rejected n + (if r = Some BatchConflict then 1 else 0)"
      "n_storage_failures n' = n_storage_failures n +
         (if r \<in> {None, Some AlreadyStored, Some BatchConflict} then 0 else 1)"
proof -
  note counts = count_rejected_def count_auth_failure_def count_decode_failure_def
    count_validation_failure_def count_storage_failure_def write_error_def
  obtain bound ok where auth: "authorised c (q_header q) (q_token q) (q_claimed q) = (bound, ok)"
    by fastforce
  show ?thesis
  proof (cases ok)
    case False
    then show ?thesis
      using assms auth by (intro unauthorised) (auto simp: handle_batch_def Let_def counts)
  next
    case True
    note auth = auth[unfolded True[THEN Eq_TrueI]]
    show ?thesis
    proof (cases "decode_body (ic_max_request c) (q_body q) (q_broken q)")
      case (Inl e)
      then show ?thesis
        using assms auth
        by (intro refused) (cases e, auto simp: handle_batch_def Let_def counts)+
    next
      case (Inr b)
      show ?thesis
      proof (cases "batch_validate b = None \<and> (ic_expected c = [] \<or> ba_server b = ic_expected c) \<and>
          (bound = [] \<or> ba_server b = bound)")
        case False
        then show ?thesis
          using assms auth Inr
          by (intro refused) (auto simp: handle_batch_def Let_def counts split: option.splits if_splits)
      next
        case True
        obtain r s1 where put: "put (q_env q) b s = (r, s1)" by (metis surj_pair)
        obtain p2 n2 where answer: "store_response r b (n\<lparr>n_requests := n_requests n + 1,
            n_storage_us := n_storage_us n + q_storage_us q\<rparr>) = (p2, n2)" by (metis surj_pair)
        have "p = p2 \<and> s' = s1 \<and> n' = n2\<lparr>n_bytes := n_bytes n2 + q_pulled q,
            n_request_us := n_request_us n2 + q_request_us q\<rparr>"
          using assms auth Inr True put answer by (auto simp: handle_batch_def Let_def)
        then show ?thesis
          using put True store_response_counts[OF answer] by (intro stored[OF auth Inr]) auto
      qed
    qed
  qed
qed

lemma decode_body_whole:
  assumes "int (length body) \<le> limit"
  shows "decode_body limit body False =
    (case decode_line body of Some b \<Rightarrow> Inr b | None \<Rightarrow> Inl InvalidJson)"
proof -
  have "length body \<le> nat limit" using assms by linarith
  then show ?thesis
    using assms
    by (simp add: decode_body_def Let_def decode_line_def decoder_decode_def
        split: parsed.splits option.splits)
qed

lemma authorised_cases:
  assumes "authorised c header query claimed = (bound, True)"
  shows "if claimed \<noteq> [] \<and> ic_credentials c \<noteq> []
    then bound = claimed \<and> (\<exists>t. map_of (ic_credentials c) claimed = Some t \<and> t \<noteq> [] \<and>
      header = ''Bearer '' @ t)
    else bound = [] \<and> (ic_bearer c = [] \<and> ic_query c = [] \<and> ic_credentials c = [] \<or>
      ic_bearer c \<noteq> [] \<and> header = ''Bearer '' @ ic_bearer c \<or>
      ic_query c \<noteq> [] \<and> query = ic_query c)"
proof -
  have bearer: "header = ''Bearer '' @ t" if "bearer_credential header = t" "t \<noteq> []" for t
  proof -
    have "has_prefix header ''Bearer ''"
      using that by (simp add: bearer_credential_def split: if_splits)
    then obtain r where r: "header = ''Bearer '' @ r" by (rule has_prefixE)
    then have "bearer_credential header = r" by (simp only: bearer_credential_append)
    with that(1) r show ?thesis by simp
  qed
  show ?thesis
    using assms bearer
    by (auto simp: authorised_def Let_def secure_equal_iff split: if_splits option.splits)
qed

context batch_store
begin

text \<open>A server on top of any store that keeps the contract.\<close>

lemma handle_batch_keeps:
  assumes "handle_batch c put q (n, s) = (p, n', s')" "holds b0 s"
  shows "holds b0 s'"
  using assms(1) by (cases rule: handle_batch_cases) (use assms(2) put_keeps in blast)+

lemma handle_batch_ack:
  assumes "handle_batch c put q (n, s) = (p, n', s')" "p_status p = 200 \<or> p_status p = 202"
  shows "\<exists>b. decode_body (ic_max_request c) (q_body q) (q_broken q) = Inr b \<and>
    batch_validate b = None \<and> holds b s'"
  using assms(1)
proof (cases rule: handle_batch_cases)
  case (stored b bound r)
  then have "acknowledged r"
    using assms(2) by (auto simp: acknowledged_def split: option.splits store_error.splits)
  then show ?thesis using stored(2,3) put_acknowledged[OF stored(6)] by blast
qed (use assms(2) in auto)

lemma serve_keeps:
  "serve c put qs (n, s) = (ps, n', s') \<Longrightarrow> holds b0 s \<Longrightarrow> holds b0 s'"
proof (induction qs arbitrary: n s ps)
  case Nil
  then show ?case by simp
next
  case (Cons q qs)
  obtain p n1 s1 where one: "handle_batch c put q (n, s) = (p, n1, s1)" by (metis prod_cases3)
  then show ?case
    using Cons.prems handle_batch_keeps[OF one] Cons.IH[of n1 s1] by (auto split: prod.splits)
qed

lemma serve_ack:
  "serve c put qs (n, s) = (ps, n', s') \<Longrightarrow> k < length qs \<Longrightarrow>
    p_status (ps ! k) = 200 \<or> p_status (ps ! k) = 202 \<Longrightarrow>
    \<exists>b. decode_body (ic_max_request c) (q_body (qs ! k)) (q_broken (qs ! k)) = Inr b \<and>
      batch_validate b = None \<and> holds b s'"
proof (induction qs arbitrary: n s ps k)
  case Nil
  then show ?case by simp
next
  case (Cons q qs)
  obtain p n1 s1 where one: "handle_batch c put q (n, s) = (p, n1, s1)" by (metis prod_cases3)
  obtain ps1 where rest: "serve c put qs (n1, s1) = (ps1, n', s')" and ps: "ps = p # ps1"
    using Cons.prems(1) one by (auto split: prod.splits)
  show ?case
  proof (cases k)
    case 0
    then show ?thesis
      using handle_batch_ack[OF one] serve_keeps[OF rest] Cons.prems(3) ps by auto
  next
    case (Suc k')
    then show ?thesis using Cons.IH[OF rest, of k'] Cons.prems(2,3) ps by simp
  qed
qed

end

definition counted :: "counters \<Rightarrow> 64 word" where
  "counted n = n_accepted n + n_duplicates n + n_rejected n + n_storage_failures n"

lemma handle_batch_counted:
  assumes "handle_batch c put q (n, s) = (p, n', s')"
  shows "n_requests n' - counted n' = n_requests n - counted n"
  using assms
proof (cases rule: handle_batch_cases)
  case (stored b bound r)
  consider "r = None" | "r = Some AlreadyStored" | "r = Some BatchConflict"
    | "r \<notin> {None, Some AlreadyStored, Some BatchConflict}" by blast
  then show ?thesis by cases (simp_all add: counted_def stored(8-12))
qed (simp_all add: counted_def)

lemma serve_counted:
  "serve c put qs (n, s) = (ps, n', s') \<Longrightarrow> n_requests n' - counted n' = n_requests n - counted n"
proof (induction qs arbitrary: n s ps)
  case Nil
  then show ?case by simp
next
  case (Cons q qs)
  obtain p n1 s1 where one: "handle_batch c put q (n, s) = (p, n1, s1)" by (metis prod_cases3)
  then show ?case
    using Cons.prems handle_batch_counted[OF one] Cons.IH[of n1 s1] by (auto split: prod.splits)
qed

subsection \<open>Properties\<close>

text \<open>
  Claim C2 [ingest_ack_durable]: an acknowledged batch is durable. For any sequence of requests to the
  central server, under any storage faults, a response 202 (stored) or 200 (duplicate) means that
  the request body was one valid batch and that the raw store holds it, also after all later
  requests.
\<close>

theorem ingest_ack_durable:
  assumes "serve c (raw_put rdir) qs (n, fs) = (ps, n', fs')" "k < length qs"
    and "p_status (ps ! k) = 200 \<or> p_status (ps ! k) = 202"
  shows "\<exists>b. decode_body (ic_max_request c) (q_body (qs ! k)) (q_broken (qs ! k)) = Inr b \<and>
    batch_validate b = None \<and> raw_holds rdir b fs'"
  by (rule raw.serve_ack[OF assms])

abbreviation sample_request :: "io \<Rightarrow> io request" where
  "sample_request i \<equiv> \<lparr>q_header = ''Bearer key'', q_token = [], q_claimed = ''srv'',
     q_body = batch_text (sample_batch 7) @ [CHR 0x0A], q_broken = False, q_pulled = 1000,
     q_request_us = 5, q_storage_us = 3, q_env = i\<rparr>"

definition sample_server :: ingest_config where
  "sample_server = (local_query_config [] [] 2097152)\<lparr>ic_credentials := [(''srv'', ''key'')]\<rparr>"

lemma sample_authorised: "authorised sample_server ''Bearer key'' [] ''srv'' = (''srv'', True)"
  by code_simp

lemma sample_body: "decode_body (ic_max_request sample_server) (batch_text (sample_batch 7) @ [CHR 0x0A]) False =
  Inr (sample_batch 7)"
proof -
  have "length (batch_text (sample_batch 7)) < 2000" by code_simp
  then show ?thesis
    by (simp add: sample_server_def local_query_config_def decode_body_whole decode_line_sample)
qed

lemma sample_handle:
  assumes "put i (sample_batch 7) s = (None, s')"
  shows "p_status (fst (handle_batch sample_server put ((sample_request i')\<lparr>q_env := i\<rparr>) (n, s))) = 202"
    and "snd (snd (handle_batch sample_server put ((sample_request i')\<lparr>q_env := i\<rparr>) (n, s))) = s'"
  using assms sample_authorised sample_body validate_sample[of 7]
  by (simp_all add: handle_batch_def Let_def store_response_def sample_server_def local_query_config_def
      case_prod_beta)

theorem ingest_ack_durable_witness:
  "\<exists>b. decode_body (ic_max_request sample_server) (batch_text (sample_batch 7) @ [CHR 0x0A]) False = Inr b \<and>
    batch_validate b = None \<and>
    raw_holds [''raw''] b (snd (snd (serve sample_server (raw_put [''raw'']) [sample_request (calm ''t'' 5)]
      (zero_counters, fmempty))))"
proof -
  obtain ps n' fs' where run: "serve sample_server (raw_put [''raw'']) [sample_request (calm ''t'' 5)]
      (zero_counters, fmempty) = (ps, n', fs')" by (metis prod_cases3)
  have "p_status (ps ! 0) = 202"
    using run sample_handle(1)[of "raw_put [''raw'']" "calm ''t'' 5" fmempty _ "calm ''t'' 5" zero_counters]
      raw_put_calm[OF marshal_sample[of 7], of "[''raw'']" fmempty "calm ''t'' 5"]
    by (auto simp: calm_def split: prod.splits)
  from ingest_ack_durable[OF run, of 0] this run show ?thesis by simp
qed

text \<open>
  Claim C6 [ingest_gate]: a request reaches the store only through authentication, decoding, validation
  and the server-identity checks. Whatever the response, if it is not one of 400, 401, 403, 413,
  422, then: with per-server credentials and a claimed server, the header carries that server's
  own non-empty credential and the batch belongs to it; otherwise the shared bearer or query token
  matched exactly, or no credential of any kind is configured. A refused request leaves the store
  as it was.
\<close>

theorem ingest_gate:
  assumes "handle_batch c put q (n, s) = (p, n', s')"
  shows "if p_status p \<in> {400, 401, 403, 413, 422} then s' = s
    else \<exists>b r. decode_body (ic_max_request c) (q_body q) (q_broken q) = Inr b \<and>
      batch_validate b = None \<and> put (q_env q) b s = (r, s') \<and>
      (ic_expected c = [] \<or> ba_server b = ic_expected c) \<and>
      (if q_claimed q \<noteq> [] \<and> ic_credentials c \<noteq> []
       then ba_server b = q_claimed q \<and> (\<exists>t. map_of (ic_credentials c) (q_claimed q) = Some t \<and>
         t \<noteq> [] \<and> q_header q = ''Bearer '' @ t)
       else ic_bearer c = [] \<and> ic_query c = [] \<and> ic_credentials c = [] \<or>
         ic_bearer c \<noteq> [] \<and> q_header q = ''Bearer '' @ ic_bearer c \<or>
         ic_query c \<noteq> [] \<and> q_token q = ic_query c)"
  using assms
proof (cases rule: handle_batch_cases)
  case (stored b bound r)
  then have "p_status p \<notin> {400, 401, 403, 413, 422}"
    by (auto split: option.splits store_error.splits)
  moreover have "if q_claimed q \<noteq> [] \<and> ic_credentials c \<noteq> []
       then ba_server b = q_claimed q \<and> (\<exists>t. map_of (ic_credentials c) (q_claimed q) = Some t \<and>
         t \<noteq> [] \<and> q_header q = ''Bearer '' @ t)
       else ic_bearer c = [] \<and> ic_query c = [] \<and> ic_credentials c = [] \<or>
         ic_bearer c \<noteq> [] \<and> q_header q = ''Bearer '' @ ic_bearer c \<or>
         ic_query c \<noteq> [] \<and> q_token q = ic_query c"
    using authorised_cases[OF stored(1)] stored(5) by (auto split: if_splits)
  ultimately show ?thesis using stored(2-4,6) by auto
qed auto

theorem ingest_gate_witness:
  "case handle_batch sample_server (raw_put [''raw'']) ((sample_request (calm ''t'' 5))\<lparr>q_claimed := []\<rparr>)
     (zero_counters, fmempty) of (p, n', fs') \<Rightarrow> p_status p = 401 \<and> fs' = fmempty"
proof -
  obtain p n' fs' where run: "handle_batch sample_server (raw_put [''raw''])
      ((sample_request (calm ''t'' 5))\<lparr>q_claimed := []\<rparr>) (zero_counters, fmempty) = (p, n', fs')"
    by (metis prod_cases3)
  have "authorised sample_server ''Bearer key'' [] [] = ([], False)" by code_simp
  then have "p_status p = 401"
    using run by (auto simp: handle_batch_def Let_def write_error_def)
  with ingest_gate[OF run] run show ?thesis by simp
qed

text \<open>
  The counters account for every request. After any sequence of
  requests to a fresh server, whatever the store does, requests = accepted + duplicates + rejected
  + storage failures, as 64-bit counters (the equation holds modulo wrap-around).
\<close>

theorem ingest_counters_balance:
  "case serve c put qs (zero_counters, s) of (ps, n, s') \<Rightarrow>
    n_requests n = n_accepted n + n_duplicates n + n_rejected n + n_storage_failures n"
proof -
  obtain ps n s' where run: "serve c put qs (zero_counters, s) = (ps, n, s')" by (metis prod_cases3)
  from serve_counted[OF this] have "n_requests n = counted n"
    by (simp add: counted_def zero_counters_def)
  with run show ?thesis by (simp add: counted_def)
qed

end
