(* ===== verification/Spool.thy ===== *)
theory Spool
  imports Storage
begin

section \<open>The spool importer (\<open>internal/spool/import.go\<close>)\<close>

text \<open>
  \<open>ImportDir\<close> claims each settled NDJSON file of the spool directory by renaming it, imports every
  line into a batch store, and archives the file, or renames it back when a line cannot be imported.
  The state is the file system of the spool directory and the state of the store (which keeps its
  files elsewhere). Like the ingest server it is generic in the store and its guarantees are
  proved in locale \<open>batch_store\<close>.
\<close>

subsection \<open>One file\<close>

record spool_stats =
  sp_files :: int
  sp_batches :: int
  sp_duplicates :: int

definition no_stats :: spool_stats where
  "no_stats = \<lparr>sp_files = 0, sp_batches = 0, sp_duplicates = 0\<rparr>"

datatype import_error =
  Cancelled | OpenFailed | LineDecode nat | LineInvalid nat | LineStore nat | ReadFailed | NoBatches

text \<open>The pieces that successive calls of \<open>ReadBytes\<close> return: the last one comes with the end of file.\<close>

fun read_lines :: "string \<Rightarrow> string list" where
  "read_lines [] = [[]]"
| "read_lines (c # s) = (if c = CHR 0x0A then [c] # read_lines s
    else (case read_lines s of [] \<Rightarrow> [[c]] | l # ls \<Rightarrow> (c # l) # ls))"

text \<open>
  What the outside decides for one directory entry: whether the context is found cancelled before
  the entry or before its \<open>k\<close>-th read, which file operations fail, whether another importer took the
  file first (what it does with it is not modelled), whether and where reading breaks, the conditions of the \<open>Put\<close> for the \<open>k\<close>-th line, and the archive time stamp.
\<close>

record 'env entry_env =
  en_cancelled :: bool
  en_stat_fails :: bool
  en_gone :: bool
  en_claim_fails :: bool
  en_open_fails :: bool
  en_broken :: bool
  en_read_bytes :: nat
  en_line_cancelled :: "nat \<Rightarrow> bool"
  en_put :: "nat \<Rightarrow> 'env"
  en_restore_fails :: bool
  en_mkdir_fails :: bool
  en_archive_fails :: bool
  en_stamp :: string

definition blank_line :: "string \<Rightarrow> bool" where
  "blank_line l \<longleftrightarrow> trim_space l = []"

definition import_line ::
  "('env \<Rightarrow> batch \<Rightarrow> 's \<Rightarrow> store_error option \<times> 's) \<Rightarrow> 'env \<Rightarrow> nat \<Rightarrow> string \<Rightarrow> spool_stats \<Rightarrow> 's \<Rightarrow>
    import_error option \<times> spool_stats \<times> 's" where
  "import_line put i n line stats s = (case decode_line line of
      None \<Rightarrow> (Some (LineDecode n), stats, s)
    | Some b \<Rightarrow> (case batch_validate b of
        Some e \<Rightarrow> (Some (LineInvalid n), stats, s)
      | None \<Rightarrow> (case put i b s of (r, s') \<Rightarrow>
          (case r of
            None \<Rightarrow> (None, stats\<lparr>sp_batches := sp_batches stats + 1\<rparr>, s')
          | Some AlreadyStored \<Rightarrow> (None, stats\<lparr>sp_batches := sp_batches stats + 1,
              sp_duplicates := sp_duplicates stats + 1\<rparr>, s')
          | Some _ \<Rightarrow> (Some (LineStore n), stats, s')))))"

text \<open>\<open>k\<close> counts the reads, \<open>n\<close> the lines that are not blank.\<close>

fun import_lines ::
  "('env \<Rightarrow> batch \<Rightarrow> 's \<Rightarrow> store_error option \<times> 's) \<Rightarrow> 'env entry_env \<Rightarrow> nat \<Rightarrow> nat \<Rightarrow> string list \<Rightarrow>
    spool_stats \<Rightarrow> 's \<Rightarrow> import_error option \<times> spool_stats \<times> 's" where
  "import_lines put e k n [] stats s =
    ((if en_broken e then Some ReadFailed else if n = 0 then Some NoBatches else None), stats, s)"
| "import_lines put e k n (line # lines) stats s =
    (if en_line_cancelled e k then (Some Cancelled, stats, s)
     else if blank_line line then import_lines put e (Suc k) n lines stats s
     else (case import_line put (en_put e k) (Suc n) line stats s of
         (Some err, stats', s') \<Rightarrow> (Some err, stats', s')
       | (None, stats', s') \<Rightarrow> import_lines put e (Suc k) (Suc n) lines stats' s'))"

definition import_file ::
  "('env \<Rightarrow> batch \<Rightarrow> 's \<Rightarrow> store_error option \<times> 's) \<Rightarrow> 'env entry_env \<Rightarrow> string \<Rightarrow> 's \<Rightarrow>
    import_error option \<times> spool_stats \<times> 's" where
  "import_file put e data s =
    (if en_open_fails e then (Some OpenFailed, no_stats, s)
     else import_lines put e 0 0
       (read_lines (if en_broken e then take (en_read_bytes e) data else data)) no_stats s)"

subsection \<open>The directory\<close>

datatype dir_error =
    DirRequired | ReadDirFailed | ContextDone | StatFailed | ClaimFailed | ImportFailed import_error
  | RestoreFailed import_error | ArchiveDirFailed | ArchiveFailed

definition move_file :: "path \<Rightarrow> path \<Rightarrow> fs \<Rightarrow> fs" where
  "move_file p p' fs = (case fmlookup fs p of None \<Rightarrow> fs | Some f \<Rightarrow> fmupd p' f (fmdrop p fs))"

definition claimed_path :: "path \<Rightarrow> string \<Rightarrow> path" where
  "claimed_path dir name = dir @ [name @ ''.importing'']"

definition archive_path :: "path \<Rightarrow> string \<Rightarrow> string \<Rightarrow> path" where
  "archive_path dir name stamp = dir @ [''archive'', name @ ''.'' @ stamp @ ''.imported'']"

definition entry_ignored :: "int \<Rightarrow> int \<Rightarrow> path \<Rightarrow> string \<Rightarrow> fs \<Rightarrow> bool" where
  "entry_ignored now age dir name fs \<longleftrightarrow>
    (case fmlookup fs (dir @ [name]) of
      None \<Rightarrow> False | Some f \<Rightarrow> 0 < age \<and> now - f_time f < age)"

text \<open>One entry: \<open>None\<close> goes on with the next one.\<close>

definition import_entry ::
  "('env \<Rightarrow> batch \<Rightarrow> 's \<Rightarrow> store_error option \<times> 's) \<Rightarrow> 'env entry_env \<Rightarrow> int \<Rightarrow> int \<Rightarrow> path \<Rightarrow> string \<Rightarrow>
    spool_stats \<Rightarrow> fs \<times> 's \<Rightarrow> dir_error option \<times> spool_stats \<times> fs \<times> 's" where
  "import_entry put e now age dir name stats st =
    (let p = dir @ [name]; claimed = claimed_path dir name; fs = fst st; s = snd st
     in if en_cancelled e then (Some ContextDone, stats, st)
     else if \<not> equal_fold (path_ext p) ''.ndjson'' then (None, stats, st)
     else (case fmlookup fs p of
         None \<Rightarrow> (Some StatFailed, stats, st)
       | Some f \<Rightarrow>
           if en_stat_fails e then (Some StatFailed, stats, st)
           else if entry_ignored now age dir name fs \<or> en_gone e then (None, stats, st)
           else if en_claim_fails e then (Some ClaimFailed, stats, st)
           else
             (let fs1 = move_file p claimed fs in
              case import_file put e (f_data f) s of
                (Some err, file_stats, s') \<Rightarrow>
                  if en_restore_fails e then (Some (RestoreFailed err), stats, fs1, s')
                  else (Some (ImportFailed err), stats, move_file claimed p fs1, s')
              | (None, file_stats, s') \<Rightarrow>
                  if en_mkdir_fails e then
                    (Some ArchiveDirFailed, stats,
                     (if en_restore_fails e then fs1 else move_file claimed p fs1), s')
                  else if en_archive_fails e then
                    (Some ArchiveFailed, stats,
                     (if en_restore_fails e then fs1 else move_file claimed p fs1), s')
                  else
                    (None, stats\<lparr>sp_files := sp_files stats + 1,
                       sp_batches := sp_batches stats + sp_batches file_stats,
                       sp_duplicates := sp_duplicates stats + sp_duplicates file_stats\<rparr>,
                     move_file claimed (archive_path dir name (en_stamp e)) fs1, s'))))"

primrec import_entries ::
  "('env \<Rightarrow> batch \<Rightarrow> 's \<Rightarrow> store_error option \<times> 's) \<Rightarrow> (string \<Rightarrow> 'env entry_env) \<Rightarrow> int \<Rightarrow> int \<Rightarrow> path \<Rightarrow>
    string list \<Rightarrow> spool_stats \<Rightarrow> fs \<times> 's \<Rightarrow> dir_error option \<times> spool_stats \<times> fs \<times> 's" where
  "import_entries put envs now age dir [] stats st = (None, stats, st)"
| "import_entries put envs now age dir (name # names) stats st =
    (case import_entry put (envs name) now age dir name stats st of
       (Some err, res) \<Rightarrow> (Some err, res)
     | (None, stats', st') \<Rightarrow> import_entries put envs now age dir names stats' st')"

definition dir_names :: "path \<Rightarrow> fs \<Rightarrow> string list" where
  "dir_names dir fs = sort_by (<) (map last (filter (\<lambda>p. butlast p = dir) (walk dir fs)))"

definition import_dir ::
  "('env \<Rightarrow> batch \<Rightarrow> 's \<Rightarrow> store_error option \<times> 's) \<Rightarrow> (string \<Rightarrow> 'env entry_env) \<Rightarrow> bool \<Rightarrow> int \<Rightarrow> int \<Rightarrow>
    path \<Rightarrow> fs \<times> 's \<Rightarrow> dir_error option \<times> spool_stats \<times> fs \<times> 's" where
  "import_dir put envs read_fails now age dir st =
    (if trim_space (path_string dir) = [] then (Some DirRequired, no_stats, st)
     else if read_fails then (Some ReadDirFailed, no_stats, st)
     else import_entries put envs now age dir (dir_names dir (fst st)) no_stats st)"

subsection \<open>What an imported file guarantees, for any store\<close>

definition line_stored :: "(batch \<Rightarrow> 's \<Rightarrow> bool) \<Rightarrow> 's \<Rightarrow> string \<Rightarrow> bool" where
  "line_stored holds s line \<longleftrightarrow> blank_line line \<or> (case decode_line line of
      None \<Rightarrow> False | Some b \<Rightarrow> batch_validate b = None \<and> holds b s)"

definition file_stored :: "(batch \<Rightarrow> 's \<Rightarrow> bool) \<Rightarrow> 's \<Rightarrow> string \<Rightarrow> bool" where
  "file_stored holds s data \<longleftrightarrow> list_all (line_stored holds s) (read_lines data)"

lemma read_lines_concat: "concat (read_lines data) = data"
  by (induction data) (auto split: list.splits)

lemma import_line_cases:
  assumes "import_line put i n line stats s = (res, stats', s')"
  obtains (refused) err where "res = Some err" "stats' = stats"
      "s' = s \<or> (\<exists>b r. put i b s = (r, s'))"
  | (imported) b r where "res = None" "decode_line line = Some b" "batch_validate b = None"
      "put i b s = (r, s')" "r = None \<or> r = Some AlreadyStored"
      "stats' = stats\<lparr>sp_batches := sp_batches stats + 1,
         sp_duplicates := sp_duplicates stats + (if r = None then 0 else 1)\<rparr>"
proof (cases "decode_line line")
  case None
  then show ?thesis using assms by (intro refused) (auto simp: import_line_def)
next
  case (Some b)
  obtain r s1 where put: "put i b s = (r, s1)" by (metis surj_pair)
  show ?thesis
  proof (cases "batch_validate b = None \<and> (r = None \<or> r = Some AlreadyStored)")
    case True
    then show ?thesis
      using assms Some put by (intro imported[of b r]) (auto simp: import_line_def)
  next
    case False
    have "\<exists>err. res = Some err \<and> stats' = stats \<and> (s' = s \<or> s' = s1)"
      using assms Some put False
      by (auto simp: import_line_def split: option.splits store_error.splits)
    then show ?thesis using put refused by blast
  qed
qed

context batch_store
begin

lemma import_line_keeps:
  "import_line put i n line stats s = (res, stats', s') \<Longrightarrow> holds b0 s \<Longrightarrow> holds b0 s'"
  by (erule import_line_cases) (auto dest: put_keeps)

lemma import_lines_keeps:
  "import_lines put e k n lines stats s = (res, stats', s') \<Longrightarrow> holds b0 s \<Longrightarrow> holds b0 s'"
proof (induction lines arbitrary: k n stats s)
  case (Cons line lines)
  obtain r1 st1 s1 where one: "import_line put (en_put e k) (Suc n) line stats s = (r1, st1, s1)"
    by (metis prod_cases3)
  from import_line_keeps[OF one] show ?case
    using Cons one by (auto split: if_splits option.splits)
qed auto

lemma line_stored_keeps:
  assumes "import_lines put e k n lines stats s = (res, stats', s')" "line_stored holds s line"
  shows "line_stored holds s' line"
  using assms(2) import_lines_keeps[OF assms(1)] by (auto simp: line_stored_def split: option.splits)

lemma import_lines_ok:
  assumes "import_lines put e k n lines stats s = (None, stats', s')"
  shows "list_all (line_stored holds s') lines \<and> \<not> en_broken e \<and>
    sp_batches stats' = sp_batches stats + int (length (filter (\<lambda>l. \<not> blank_line l) lines)) \<and>
    sp_duplicates stats \<le> sp_duplicates stats' \<and>
    sp_duplicates stats' - sp_duplicates stats \<le> sp_batches stats' - sp_batches stats"
  using assms
proof (induction lines arbitrary: k n stats s)
  case Nil
  then show ?case by (auto split: if_splits)
next
  case (Cons line lines)
  show ?case
  proof (cases "blank_line line")
    case True
    then have "import_lines put e (Suc k) n lines stats s = (None, stats', s')"
      using Cons.prems by (simp split: if_splits)
    from Cons.IH[OF this] True show ?thesis by (simp add: line_stored_def)
  next
    case False
    obtain r1 st1 s1 where one: "import_line put (en_put e k) (Suc n) line stats s = (r1, st1, s1)"
      by (metis prod_cases3)
    have "r1 = None" and rest: "import_lines put e (Suc k) (Suc n) lines st1 s1 = (None, stats', s')"
      using Cons.prems one False by (auto split: if_splits option.splits)
    note IH = Cons.IH[OF rest]
    from one show ?thesis
    proof (cases rule: import_line_cases)
      case (imported b r)
      then have "line_stored holds s1 line"
        using put_stored put_duplicate by (auto simp: line_stored_def)
      then show ?thesis
        using IH line_stored_keeps[OF rest] False imported(6) by (auto split: if_splits)
    qed (use \<open>r1 = None\<close> in simp)
  qed
qed

lemma import_file_ok:
  assumes "import_file put e data s = (None, stats, s')"
  shows "file_stored holds s' data" "sp_batches stats =
      int (length (filter (\<lambda>l. \<not> blank_line l) (read_lines data)))"
    "0 \<le> sp_duplicates stats" "sp_duplicates stats \<le> sp_batches stats"
  using assms import_lines_ok[of e 0 0 "read_lines data" no_stats s stats s']
    import_lines_ok[of e 0 0 "read_lines (take (en_read_bytes e) data)" no_stats s stats s']
  by (auto simp: import_file_def file_stored_def no_stats_def split: if_splits)

lemma import_file_keeps:
  "import_file put e data s = (res, stats, s') \<Longrightarrow> holds b0 s \<Longrightarrow> holds b0 s'"
  by (auto simp: import_file_def split: if_splits dest: import_lines_keeps)

end

subsection \<open>No file is lost\<close>

lemma lookup_move_other:
  "fmlookup fs p = Some f \<Longrightarrow> p \<noteq> p1 \<Longrightarrow> p \<noteq> p2 \<Longrightarrow> fmlookup (move_file p1 p2 fs) p = Some f"
  by (simp add: move_file_def split: option.split)

lemma lookup_move: "fmlookup fs p1 = Some f \<Longrightarrow> fmlookup (move_file p1 p2 fs) p2 = Some f"
  by (simp add: move_file_def)

lemma dom_move: "p |\<in>| fmdom (move_file p1 p2 fs) \<Longrightarrow> p |\<in>| fmdom fs \<or> p = p2"
  by (auto simp: move_file_def split: option.splits if_splits)

lemma move_back:
  assumes "fmlookup fs p1 = Some f" "p2 |\<notin>| fmdom fs"
  shows "move_file p2 p1 (move_file p1 p2 fs) = fs"
proof (rule fmap_ext)
  fix x
  have "p1 \<noteq> p2" using assms by (auto dest: fmdomI)
  then show "fmlookup (move_file p2 p1 (move_file p1 p2 fs)) x = fmlookup fs x"
    using assms fmdom_notD[OF assms(2)] by (auto simp: move_file_def)
qed

lemma claimed_ext: "path_ext (claimed_path dir n) = ''.importing''"
proof -
  have "CHR ''.'' \<notin> set ''importing''" by simp
  then have "last_index CHR ''.'' (n @ CHR ''.'' # ''importing'') = Some (length n)"
    by (rule last_index_append)
  then show ?thesis by (simp add: path_ext_def path_base_def claimed_path_def)
qed

text \<open>
  A file \<open>f\<close> that was at \<open>p\<close> is accounted for: it is still there, or still claimed, or it is in the
  archive and the store holds every batch of it.
\<close>

definition accounted ::
  "(batch \<Rightarrow> 's \<Rightarrow> bool) \<Rightarrow> path \<Rightarrow> path \<Rightarrow> stored_file \<Rightarrow> fs \<times> 's \<Rightarrow> bool" where
  "accounted holds dir p f st \<longleftrightarrow> fmlookup (fst st) p = Some f \<or>
    (\<exists>n. p = dir @ [n] \<and> fmlookup (fst st) (claimed_path dir n) = Some f) \<or>
    (\<exists>n t. p = dir @ [n] \<and> fmlookup (fst st) (archive_path dir n t) = Some f \<and>
       file_stored holds (snd st) (f_data f))"

definition no_clash :: "(string \<Rightarrow> 'env entry_env) \<Rightarrow> path \<Rightarrow> string list \<Rightarrow> fs \<Rightarrow> bool" where
  "no_clash envs dir names fs \<longleftrightarrow> list_all (\<lambda>n. claimed_path dir n |\<notin>| fmdom fs \<and>
     archive_path dir n (en_stamp (envs n)) |\<notin>| fmdom fs \<and> length (en_stamp (envs n)) = 26) names"

lemma archive_path_eq:
  "length t = length t' \<Longrightarrow> archive_path dir n t = archive_path dir n' t' \<longleftrightarrow> n = n' \<and> t = t'"
  by (auto simp: archive_path_def append_eq_append_conv)

context batch_store
begin

lemma file_stored_keeps:
  assumes "\<And>b. holds b s \<Longrightarrow> holds b s'" "file_stored holds s data"
  shows "file_stored holds s' data"
  using assms by (fastforce simp: file_stored_def list_all_iff line_stored_def split: option.splits)

lemma import_entry_cases:
  assumes "import_entry put e now age dir n stats (fs, s) = (res, stats', fs', s')"
    and "claimed_path dir n |\<notin>| fmdom fs"
  obtains (same) "fs' = fs"
  | (stuck) f where "fmlookup fs (dir @ [n]) = Some f" "equal_fold (path_ext (dir @ [n])) ''.ndjson''"
      "fs' = move_file (dir @ [n]) (claimed_path dir n) fs"
  | (archived) f where "fmlookup fs (dir @ [n]) = Some f" "equal_fold (path_ext (dir @ [n])) ''.ndjson''"
      "fs' = move_file (claimed_path dir n) (archive_path dir n (en_stamp e))
         (move_file (dir @ [n]) (claimed_path dir n) fs)" "file_stored holds s' (f_data f)"
proof (cases "fmlookup fs (dir @ [n])")
  case None
  then show ?thesis using assms(1) by (intro same) (auto simp: import_entry_def Let_def split: if_splits)
next
  case (Some f)
  note restored = move_back[OF Some assms(2)]
  obtain r fst1 s1 where imp: "import_file put e (f_data f) s = (r, fst1, s1)" by (metis prod_cases3)
  show ?thesis
  proof (cases r)
    case None
    then have "file_stored holds s1 (f_data f)" using import_file_ok(1) imp by blast
    then show ?thesis
      using assms(1) Some imp None same stuck[OF Some] archived[OF Some] restored
      by (auto simp: import_entry_def Let_def split: if_splits)
  next
    case (Some err)
    then show ?thesis
      using assms(1) \<open>fmlookup fs (dir @ [n]) = Some f\<close> imp same stuck restored
      by (auto simp: import_entry_def Let_def split: if_splits)
  qed
qed

lemma import_entry_keeps:
  assumes "import_entry put e now age dir n stats (fs, s) = (res, stats', fs', s')" "holds b s"
  shows "holds b s'"
proof (cases "fmlookup fs (dir @ [n])")
  case None
  then show ?thesis using assms by (auto simp: import_entry_def Let_def split: if_splits)
next
  case (Some f)
  obtain r fst1 s1 where imp: "import_file put e (f_data f) s = (r, fst1, s1)" by (metis prod_cases3)
  then have "holds b s1" using import_file_keeps[OF imp] assms(2) by blast
  then show ?thesis
    using assms Some imp by (auto simp: import_entry_def Let_def split: if_splits option.splits)
qed

lemma accounted_entry:
  assumes entry: "import_entry put e now age dir n stats (fs, s) = (res, stats', fs', s')"
    and free: "claimed_path dir n |\<notin>| fmdom fs" "archive_path dir n (en_stamp e) |\<notin>| fmdom fs"
    and acc: "accounted holds dir p f (fs, s)"
  shows "accounted holds dir p f (fs', s')"
proof -
  let ?c = "claimed_path dir n" and ?a = "archive_path dir n (en_stamp e)"
  have keeps: "file_stored holds s d \<Longrightarrow> file_stored holds s' d" for d
    by (rule file_stored_keeps[OF import_entry_keeps[OF entry]])
  have shapes: "?c \<noteq> ?a" "?a \<noteq> dir @ [m]" "archive_path dir m t \<noteq> dir @ [m']"
    "archive_path dir m t \<noteq> claimed_path dir m'" for m m' t
    by (simp_all add: claimed_path_def archive_path_def)
  have not_free: "fmlookup fs x = Some y \<Longrightarrow> x \<noteq> ?c \<and> x \<noteq> ?a" for x y
    using free by (auto dest: fmdomI)
  from entry free(1) show ?thesis
  proof (cases rule: import_entry_cases)
    case same
    then show ?thesis using acc keeps by (auto simp: accounted_def)
  next
    case (stuck g)
    have other: "fmlookup fs x = Some y \<Longrightarrow> x \<noteq> dir @ [n] \<Longrightarrow> fmlookup fs' x = Some y" for x y
      using not_free[of x y] by (simp add: stuck(3) lookup_move_other)
    have here: "fmlookup fs' ?c = Some g" by (simp add: stuck(3) lookup_move[OF stuck(1)])
    have "claimed_path dir m \<noteq> dir @ [n]" for m
      using claimed_ext[of dir m] stuck(2) by (auto simp: equal_fold_def to_lower_def lower_char_def)
    then show ?thesis
      using acc other here stuck(1) keeps shapes unfolding accounted_def by (metis fst_conv option.inject snd_conv)
  next
    case (archived g)
    have other: "fmlookup fs x = Some y \<Longrightarrow> x \<noteq> dir @ [n] \<Longrightarrow> fmlookup fs' x = Some y" for x y
      using not_free[of x y] by (simp add: archived(3) lookup_move_other)
    have here: "fmlookup fs' ?a = Some g" by (simp add: archived(3) lookup_move[OF lookup_move[OF archived(1)]])
    have "claimed_path dir m \<noteq> dir @ [n]" for m
      using claimed_ext[of dir m] archived(2) by (auto simp: equal_fold_def to_lower_def lower_char_def)
    then show ?thesis
      using acc other here archived(1,4) keeps shapes unfolding accounted_def
      by (metis fst_conv option.inject snd_conv)
  qed
qed

lemma no_clash_entry:
  assumes entry: "import_entry put (envs n) now age dir n stats (fs, s) = (res, stats', fs', s')"
    and clash: "no_clash envs dir (n # names) fs" and "n \<notin> set names"
  shows "no_clash envs dir names fs'"
proof -
  let ?c = "claimed_path dir n" and ?a = "archive_path dir n (en_stamp (envs n))"
  have free: "?c |\<notin>| fmdom fs" "length (en_stamp (envs n)) = 26" using clash by (auto simp: no_clash_def)
  from entry free(1) have dom: "x |\<in>| fmdom fs' \<Longrightarrow> x |\<in>| fmdom fs \<or> x = ?c \<or> x = ?a" for x
    by (cases rule: import_entry_cases) (auto dest!: dom_move)
  show ?thesis
    unfolding no_clash_def list_all_iff
  proof
    fix m assume m: "m \<in> set names"
    then have old: "claimed_path dir m |\<notin>| fmdom fs" "archive_path dir m (en_stamp (envs m)) |\<notin>| fmdom fs"
      "length (en_stamp (envs m)) = 26" and "m \<noteq> n"
      using clash assms(3) by (auto simp: no_clash_def list_all_iff)
    then have "claimed_path dir m \<noteq> ?c" "claimed_path dir m \<noteq> ?a"
      "archive_path dir m (en_stamp (envs m)) \<noteq> ?c" "archive_path dir m (en_stamp (envs m)) \<noteq> ?a"
      using free(2) by (simp_all add: archive_path_eq) (simp_all add: claimed_path_def archive_path_def)
    then show "claimed_path dir m |\<notin>| fmdom fs' \<and>
        archive_path dir m (en_stamp (envs m)) |\<notin>| fmdom fs' \<and> length (en_stamp (envs m)) = 26"
      using old dom by blast
  qed
qed

lemma accounted_entries:
  assumes "import_entries put envs now age dir names stats (fs, s) = (res, stats', fs', s')"
    and "no_clash envs dir names fs" "distinct names" "accounted holds dir p f (fs, s)"
  shows "accounted holds dir p f (fs', s')"
  using assms
proof (induction names arbitrary: stats fs s)
  case Nil
  then show ?case by simp
next
  case (Cons n names)
  obtain r stats1 fs1 s1 where one:
    "import_entry put (envs n) now age dir n stats (fs, s) = (r, stats1, fs1, s1)" by (metis prod_cases4)
  have acc: "accounted holds dir p f (fs1, s1)"
    by (rule accounted_entry[OF one]) (use Cons.prems in \<open>auto simp: no_clash_def\<close>)
  have "no_clash envs dir names fs1" by (rule no_clash_entry[OF one Cons.prems(2)]) (use Cons.prems in auto)
  then show ?case
    using Cons.prems(1,3) one acc Cons.IH[of stats1 fs1 s1] by (auto split: option.splits)
qed

lemma import_dir_accounted:
  assumes "import_dir put envs rf now age dir (fs, s) = (res, stats, fs', s')"
    and "no_clash envs dir (dir_names dir fs) fs" "fmlookup fs p = Some f"
  shows "accounted holds dir p f (fs', s')"
proof -
  have "inj_on last {p. butlast p = dir \<and> p \<noteq> []}"
    by (rule inj_onI) (metis (mono_tags, lifting) append_butlast_last_id mem_Collect_eq)
  then have "distinct (dir_names dir fs)"
    by (auto simp: dir_names_def distinct_map store_simps is_below_def elim!: inj_on_subset)
  moreover have "accounted holds dir p f (fs, s)" using assms(3) by (simp add: accounted_def)
  ultimately show ?thesis
    using assms(1,2) accounted_entries[of envs now age dir "dir_names dir fs" no_stats fs s res stats fs' s' p f]
    by (auto simp: import_dir_def split: if_splits)
qed

end

subsection \<open>Examples\<close>

abbreviation sample_line :: string where
  "sample_line \<equiv> batch_text (sample_batch 7) @ [CHR 0x0A]"

definition quiet_entry :: "io entry_env" where
  "quiet_entry = \<lparr>en_cancelled = False, en_stat_fails = False, en_gone = False, en_claim_fails = False,
     en_open_fails = False, en_broken = False, en_read_bytes = 0, en_line_cancelled = (\<lambda>k. False),
     en_put = (\<lambda>k. calm ''t'' 5), en_restore_fails = False, en_mkdir_fails = False,
     en_archive_fails = False, en_stamp = ''20260101T000000.000000000Z''\<rparr>"

lemma read_lines_line: "CHR 0x0A \<notin> set l \<Longrightarrow> read_lines (l @ [CHR 0x0A]) = [l @ [CHR 0x0A], []]"
  by (induction l) auto

lemma sample_line_lines: "read_lines sample_line = [sample_line, []]"
proof (rule read_lines_line)
  show "CHR 0x0A \<notin> set (batch_text (sample_batch 7))" by code_simp
qed

lemma sample_line_blank: "blank_line sample_line \<longleftrightarrow> False" "blank_line []"
  using batch_text_shape[of "sample_batch 7"]
  by (auto simp: blank_line_def trim_space_batch_text)

lemma sample_import:
  "import_file (raw_put [''raw'']) quiet_entry sample_line fmempty =
    (None, \<lparr>sp_files = 0, sp_batches = 1, sp_duplicates = 0\<rparr>,
     snd (raw_put [''raw''] (calm ''t'' 5) (sample_batch 7) fmempty))"
  using raw_put_calm[OF marshal_sample[of 7], of "[''raw'']" fmempty "calm ''t'' 5"]
  by (simp add: import_file_def quiet_entry_def sample_line_lines sample_line_blank import_line_def
      decode_line_sample validate_sample no_stats_def calm_def)

subsection \<open>Properties\<close>




abbreviation sample_spool :: fs where
  "sample_spool \<equiv> fmupd [''spool'', ''a.ndjson''] \<lparr>f_data = sample_line, f_time = 0\<rparr> fmempty"

lemma sample_spool_names: "dir_names [''spool''] sample_spool = [''a.ndjson'']"
  by (simp add: dir_names_def walk_def sorted_list_of_fset.rep_eq is_below_def)




end
