(* ===== verification/Agent.thy ===== *)
theory Agent
  imports Uploader Ingest
begin

section \<open>The agent and the central server together (\<open>internal/agent/runtime.go\<close>)\<close>

text \<open>
  \<open>Runtime\<close> wires the parts: the local ingest server writes into the queue, the uploader sends the
  queue to the central server, whose ingest server writes into the raw store. The goroutines
  interleave at the queue's mutex, so a run is any sequence of events, each one collected request or
  one upload round; the network may lose the request or the answer. The theory also has the
  readiness, status and metrics handlers.
\<close>

subsection \<open>Status handlers\<close>

definition handle_ready :: "outbox \<Rightarrow> int \<times> string" where
  "handle_ready q = (if at_capacity q then (503, ''outbox_full'') else (200, ''ready''))"

definition agent_status :: "outbox \<Rightarrow> upload_status \<Rightarrow> string" where
  "agent_status q st = (let queue = outbox_stats q in
    if at_capacity q \<or> (st_batches queue > 0 \<and> us_error st \<noteq> NoError) \<or> st_dead_letters queue > 0
    then ''degraded'' else ''ok'')"

definition count_line :: "string \<Rightarrow> int \<Rightarrow> string" where
  "count_line name v = name @ '' '' @ show_int v @ [CHR 0x0A]"

definition agent_metrics :: "outbox \<Rightarrow> upload_status \<Rightarrow> string" where
  "agent_metrics q st = (let queue = outbox_stats q in concat [
     count_line ''dba_agent_queue_batches'' (st_batches queue),
     count_line ''dba_agent_queue_bytes'' (st_bytes queue),
     count_line ''dba_agent_dead_letters_total'' (st_dead_letters queue),
     metric_line ''dba_agent_uploaded_batches_total'' (us_uploaded st),
     metric_line ''dba_agent_upload_failures_total'' (us_failures st)])"

subsection \<open>One upload round against the central server\<close>

text \<open>What the network does to one exchange, and what the central server adds to it.\<close>

datatype link = Delivered | RequestLost | AnswerLost

record upload =
  up_link :: link
  up_round :: round
  up_env :: io
  up_pulled :: "64 word"
  up_request_us :: "64 word"
  up_storage_us :: "64 word"
  up_answer :: string

type_synonym central = "counters \<times> fs"

text \<open>The request \<open>uploadNext\<close> builds from the payload.\<close>

definition upload_request :: "agent_config \<Rightarrow> upload \<Rightarrow> string \<Rightarrow> io request" where
  "upload_request c x payload = \<lparr>q_header = ''Bearer '' @ c_bearer c, q_token = [], q_claimed = c_server c,
     q_body = payload, q_broken = False, q_pulled = up_pulled x, q_request_us = up_request_us x,
     q_storage_us = up_storage_us x, q_env = up_env x\<rparr>"

definition central_exchange ::
  "agent_config \<Rightarrow> ingest_config \<Rightarrow> path \<Rightarrow> upload \<Rightarrow> string \<Rightarrow> central \<Rightarrow> exchange \<times> central" where
  "central_exchange c ic rdir x payload st = (case up_link x of
      RequestLost \<Rightarrow> (NoResponse, st)
    | l \<Rightarrow> (case handle_batch ic (raw_put rdir) (upload_request c x payload) st of (p, st') \<Rightarrow>
        ((if l = AnswerLost then NoResponse else Response (p_status p) (up_answer x)), st')))"

definition upload_to_central ::
  "agent_config \<Rightarrow> ingest_config \<Rightarrow> path \<Rightarrow> upload \<Rightarrow> uploader \<times> central \<Rightarrow> uploader \<times> central" where
  "upload_to_central c ic rdir x s = (case s of (u, st) \<Rightarrow>
    (case outbox_peek (fst (u_queue u)) of
       None \<Rightarrow> s
     | Some (p, n) \<Rightarrow>
         (case outbox_read (r_read (up_round x)) p (u_queue u) of
            Inl e \<Rightarrow> (snd (upload_next (up_round x) u), st)
          | Inr payload \<Rightarrow>
              (case central_exchange c ic rdir x payload st of (answer, st') \<Rightarrow>
                (snd (upload_next ((up_round x)\<lparr>r_exchange := answer\<rparr>) u), st')))))"

subsection \<open>Runs\<close>

datatype agent_event = Collect "io request" | Upload upload

text \<open>The agent's own ingest server: one query token, one expected server, at most 2 MiB.\<close>

definition local_config :: "agent_config \<Rightarrow> ingest_config" where
  "local_config c = local_query_config (c_local_token c) (c_server c) (2 * 1024 * 1024)"

record system =
  y_local :: counters
  y_agent :: uploader
  y_central :: central

fun agent_step :: "agent_config \<Rightarrow> ingest_config \<Rightarrow> path \<Rightarrow> agent_event \<Rightarrow> system \<Rightarrow> system" where
  "agent_step c ic rdir (Collect q) y =
    (case handle_batch (local_config c) outbox_put q (y_local y, u_queue (y_agent y)) of (p, n, s) \<Rightarrow>
      y\<lparr>y_local := n, y_agent := (y_agent y)\<lparr>u_queue := s\<rparr>\<rparr>)"
| "agent_step c ic rdir (Upload x) y =
    (case upload_to_central c ic rdir x (y_agent y, y_central y) of (u, st) \<Rightarrow>
      y\<lparr>y_agent := u, y_central := st\<rparr>)"

text \<open>The states after each event of a run.\<close>

primrec agent_run :: "agent_config \<Rightarrow> ingest_config \<Rightarrow> path \<Rightarrow> agent_event list \<Rightarrow> system \<Rightarrow> system list" where
  "agent_run c ic rdir [] y = []"
| "agent_run c ic rdir (e # es) y =
    (let y' = agent_step c ic rdir e y in y' # agent_run c ic rdir es y')"

abbreviation queued :: "system \<Rightarrow> (path \<times> string) list" where
  "queued y \<equiv> queue_contents (u_queue (y_agent y))"

text \<open>A batch text is settled centrally when it reads as a valid batch that the raw store holds.\<close>

definition central_holds :: "path \<Rightarrow> string \<Rightarrow> system \<Rightarrow> bool" where
  "central_holds rdir data y \<longleftrightarrow> (case decode_line data of
      None \<Rightarrow> False | Some b \<Rightarrow> batch_validate b = None \<and> raw_holds rdir b (snd (y_central y)))"

subsection \<open>One event\<close>

lemma decode_body_line: "decode_body limit body broken = Inr b \<Longrightarrow> decode_line body = Some b"
  by (auto simp: decode_body_def Let_def decode_line_def split: parsed.splits if_splits option.splits)

lemma central_exchange_cases:
  assumes "central_exchange c ic rdir x payload (n, cfs) = (answer, n', cfs')"
  shows "raw_holds rdir b cfs \<Longrightarrow> raw_holds rdir b cfs'"
    and "answer = Response code body \<Longrightarrow> code = 200 \<or> code = 202 \<Longrightarrow>
      \<exists>b. decode_line payload = Some b \<and> batch_validate b = None \<and> raw_holds rdir b cfs'"
    and "answer = Response code body \<Longrightarrow> code \<in> {200, 202, 400, 401, 403, 409, 413, 422, 500, 503}"
proof -
  obtain p n1 cfs1 where handle: "handle_batch ic (raw_put rdir) (upload_request c x payload) (n, cfs) =
      (p, n1, cfs1)" by (metis prod_cases3)
  show "raw_holds rdir b cfs \<Longrightarrow> raw_holds rdir b cfs'"
    using assms handle raw.handle_batch_keeps[OF handle]
    by (auto simp: central_exchange_def split: link.splits)
  show "answer = Response code body \<Longrightarrow> code = 200 \<or> code = 202 \<Longrightarrow>
      \<exists>b. decode_line payload = Some b \<and> batch_validate b = None \<and> raw_holds rdir b cfs'"
    using assms handle raw.handle_batch_ack[OF handle] decode_body_line
    by (force simp: central_exchange_def upload_request_def split: link.splits)
  have "p_status p \<in> {200, 202, 400, 401, 403, 409, 413, 422, 500, 503}"
    using handle
  proof (cases rule: handle_batch_cases)
    case (stored b bound r)
    then show ?thesis by (auto split: option.splits store_error.splits)
  qed auto
  then show "answer = Response code body \<Longrightarrow> code \<in> {200, 202, 400, 401, 403, 409, 413, 422, 500, 503}"
    using assms handle by (auto simp: central_exchange_def split: link.splits)
qed

lemma upload_to_central_cases:
  assumes inv: "outbox_inv (u_queue u)"
    and up: "upload_to_central c ic rdir x (u, (n, cfs)) = (u', (n', cfs'))"
  obtains (kept) "outbox_inv (u_queue u')" "queue_contents (u_queue u') = queue_contents (u_queue u)"
  | (settled) p d where "outbox_inv (u_queue u')"
      "queue_contents (u_queue u) = (p, d) # queue_contents (u_queue u')"
      "(\<exists>b. decode_line d = Some b \<and> batch_validate b = None \<and> raw_holds rdir b cfs') \<or>
         outbox_buried d (u_queue u')"
proof (cases "outbox_peek (fst (u_queue u))")
  case None
  then show ?thesis using up inv by (intro kept) (auto simp: upload_to_central_def)
next
  case (Some pn)
  then obtain p k where peek: "outbox_peek (fst (u_queue u)) = Some (p, k)" by (cases pn) auto
  show ?thesis
  proof (cases "outbox_read (r_read (up_round x)) p (u_queue u)")
    case (Inl e)
    then show ?thesis
      using up peek inv by (intro kept) (auto simp: upload_to_central_def upload_next_def)
  next
    case (Inr payload)
    obtain answer n1 cfs1 where x: "central_exchange c ic rdir x payload (n, cfs) = (answer, n1, cfs1)"
      by (metis prod_cases3)
    obtain cs where cs: "queue_contents (u_queue u) = (p, payload) # cs"
      using queue.get_front[OF inv peek Inr] by blast
    obtain res u1 where un: "upload_next ((up_round x)\<lparr>r_exchange := answer\<rparr>) u = (res, u1)"
      by (metis surj_pair)
    have eqs: "u' = u1" "cfs' = cfs1" using up peek Inr x un by (auto simp: upload_to_central_def)
    from inv un show ?thesis
    proof (cases rule: upload_next_cases)
      case idle
      then show ?thesis using inv eqs by (intro kept) auto
    next
      case (kept e)
      then show ?thesis using eqs by (intro that(1)) auto
    next
      case (delivered p' d code body)
      then have "code = 200 \<or> code = 202"
        using central_exchange_cases(3)[OF x, of code body] by auto
      then show ?thesis
        using delivered central_exchange_cases(2)[OF x, of code body] cs eqs
        by (intro settled) auto
    next
      case (dead p' d code body)
      then show ?thesis using eqs by (intro settled) auto
    qed
  qed
qed

text \<open>The lines an event adds to the queue: the accepted batch of a request answered with 202.\<close>

fun event_accepted :: "agent_config \<Rightarrow> agent_event \<Rightarrow> system \<Rightarrow> string list" where
  "event_accepted c (Collect q) y =
    (if p_status (fst (handle_batch (local_config c) outbox_put q (y_local y, u_queue (y_agent y)))) = 202
     then (case decode_body (ic_max_request (local_config c)) (q_body q) (q_broken q) of
         Inl e \<Rightarrow> [] | Inr b \<Rightarrow> [batch_text b @ [CHR 0x0A]])
     else [])"
| "event_accepted c (Upload x) y = []"

primrec run_accepted :: "agent_config \<Rightarrow> ingest_config \<Rightarrow> path \<Rightarrow> agent_event list \<Rightarrow> system \<Rightarrow> string list" where
  "run_accepted c ic rdir [] y = []"
| "run_accepted c ic rdir (e # es) y =
    event_accepted c e y @ run_accepted c ic rdir es (agent_step c ic rdir e y)"

lemma collect_step:
  assumes inv: "outbox_inv s" and handle: "handle_batch ic outbox_put q (n, s) = (p, n', s')"
  shows "outbox_inv s'" "map snd (queue_contents s') = map snd (queue_contents s) @
    (if p_status p = 202 then (case decode_body (ic_max_request ic) (q_body q) (q_broken q) of
       Inl e \<Rightarrow> [] | Inr b \<Rightarrow> [batch_text b @ [CHR 0x0A]]) else [])"
proof -
  from handle have "outbox_inv s' \<and> map snd (queue_contents s') = map snd (queue_contents s) @
    (if p_status p = 202 then (case decode_body (ic_max_request ic) (q_body q) (q_broken q) of
       Inl e \<Rightarrow> [] | Inr b \<Rightarrow> [batch_text b @ [CHR 0x0A]]) else [])"
  proof (cases rule: handle_batch_cases)
    case (stored b bound r)
    obtain qu fs where s: "s = (qu, fs)" by fastforce
    have "p_status p = 202 \<longleftrightarrow> r = None"
      using stored(7) by (auto split: option.splits store_error.splits)
    then show ?thesis
      using stored(2,6) outbox_put_inv[OF inv[unfolded s]] contents_put[OF inv[unfolded s]]
      by (auto simp: s)
  qed (use inv in auto)
  then show "outbox_inv s'" "map snd (queue_contents s') = map snd (queue_contents s) @
    (if p_status p = 202 then (case decode_body (ic_max_request ic) (q_body q) (q_broken q) of
       Inl e \<Rightarrow> [] | Inr b \<Rightarrow> [batch_text b @ [CHR 0x0A]]) else [])" by auto
qed

lemma agent_step_central: "raw_holds rdir b (snd (y_central y)) \<Longrightarrow>
    raw_holds rdir b (snd (y_central (agent_step c ic rdir e y)))"
proof (cases e)
  case (Collect q)
  then show "raw_holds rdir b (snd (y_central y)) \<Longrightarrow> ?thesis" by (auto split: prod.splits)
next
  case (Upload x)
  assume held: "raw_holds rdir b (snd (y_central y))"
  obtain n cfs where st: "y_central y = (n, cfs)" by fastforce
  obtain u' st' where up: "upload_to_central c ic rdir x (y_agent y, (n, cfs)) = (u', st')"
    by (metis surj_pair)
  have "st' = (n, cfs) \<or>
      (\<exists>payload answer. central_exchange c ic rdir x payload (n, cfs) = (answer, st'))"
    using up by (auto simp: upload_to_central_def split: option.splits sum.splits prod.splits)
  then have "raw_holds rdir b (snd st')"
    using held st central_exchange_cases(1)[of c ic rdir x _ n cfs] by (cases st') auto
  then show ?thesis using up st Upload by simp
qed

lemma agent_step_cases:
  assumes inv: "outbox_inv (u_queue (y_agent y))" and y': "y' = agent_step c ic rdir e y"
  shows "outbox_inv (u_queue (y_agent y')) \<and> (\<exists>settled.
    map snd (queued y) @ event_accepted c e y = settled @ map snd (queued y') \<and>
    (\<forall>d \<in> set settled. central_holds rdir d y' \<or> outbox_buried d (u_queue (y_agent y'))))"
proof (cases e)
  case (Collect q)
  obtain p n s where h: "handle_batch (local_config c) outbox_put q (y_local y, u_queue (y_agent y)) =
      (p, n, s)" by (metis prod_cases3)
  then show ?thesis using collect_step[OF inv h] Collect y' by (intro conjI exI[of _ "[]"]) auto
next
  case (Upload x)
  obtain n cfs where st: "y_central y = (n, cfs)" by fastforce
  obtain u' n' cfs' where up: "upload_to_central c ic rdir x (y_agent y, (n, cfs)) = (u', (n', cfs'))"
    by (metis prod_cases3)
  have now: "y_agent y' = u'" "y_central y' = (n', cfs')" using y' Upload up st by auto
  from inv up show ?thesis
  proof (cases rule: upload_to_central_cases)
    case kept
    then show ?thesis using now Upload by (intro conjI exI[of _ "[]"]) auto
  next
    case (settled p d)
    then show ?thesis
      using now Upload by (intro conjI exI[of _ "[d]"]) (auto simp: central_holds_def)
  qed
qed

lemma central_holds_run:
  "central_holds rdir d y \<Longrightarrow> central_holds rdir d (last (y # agent_run c ic rdir es y))"
proof (induction es arbitrary: y)
  case (Cons e es)
  have "central_holds rdir d (agent_step c ic rdir e y)"
    using Cons.prems agent_step_central by (auto simp: central_holds_def split: option.splits)
  from Cons.IH[OF this] show ?case by (simp add: Let_def)
qed simp

lemma agent_run_settles:
  assumes "outbox_inv (u_queue (y_agent y))"
  shows "\<exists>settled. map snd (queued y) @ run_accepted c ic rdir es y =
      settled @ map snd (queued (last (y # agent_run c ic rdir es y))) \<and>
    (\<forall>d \<in> set settled. central_holds rdir d (last (y # agent_run c ic rdir es y)) \<or>
      (\<exists>y' \<in> set (agent_run c ic rdir es y). outbox_buried d (u_queue (y_agent y'))))"
  using assms
proof (induction es arbitrary: y)
  case Nil
  then show ?case by simp
next
  case (Cons e es)
  define y1 where "y1 = agent_step c ic rdir e y"
  obtain settled1 where one: "outbox_inv (u_queue (y_agent y1))"
    "map snd (queued y) @ event_accepted c e y = settled1 @ map snd (queued y1)"
    "\<forall>d \<in> set settled1. central_holds rdir d y1 \<or> outbox_buried d (u_queue (y_agent y1))"
    using agent_step_cases[OF Cons.prems y1_def] by blast
  obtain settled2 where two:
    "map snd (queued y1) @ run_accepted c ic rdir es y1 =
      settled2 @ map snd (queued (last (y1 # agent_run c ic rdir es y1)))"
    "\<forall>d \<in> set settled2. central_holds rdir d (last (y1 # agent_run c ic rdir es y1)) \<or>
      (\<exists>y' \<in> set (agent_run c ic rdir es y1). outbox_buried d (u_queue (y_agent y')))"
    using Cons.IH[OF one(1)] by blast
  have run: "agent_run c ic rdir (e # es) y = y1 # agent_run c ic rdir es y1"
    and acc: "run_accepted c ic rdir (e # es) y = event_accepted c e y @ run_accepted c ic rdir es y1"
    by (simp_all add: y1_def Let_def)
  have final: "last (y # agent_run c ic rdir (e # es) y) = last (y1 # agent_run c ic rdir es y1)"
    by (subst run) simp
  have "map snd (queued y) @ run_accepted c ic rdir (e # es) y =
      (settled1 @ settled2) @ map snd (queued (last (y1 # agent_run c ic rdir es y1)))"
    using one(2) two(1) by (metis acc append.assoc)
  moreover have "\<forall>d \<in> set (settled1 @ settled2). central_holds rdir d (last (y1 # agent_run c ic rdir es y1)) \<or>
      (\<exists>y' \<in> set (y1 # agent_run c ic rdir es y1). outbox_buried d (u_queue (y_agent y')))"
    using one(3) two(2) central_holds_run[of rdir _ y1 c ic es] by auto
  ultimately show ?case unfolding final unfolding run by blast
qed

subsection \<open>Properties\<close>


definition sample_agent_config :: agent_config where
  "sample_agent_config = default_config\<lparr>c_server := ''srv'', c_bearer := ''key''\<rparr>"

definition sample_upload :: upload where
  "sample_upload = \<lparr>up_link = Delivered, up_round = sample_round NoResponse, up_env = calm ''t'' 5,
     up_pulled = 0, up_request_us = 0, up_storage_us = 0, up_answer = []\<rparr>"

definition sample_system :: system where
  "sample_system = \<lparr>y_local = zero_counters, y_agent = new_uploader sample_queue,
     y_central = (zero_counters, fmempty)\<rparr>"


end
