(* ===== verification/Observations.thy ===== *)
theory Observations
  imports Schema GoCrypto
begin

section \<open>The observation builder (\<open>internal/observations/builder.go\<close>)\<close>

text \<open>
  \<open>Build\<close> turns the stored batches into observations: every random sampling opportunity, its
  cue, its readiness outcome, its first later exposure, its eligibility flags, and the
  assignment of episodes and independence. Times are \<open>int64\<close> milliseconds with the wrap-around
  written out (\<open>i64\<close>); probabilities, distances and speeds are exact reals.
\<close>

subsection \<open>Data\<close>

record build_config =
  bc_decision :: int
  bc_refractory :: int
  bc_episode_gap :: int
  bc_encounter_gap :: int
  bc_max_queue_delay :: int
  bc_max_uncertainty :: int
  bc_timing_policy :: string

definition default_build_config :: build_config where
  "default_build_config = \<lparr>bc_decision = 5000, bc_refractory = 5000, bc_episode_gap = 30000,
     bc_encounter_gap = 120000, bc_max_queue_delay = 250, bc_max_uncertainty = 500,
     bc_timing_policy = ''interval-timing-v1''\<rparr>"

definition builder_version :: string where "builder_version = ''observation-builder-v4-temporal''"
definition independence_version :: string where "independence_version = ''episode-window-v1''"

record cue_fact =
  cf_type :: string
  cf_source :: string
  cf_occurred :: int
  cf_details :: string
  cf_authority :: string

record observation =
  ob_id :: string
  ob_opportunity :: string
  ob_decision_window :: string
  ob_refractory_window :: string
  ob_encounter :: string
  ob_episode :: string
  ob_session :: string
  ob_server :: string
  ob_map :: string
  ob_area :: string
  ob_observer :: string
  ob_target :: string
  ob_target_key :: string
  ob_started :: int
  ob_closed :: int
  ob_stream :: string
  ob_policy :: string
  ob_class :: string
  ob_authority :: string
  ob_origin :: string
  ob_outcome_type :: string
  ob_outcome :: bool
  ob_outcome_ms :: int
  ob_outcome_lower :: int
  ob_outcome_upper :: int
  ob_uncertainty :: int
  ob_timing_source :: string
  ob_outcome_authority :: string
  ob_cue_class :: string
  ob_independent :: bool
  ob_strong :: bool
  ob_control :: bool
  ob_positive :: bool
  ob_control_kind :: string
  ob_timing_ok :: bool
  ob_timing_policy :: string
  ob_occlusion_ms :: int
  ob_validation :: string
  ob_exposure_ms :: int
  ob_exposure_lower :: int
  ob_exposure_upper :: int
  ob_exposure_cause :: string
  ob_exposure_censored :: bool
  ob_target_prob :: real
  ob_queue_prob :: real
  ob_queue_delay :: int
  ob_distance_band :: string
  ob_movement_band :: string
  ob_stance :: int
  ob_weapon :: string
  ob_camera :: string
  ob_population_band :: string
  ob_sources :: "string list"
  ob_cues :: "cue_fact list"

record wire =
  w_target :: string
  w_target_session :: string
  w_class :: string
  w_origin :: string
  w_stream :: string
  w_policy :: string
  w_reason :: string
  w_target_prob :: real
  w_queue_prob :: real
  w_queue_delay :: int
  w_probe_started :: int
  w_probe_completed :: int
  w_source :: string
  w_map :: string
  w_area :: string
  w_distance :: real
  w_speed :: real
  w_stance :: int
  w_weapon :: string
  w_camera :: string
  w_population :: int
  w_occlusion :: int
  w_validation :: string
  w_control :: string
  w_lower :: int
  w_upper :: int
  w_estimate :: int
  w_uncertainty :: int
  w_timing_source :: string

definition zero_wire :: wire where
  "zero_wire = \<lparr>w_target = [], w_target_session = [], w_class = [], w_origin = [], w_stream = [],
     w_policy = [], w_reason = [], w_target_prob = 0, w_queue_prob = 0, w_queue_delay = 0,
     w_probe_started = 0, w_probe_completed = 0, w_source = [], w_map = [], w_area = [],
     w_distance = 0, w_speed = 0, w_stance = 0, w_weapon = [], w_camera = [], w_population = 0,
     w_occlusion = 0, w_validation = [], w_control = [], w_lower = 0, w_upper = 0, w_estimate = 0,
     w_uncertainty = 0, w_timing_source = []\<rparr>"

text \<open>\<open>json.Unmarshal\<close> of a payload into the wire struct.\<close>

definition decode_wire :: "(string \<times> json) list \<Rightarrow> wire option" where
  "decode_wire ms = do {
     target \<leftarrow> decode_member conv_string ''target_player_id'' ms [];
     target_session \<leftarrow> decode_member conv_string ''target_player_session_id'' ms [];
     classification \<leftarrow> decode_member conv_string ''classification'' ms [];
     origin \<leftarrow> decode_member conv_string ''observer_origin_mode'' ms [];
     stream \<leftarrow> decode_member conv_string ''sampling_stream'' ms [];
     policy \<leftarrow> decode_member conv_string ''sampling_policy_version'' ms [];
     reason \<leftarrow> decode_member conv_string ''sampling_reason'' ms [];
     target_prob \<leftarrow> decode_member conv_float ''target_inclusion_probability'' ms 0;
     queue_prob \<leftarrow> decode_member conv_float ''queue_admission_probability'' ms 0;
     queue_delay \<leftarrow> decode_member conv_int64 ''queue_delay_ms'' ms 0;
     started \<leftarrow> decode_member conv_int64 ''probe_started_ms'' ms 0;
     completed \<leftarrow> decode_member conv_int64 ''probe_completed_ms'' ms 0;
     source \<leftarrow> decode_member conv_string ''source_player_id'' ms [];
     map_id \<leftarrow> decode_member conv_string ''map_id'' ms [];
     area \<leftarrow> decode_member conv_string ''area_cell'' ms [];
     distance \<leftarrow> decode_member conv_float ''target_distance_metres'' ms 0;
     speed \<leftarrow> decode_member conv_float ''observer_speed_mps'' ms 0;
     stance \<leftarrow> decode_member conv_int64 ''observer_stance_id'' ms 0;
     weapon \<leftarrow> decode_member conv_string ''baseline_weapon_state'' ms [];
     camera \<leftarrow> decode_member conv_string ''camera_mode'' ms [];
     population \<leftarrow> decode_member conv_int64 ''server_population_count'' ms 0;
     occlusion \<leftarrow> decode_member conv_int64 ''occlusion_duration_ms'' ms 0;
     validation \<leftarrow> decode_member conv_string ''visibility_validation_id'' ms [];
     control \<leftarrow> decode_member conv_string ''control_type'' ms [];
     lower \<leftarrow> decode_member conv_int64 ''event_time_lower_ms'' ms 0;
     upper \<leftarrow> decode_member conv_int64 ''event_time_upper_ms'' ms 0;
     estimate \<leftarrow> decode_member conv_int64 ''event_time_estimate_ms'' ms 0;
     uncertainty \<leftarrow> decode_member conv_int64 ''event_time_uncertainty_ms'' ms 0;
     timing_source \<leftarrow> decode_member conv_string ''event_timing_source'' ms [];
     Some \<lparr>w_target = target, w_target_session = target_session, w_class = classification,
       w_origin = origin, w_stream = stream, w_policy = policy, w_reason = reason,
       w_target_prob = target_prob, w_queue_prob = queue_prob, w_queue_delay = queue_delay,
       w_probe_started = started, w_probe_completed = completed, w_source = source, w_map = map_id,
       w_area = area, w_distance = distance, w_speed = speed, w_stance = stance, w_weapon = weapon,
       w_camera = camera, w_population = population, w_occlusion = occlusion,
       w_validation = validation, w_control = control, w_lower = lower, w_upper = upper,
       w_estimate = estimate, w_uncertainty = uncertainty, w_timing_source = timing_source\<rparr> }"

definition unmarshal_wire :: "string \<Rightarrow> wire option" where
  "unmarshal_wire s = (case json_text s of
      Some (JObj ms) \<Rightarrow> decode_wire ms
    | Some JNull \<Rightarrow> Some zero_wire
    | _ \<Rightarrow> None)"

record flat_event =
  fe_batch :: batch
  fe_event :: event
  fe_id :: string
  fe_data :: wire

record outcome_result =
  or_observed :: bool
  or_estimate :: int
  or_lower :: int
  or_upper :: int
  or_uncertainty :: int
  or_timing :: string
  or_authority :: string
  or_sources :: "string list"

record exposure_result =
  xr_estimate :: int
  xr_lower :: int
  xr_upper :: int
  xr_cause :: string
  xr_censored :: bool
  xr_sources :: "string list"

subsection \<open>Bands and names\<close>

definition distance_band :: "real \<Rightarrow> string" where
  "distance_band v = (if v < 25 then ''0-25'' else if v < 50 then ''25-50''
    else if v < 100 then ''50-100'' else if v < 250 then ''100-250'' else ''250+'')"

definition movement_band :: "real \<Rightarrow> string" where
  "movement_band v = (if v < 1 / 4 then ''STATIONARY'' else if v < 2 then ''SLOW'' else ''FAST'')"

definition population_band :: "int \<Rightarrow> string" where
  "population_band v = (if v < 10 then ''0-9'' else if v < 30 then ''10-29''
    else if v < 60 then ''30-59'' else ''60+'')"

definition stable_id :: "string list \<Rightarrow> string" where
  "stable_id parts = hex_encode (take 16 (sha256 (join_with [CHR 0x00] parts)))"

definition target_identity_key :: "string \<Rightarrow> string \<Rightarrow> string" where
  "target_identity_key target session =
    (if target \<noteq> [] then stable_id [''target-identity'', target]
     else if session \<noteq> [] then stable_id [''target-session'', session] else [])"

definition control_kind :: "string \<Rightarrow> string \<Rightarrow> string" where
  "control_kind classification explicit =
    (if explicit \<noteq> [] then explicit
     else if classification = ''ROBUSTLY_OCCLUDED'' \<or> classification = ''HEAD_ORIGIN_OCCLUDED''
     then ''HIDDEN_TARGET''
     else if classification = ''EXPOSED'' \<or> classification = ''PARTIALLY_EXPOSED'' then ''VISIBLE_TARGET''
     else if classification = ''NO_RELEVANT_TARGET'' then ''NEUTRAL_NO_RELEVANT_TARGET''
     else ''OTHER'')"

definition validated_first_person :: "string \<Rightarrow> bool" where
  "validated_first_person v \<longleftrightarrow> v = ''VALIDATED_FIRST_PERSON_HEAD'' \<or> v = ''FIRST_PERSON_EYE''"

definition exposed_class :: "string \<Rightarrow> bool" where
  "exposed_class c \<longleftrightarrow> c = ''EXPOSED'' \<or> c = ''PARTIALLY_EXPOSED''"

subsection \<open>The ordered event stream\<close>

definition event_id :: "string \<Rightarrow> event \<Rightarrow> string" where
  "event_id session e = (if ev_source_id e \<noteq> [] then ev_source_id e
    else session @ '':'' @ digits (uint (ev_sequence e)))"

definition flat_of :: "batch \<Rightarrow> event \<Rightarrow> flat_event option" where
  "flat_of b e =
    (case (if ev_payload e = [] then Some zero_wire else unmarshal_wire (ev_payload e)) of
       None \<Rightarrow> None
     | Some d \<Rightarrow> Some \<lparr>fe_batch = b, fe_event = e, fe_id = event_id (ba_session b) e, fe_data = d\<rparr>)"

fun collect_some :: "'a option list \<Rightarrow> 'a list option" where
  "collect_some [] = Some []"
| "collect_some (None # xs) = None"
| "collect_some (Some x # xs) = map_option (\<lambda>ys. x # ys) (collect_some xs)"

definition flat_before :: "flat_event \<Rightarrow> flat_event \<Rightarrow> bool" where
  "flat_before x y =
    (if ba_server (fe_batch x) \<noteq> ba_server (fe_batch y)
     then ba_server (fe_batch x) < ba_server (fe_batch y)
     else if ba_session (fe_batch x) \<noteq> ba_session (fe_batch y)
     then ba_session (fe_batch x) < ba_session (fe_batch y)
     else if ev_time (fe_event x) \<noteq> ev_time (fe_event y)
     then ev_time (fe_event x) < ev_time (fe_event y)
     else ev_sequence (fe_event x) < ev_sequence (fe_event y))"

definition flatten :: "batch list \<Rightarrow> flat_event list option" where
  "flatten batches = map_option (sort_by flat_before)
     (collect_some (concat (map (\<lambda>b. map (flat_of b) (ba_events b)) batches)))"

definition same_session :: "flat_event \<Rightarrow> flat_event \<Rightarrow> bool" where
  "same_session x y \<longleftrightarrow> ba_server (fe_batch x) = ba_server (fe_batch y) \<and>
     ba_session (fe_batch x) = ba_session (fe_batch y)"

definition is_opportunity :: "flat_event \<Rightarrow> bool" where
  "is_opportunity x \<longleftrightarrow> w_stream (fe_data x) = ''random_opportunity'' \<and>
     (ev_type (fe_event x) = ''VISIBILITY_OBSERVATION'' \<or> ev_type (fe_event x) = ''SAMPLING_OPPORTUNITY'')"

subsection \<open>Cue, outcome, exposure\<close>

text \<open>The scan backwards: the list holds the earlier events, the latest first.\<close>

fun cue_scan :: "flat_event \<Rightarrow> string \<Rightarrow> string \<Rightarrow> int \<Rightarrow> flat_event list \<Rightarrow> string \<times> cue_fact option" where
  "cue_scan origin observer target moment [] = (''UNEXPLAINED_IN_CAPTURED_DATA'', None)"
| "cue_scan origin observer target moment (x # xs) =
    (if \<not> same_session origin x then (''UNEXPLAINED_IN_CAPTURED_DATA'', None)
     else if i64 (moment - ev_time (fe_event x)) > 30000 then (''UNEXPLAINED_IN_CAPTURED_DATA'', None)
     else if ev_player_session (fe_event x) \<noteq> observer then cue_scan origin observer target moment xs
     else if ev_type (fe_event x) = ''VISIBILITY_OBSERVATION'' \<and> w_target (fe_data x) = target \<and>
       exposed_class (w_class (fe_data x)) then
       (''KNOWN'', Some \<lparr>cf_type = ''RECENT_VISUAL_EXPOSURE'', cf_source = fe_id x,
          cf_occurred = ev_time (fe_event x),
          cf_details = ''captured exposed or partially exposed visibility observation'',
          cf_authority = ev_authority (fe_event x)\<rparr>)
     else if (ev_type (fe_event x) = ''PLAYER_HIT'' \<or> ev_type (fe_event x) = ''PLAYER_KILLED'') \<and>
       w_source (fe_data x) = target then
       (''PLAUSIBLE'', Some \<lparr>cf_type = ''RECENT_COMBAT_CONTACT'', cf_source = fe_id x,
          cf_occurred = ev_time (fe_event x),
          cf_details = ''captured hit or kill attributed to the target'',
          cf_authority = ev_authority (fe_event x)\<rparr>)
     else cue_scan origin observer target moment xs)"

definition cue_class :: "flat_event list \<Rightarrow> nat \<Rightarrow> flat_event \<Rightarrow> string \<Rightarrow> string \<Rightarrow> int \<Rightarrow>
    string \<times> cue_fact option" where
  "cue_class events k origin observer target moment =
    (if target = [] then (''UNEXPLAINED_IN_CAPTURED_DATA'', None)
     else cue_scan origin observer target moment (rev (take k events)))"

definition event_interval :: "flat_event \<Rightarrow> int \<times> int \<times> int \<times> int \<times> string" where
  "event_interval x =
    (let d = fe_data x;
         given = \<not> (w_lower d \<le> 0 \<or> w_upper d < w_lower d);
         lower = (if given then w_lower d else ev_time (fe_event x));
         upper = (if given then w_upper d else lower);
         half = quot_int (i64 (upper - lower)) 2;
         estimate = (if w_estimate d < lower \<or> w_estimate d > upper then i64 (lower + half)
           else w_estimate d);
         uncertainty = (if w_uncertainty d \<le> 0 then half else w_uncertainty d);
         source = (if w_timing_source d = [] then ''SERVER_EVENT_POINT'' else w_timing_source d)
     in (lower, upper, estimate, uncertainty, source))"

definition readiness_edge :: "string \<Rightarrow> bool" where
  "readiness_edge r \<longleftrightarrow> r = ''WEAPON_RAISED'' \<or> r = ''ADS_ENTERED'' \<or> r = ''OPTICS_ENTERED''"

fun readiness_outcome :: "flat_event \<Rightarrow> observation \<Rightarrow> string list \<Rightarrow> flat_event list \<Rightarrow> outcome_result" where
  "readiness_outcome origin ob ids [] = \<lparr>or_observed = False, or_estimate = 0, or_lower = 0,
     or_upper = 0, or_uncertainty = 0, or_timing = [], or_authority = [], or_sources = ids\<rparr>"
| "readiness_outcome origin ob ids (x # xs) =
    (let none = \<lparr>or_observed = False, or_estimate = 0, or_lower = 0,
       or_upper = 0, or_uncertainty = 0, or_timing = [], or_authority = [], or_sources = ids\<rparr>
     in if \<not> same_session origin x then none
     else if ev_time (fe_event x) > i64 (ob_closed ob + 5000) then none
     else if ev_player_session (fe_event x) \<noteq> ob_observer ob \<or> ev_type (fe_event x) \<noteq> ''DECISION_EDGE''
     then readiness_outcome origin ob ids xs
     else if \<not> readiness_edge (w_reason (fe_data x)) then readiness_outcome origin ob ids xs
     else (case event_interval x of (lower, upper, estimate, uncertainty, source) \<Rightarrow>
       if upper < ob_started ob \<or> lower > ob_closed ob then readiness_outcome origin ob ids xs
       else \<lparr>or_observed = True, or_estimate = estimate, or_lower = lower, or_upper = upper,
         or_uncertainty = uncertainty, or_timing = source,
         or_authority = ev_authority (fe_event x), or_sources = ids @ [fe_id x]\<rparr>))"

fun first_exposure :: "flat_event \<Rightarrow> observation \<Rightarrow> string \<Rightarrow> string list \<Rightarrow> flat_event list \<Rightarrow> exposure_result" where
  "first_exposure origin ob target ids [] = \<lparr>xr_estimate = 0, xr_lower = 0, xr_upper = 0,
     xr_cause = ''UNKNOWN'', xr_censored = True, xr_sources = ids\<rparr>"
| "first_exposure origin ob target ids (x # xs) =
    (let none = \<lparr>xr_estimate = 0, xr_lower = 0, xr_upper = 0,
       xr_cause = ''UNKNOWN'', xr_censored = True, xr_sources = ids\<rparr>
     in if \<not> same_session origin x then none
     else if ev_time (fe_event x) > i64 (ob_started ob + 30000) then none
     else if ev_player_session (fe_event x) \<noteq> ob_observer ob \<or>
       ev_type (fe_event x) \<noteq> ''VISIBILITY_OBSERVATION'' \<or> w_target (fe_data x) \<noteq> target \<or>
       w_stream (fe_data x) \<noteq> ''event_enrichment'' then first_exposure origin ob target ids xs
     else if \<not> exposed_class (w_class (fe_data x)) then first_exposure origin ob target ids xs
     else
       (let lower = (if w_probe_started (fe_data x) \<le> 0 then ev_time (fe_event x)
              else w_probe_started (fe_data x));
            upper = (if w_probe_completed (fe_data x) < lower then lower
              else w_probe_completed (fe_data x))
        in \<lparr>xr_estimate = i64 (lower + quot_int (i64 (upper - lower)) 2), xr_lower = lower,
          xr_upper = upper, xr_cause = ''UNKNOWN'', xr_censored = False,
          xr_sources = ids @ [fe_id x]\<rparr>))"

subsection \<open>One observation\<close>

definition timing_policy_text :: "build_config \<Rightarrow> string" where
  "timing_policy_text c = bc_timing_policy c @ '':max-queue-'' @ show_int (bc_max_queue_delay c) @
     ''ms:max-event-uncertainty-'' @ show_int (bc_max_uncertainty c) @ ''ms''"

definition timing_eligible :: "build_config \<Rightarrow> observation \<Rightarrow> bool" where
  "timing_eligible c ob \<longleftrightarrow> 0 \<le> ob_queue_delay ob \<and> ob_queue_delay ob \<le> bc_max_queue_delay c \<and>
     \<not> (ob_outcome ob \<and> ob_uncertainty ob > bc_max_uncertainty c)"

definition strong_hidden :: "observation \<Rightarrow> bool" where
  "strong_hidden ob \<longleftrightarrow> ob_class ob = ''ROBUSTLY_OCCLUDED'' \<and> ob_authority ob = ''A'' \<and>
     validated_first_person (ob_origin ob) \<and> ob_validation ob \<noteq> [] \<and> ob_occlusion_ms ob > 0 \<and>
     ob_timing_ok ob \<and> ob_target_prob ob > 0 \<and> ob_queue_prob ob > 0"

definition control_observation :: "observation \<Rightarrow> bool" where
  "control_observation ob \<longleftrightarrow> ob_class ob = ''NO_RELEVANT_TARGET'' \<and> ob_authority ob = ''A'' \<and>
     ob_timing_ok ob \<and> ob_queue_prob ob > 0"

definition positive_control :: "observation \<Rightarrow> bool" where
  "positive_control ob \<longleftrightarrow> exposed_class (ob_class ob) \<and> ob_authority ob = ''A'' \<and> ob_timing_ok ob \<and>
     ob_target_prob ob > 0 \<and> ob_queue_prob ob > 0"

text \<open>The observation as first filled from the opportunity event and its cue.\<close>

definition opportunity :: "build_config \<Rightarrow> flat_event \<Rightarrow> int \<Rightarrow> string \<times> cue_fact option \<Rightarrow> observation" where
  "opportunity c x started cue =
    (let d = fe_data x; b = fe_batch x; e = fe_event x;
         target_session = (if w_target_session d = [] \<and> w_target d \<noteq> []
           then ba_session b @ '':'' @ w_target d else w_target_session d)
     in \<lparr>ob_id = [], ob_opportunity = fe_id x, ob_decision_window = [], ob_refractory_window = [],
       ob_encounter = [], ob_episode = [], ob_session = ba_session b, ob_server = ba_server b,
       ob_map = w_map d, ob_area = w_area d, ob_observer = ev_player_session e,
       ob_target = target_session, ob_target_key = target_identity_key (w_target d) target_session,
       ob_started = started, ob_closed = i64 (started + bc_decision c), ob_stream = w_stream d,
       ob_policy = w_policy d, ob_class = w_class d, ob_authority = ev_authority e,
       ob_origin = w_origin d, ob_outcome_type = ''READINESS'', ob_outcome = False,
       ob_outcome_ms = 0, ob_outcome_lower = 0, ob_outcome_upper = 0, ob_uncertainty = 0,
       ob_timing_source = [], ob_outcome_authority = [], ob_cue_class = fst cue,
       ob_independent = True, ob_strong = False, ob_control = False, ob_positive = False,
       ob_control_kind = control_kind (w_class d) (w_control d), ob_timing_ok = False,
       ob_timing_policy = [], ob_occlusion_ms = w_occlusion d, ob_validation = w_validation d,
       ob_exposure_ms = 0, ob_exposure_lower = 0, ob_exposure_upper = 0, ob_exposure_cause = [],
       ob_exposure_censored = False, ob_target_prob = w_target_prob d, ob_queue_prob = w_queue_prob d,
       ob_queue_delay = w_queue_delay d, ob_distance_band = distance_band (w_distance d),
       ob_movement_band = movement_band (w_speed d), ob_stance = w_stance d, ob_weapon = w_weapon d,
       ob_camera = w_camera d, ob_population_band = population_band (w_population d),
       ob_sources = (case snd cue of None \<Rightarrow> [fe_id x] | Some f \<Rightarrow> [fe_id x, cf_source f]),
       ob_cues = (case snd cue of None \<Rightarrow> [] | Some f \<Rightarrow> [f])\<rparr>)"

definition with_outcome :: "outcome_result \<Rightarrow> observation \<Rightarrow> observation" where
  "with_outcome r ob = ob\<lparr>ob_outcome := or_observed r, ob_outcome_ms := or_estimate r,
     ob_outcome_lower := or_lower r, ob_outcome_upper := or_upper r,
     ob_uncertainty := or_uncertainty r, ob_timing_source := or_timing r,
     ob_outcome_authority := or_authority r, ob_sources := or_sources r\<rparr>"

definition with_exposure :: "exposure_result option \<Rightarrow> observation \<Rightarrow> observation" where
  "with_exposure r ob = (case r of
      None \<Rightarrow> ob\<lparr>ob_exposure_cause := ''NOT_APPLICABLE'', ob_exposure_censored := True\<rparr>
    | Some x \<Rightarrow> ob\<lparr>ob_exposure_ms := xr_estimate x, ob_exposure_lower := xr_lower x,
        ob_exposure_upper := xr_upper x, ob_exposure_cause := xr_cause x,
        ob_exposure_censored := xr_censored x, ob_sources := xr_sources x\<rparr>)"

definition with_eligibility :: "build_config \<Rightarrow> observation \<Rightarrow> observation" where
  "with_eligibility c ob =
    (let t = ob\<lparr>ob_timing_ok := timing_eligible c ob, ob_timing_policy := timing_policy_text c\<rparr>
     in t\<lparr>ob_strong := strong_hidden t, ob_control := control_observation t,
       ob_positive := positive_control t,
       ob_decision_window := stable_id [''window'', ob_opportunity t],
       ob_refractory_window := stable_id [''refractory'', ob_observer t,
         show_int (quot_int (ob_started t) (bc_refractory c))],
       ob_id := stable_id [''observation'', ob_opportunity t, builder_version]\<rparr>)"

definition started_ms :: "flat_event \<Rightarrow> int" where
  "started_ms x = (if w_probe_started (fe_data x) \<le> 0 then ev_time (fe_event x)
    else w_probe_started (fe_data x))"

definition observe :: "build_config \<Rightarrow> flat_event list \<Rightarrow> nat \<Rightarrow> observation" where
  "observe c events k =
    (let x = events ! k; started = started_ms x; target = w_target (fe_data x);
         later = drop (Suc k) events;
         ob = opportunity c x started
           (cue_class events k x (ev_player_session (fe_event x)) target started);
         ob1 = with_outcome (readiness_outcome x ob (ob_sources ob) later) ob;
         ob2 = with_exposure (if target \<noteq> []
           then Some (first_exposure x ob1 target (ob_sources ob1) later) else None) ob1
     in with_eligibility c ob2)"

subsection \<open>Episodes and independence\<close>

record pair_state =
  ps_last :: int
  ps_episode :: int
  ps_encounter :: int

type_synonym independence_state =
  "(string \<rightharpoonup> int) \<times> (string \<rightharpoonup> pair_state)"

definition assign_one :: "build_config \<Rightarrow> independence_state \<Rightarrow> observation \<Rightarrow>
    independence_state \<times> observation" where
  "assign_one c st ob = (case st of (lasts, groups) \<Rightarrow>
    (let pair = ob_observer ob @ ''|'' @ ob_target ob;
         g = (case groups pair of None \<Rightarrow> \<lparr>ps_last = 0, ps_episode = 0, ps_encounter = 0\<rparr> | Some g \<Rightarrow> g);
         gap = i64 (ob_started ob - ps_last g);
         episode = (if ps_last g = 0 \<or> gap > bc_episode_gap c then i64 (ps_episode g + 1) else ps_episode g);
         encounter = (if ps_last g = 0 \<or> gap > bc_encounter_gap c then i64 (ps_encounter g + 1)
           else ps_encounter g);
         g' = \<lparr>ps_last = ob_started ob, ps_episode = episode, ps_encounter = encounter\<rparr>;
         ob1 = ob\<lparr>ob_episode := stable_id [''episode'', pair, show_int episode, independence_version],
           ob_encounter := stable_id [''encounter'', pair, show_int encounter, independence_version]\<rparr>;
         refractory = (case lasts (ob_observer ob) of
             None \<Rightarrow> False | Some prev \<Rightarrow> i64 (ob_started ob - prev) < bc_refractory c)
     in if refractory then
          ((lasts, groups(pair \<mapsto> g')), ob1\<lparr>ob_independent := False, ob_strong := False,
             ob_control := False, ob_positive := False\<rparr>)
        else ((lasts(ob_observer ob \<mapsto> ob_started ob), groups(pair \<mapsto> g')), ob1)))"

primrec assign_from :: "build_config \<Rightarrow> independence_state \<Rightarrow> observation list \<Rightarrow> observation list" where
  "assign_from c st [] = []"
| "assign_from c st (ob # obs) = (case assign_one c st ob of (st', ob') \<Rightarrow> ob' # assign_from c st' obs)"

definition assign_independence :: "build_config \<Rightarrow> observation list \<Rightarrow> observation list" where
  "assign_independence c obs = assign_from c (Map.empty, Map.empty) obs"

subsection \<open>Build\<close>

definition valid_build_config :: "build_config \<Rightarrow> bool" where
  "valid_build_config c \<longleftrightarrow> \<not> (bc_decision c \<le> 0 \<or> bc_refractory c \<le> 0 \<or> bc_episode_gap c \<le> 0 \<or>
     bc_encounter_gap c \<le> 0 \<or> bc_max_queue_delay c \<le> 0 \<or> bc_timing_policy c = [])"

definition build_events :: "build_config \<Rightarrow> flat_event list \<Rightarrow> observation list" where
  "build_events c events = assign_independence c
     (map (observe c events) (filter (\<lambda>k. is_opportunity (events ! k)) [0..<length events]))"

datatype build_error = BadDurations | BadPayload

definition build :: "batch list \<Rightarrow> build_config \<Rightarrow> build_error + observation list" where
  "build batches c =
    (if \<not> valid_build_config c then Inl BadDurations
     else
       (let c' = (if bc_max_uncertainty c \<le> 0 then c\<lparr>bc_max_uncertainty := 500\<rparr> else c)
        in case flatten batches of
          None \<Rightarrow> Inl BadPayload
        | Some events \<Rightarrow> Inr (build_events c' events)))"

subsection \<open>Lemmas on one observation\<close>

lemma eligibility_cong:
  "strong_hidden (ob\<lparr>ob_strong := a\<rparr>) = strong_hidden ob" "strong_hidden (ob\<lparr>ob_control := a\<rparr>) = strong_hidden ob"
  "strong_hidden (ob\<lparr>ob_positive := a\<rparr>) = strong_hidden ob"
  "control_observation (ob\<lparr>ob_strong := a\<rparr>) = control_observation ob"
  "control_observation (ob\<lparr>ob_control := a\<rparr>) = control_observation ob"
  "control_observation (ob\<lparr>ob_positive := a\<rparr>) = control_observation ob"
  "positive_control (ob\<lparr>ob_strong := a\<rparr>) = positive_control ob"
  "positive_control (ob\<lparr>ob_control := a\<rparr>) = positive_control ob"
  "positive_control (ob\<lparr>ob_positive := a\<rparr>) = positive_control ob"
  by (simp_all add: strong_hidden_def control_observation_def positive_control_def)

lemma with_eligibility_flags:
  fixes ob c defines "ob' \<equiv> with_eligibility c ob"
  shows "ob_strong ob' = strong_hidden ob'" "ob_control ob' = control_observation ob'"
    "ob_positive ob' = positive_control ob'" "ob_timing_ok ob' = timing_eligible c ob'"
    "ob_independent ob' = ob_independent ob" "ob_observer ob' = ob_observer ob"
    "ob_started ob' = ob_started ob" "ob_closed ob' = ob_closed ob" "ob_outcome ob' = ob_outcome ob"
    "ob_outcome_lower ob' = ob_outcome_lower ob" "ob_outcome_upper ob' = ob_outcome_upper ob"
    "ob_outcome_ms ob' = ob_outcome_ms ob" "ob_session ob' = ob_session ob" "ob_server ob' = ob_server ob"
    "ob_sources ob' = ob_sources ob" "ob_cue_class ob' = ob_cue_class ob" "ob_cues ob' = ob_cues ob"
    "ob_target ob' = ob_target ob" "ob_uncertainty ob' = ob_uncertainty ob"
  by (simp_all add: ob'_def with_eligibility_def Let_def strong_hidden_def control_observation_def
      positive_control_def timing_eligible_def)

lemma with_exposure_frame [simp]:
  "ob_independent (with_exposure r ob) = ob_independent ob" "ob_observer (with_exposure r ob) = ob_observer ob"
  "ob_started (with_exposure r ob) = ob_started ob" "ob_closed (with_exposure r ob) = ob_closed ob"
  "ob_outcome (with_exposure r ob) = ob_outcome ob" "ob_outcome_lower (with_exposure r ob) = ob_outcome_lower ob"
  "ob_outcome_upper (with_exposure r ob) = ob_outcome_upper ob" "ob_outcome_ms (with_exposure r ob) = ob_outcome_ms ob"
  "ob_uncertainty (with_exposure r ob) = ob_uncertainty ob"
  "ob_session (with_exposure r ob) = ob_session ob" "ob_server (with_exposure r ob) = ob_server ob"
  "ob_cue_class (with_exposure r ob) = ob_cue_class ob" "ob_cues (with_exposure r ob) = ob_cues ob"
  by (simp_all add: with_exposure_def split: option.split)

lemma with_outcome_frame [simp]:
  "ob_independent (with_outcome r ob) = ob_independent ob" "ob_observer (with_outcome r ob) = ob_observer ob"
  "ob_started (with_outcome r ob) = ob_started ob" "ob_closed (with_outcome r ob) = ob_closed ob"
  "ob_session (with_outcome r ob) = ob_session ob" "ob_server (with_outcome r ob) = ob_server ob"
  "ob_cue_class (with_outcome r ob) = ob_cue_class ob" "ob_cues (with_outcome r ob) = ob_cues ob"
  "ob_outcome (with_outcome r ob) = or_observed r" "ob_outcome_lower (with_outcome r ob) = or_lower r"
  "ob_outcome_upper (with_outcome r ob) = or_upper r" "ob_outcome_ms (with_outcome r ob) = or_estimate r"
  "ob_uncertainty (with_outcome r ob) = or_uncertainty r"
  by (simp_all add: with_outcome_def)

lemma opportunity_fields [simp]:
  "ob_independent (opportunity c x t cue)" "ob_observer (opportunity c x t cue) = ev_player_session (fe_event x)"
  "ob_started (opportunity c x t cue) = t" "ob_closed (opportunity c x t cue) = i64 (t + bc_decision c)"
  "ob_session (opportunity c x t cue) = ba_session (fe_batch x)"
  "ob_server (opportunity c x t cue) = ba_server (fe_batch x)"
  "ob_cue_class (opportunity c x t cue) = fst cue"
  by (simp_all add: opportunity_def Let_def)

lemma observe_fields:
  fixes c events k defines "ob \<equiv> observe c events k"
  shows "ob_independent ob" "ob_strong ob = strong_hidden ob" "ob_control ob = control_observation ob"
    "ob_positive ob = positive_control ob" "ob_timing_ok ob = timing_eligible c ob"
    "ob_observer ob = ev_player_session (fe_event (events ! k))" "ob_started ob = started_ms (events ! k)"
    "ob_closed ob = i64 (started_ms (events ! k) + bc_decision c)"
    "ob_session ob = ba_session (fe_batch (events ! k))" "ob_server ob = ba_server (fe_batch (events ! k))"
  unfolding ob_def observe_def Let_def by (simp_all add: with_eligibility_flags)

subsection \<open>Lemmas on independence\<close>

lemma assign_one_shape:
  assumes "assign_one c st ob = (st', ob')"
  shows "\<exists>e n. ob' = ob\<lparr>ob_episode := e, ob_encounter := n\<rparr> \<or>
    ob' = ob\<lparr>ob_episode := e, ob_encounter := n, ob_independent := False, ob_strong := False,
      ob_control := False, ob_positive := False\<rparr>"
proof -
  obtain lasts groups where st: "st = (lasts, groups)" by (metis surj_pair)
  show ?thesis
    using assms unfolding st assign_one_def Let_def prod.case
    by (cases "case lasts (ob_observer ob) of None \<Rightarrow> False
        | Some prev \<Rightarrow> i64 (ob_started ob - prev) < bc_refractory c") (simp_all, blast+)
qed

lemma assign_one_frame:
  assumes "assign_one c st ob = (st', ob')"
  shows "ob_started ob' = ob_started ob" "ob_observer ob' = ob_observer ob" "ob_closed ob' = ob_closed ob"
    "ob_class ob' = ob_class ob" "ob_authority ob' = ob_authority ob" "ob_origin ob' = ob_origin ob"
    "ob_validation ob' = ob_validation ob" "ob_occlusion_ms ob' = ob_occlusion_ms ob"
    "ob_timing_ok ob' = ob_timing_ok ob" "ob_target_prob ob' = ob_target_prob ob"
    "ob_queue_prob ob' = ob_queue_prob ob" "ob_queue_delay ob' = ob_queue_delay ob"
    "ob_outcome ob' = ob_outcome ob" "ob_uncertainty ob' = ob_uncertainty ob"
    "ob_outcome_lower ob' = ob_outcome_lower ob" "ob_outcome_upper ob' = ob_outcome_upper ob"
    "ob_outcome_ms ob' = ob_outcome_ms ob" "ob_session ob' = ob_session ob" "ob_server ob' = ob_server ob"
    "ob_strong ob' \<Longrightarrow> ob_strong ob" "ob_control ob' \<Longrightarrow> ob_control ob" "ob_positive ob' \<Longrightarrow> ob_positive ob"
    "ob_independent ob \<Longrightarrow> ob_strong ob' \<or> ob_control ob' \<or> ob_positive ob' \<Longrightarrow> ob_independent ob'"
  using assign_one_shape[OF assms] by auto

lemma assign_one_independent:
  assumes "assign_one c (lasts, groups) ob = ((lasts', groups'), ob')" "ob_independent ob"
  shows "if ob_independent ob'
    then lasts' = lasts(ob_observer ob \<mapsto> ob_started ob) \<and>
      (\<forall>prev. lasts (ob_observer ob) = Some prev \<longrightarrow> bc_refractory c \<le> i64 (ob_started ob - prev))
    else lasts' = lasts"
  using assms by (auto simp: assign_one_def Let_def split: if_splits option.splits)

lemma length_assign_from [simp]: "length (assign_from c st obs) = length obs"
  by (induction obs arbitrary: st) (auto split: prod.splits)

lemma assign_from_nth:
  "k < length obs \<Longrightarrow> \<exists>st1 st2. assign_one c st1 (obs ! k) = (st2, assign_from c st obs ! k)"
proof (induction obs arbitrary: st k)
  case (Cons ob obs)
  obtain st' ob' where one: "assign_one c st ob = (st', ob')" by (metis surj_pair)
  show ?case
  proof (cases k)
    case 0
    then show ?thesis using one by (intro exI[of _ st] exI[of _ st']) simp
  next
    case (Suc k')
    then show ?thesis using Cons.IH[of k' st'] Cons.prems one by simp
  qed
qed simp

text \<open>Independent observations of one observer are at least the refractory time apart.\<close>

lemma assign_from_spacing:
  assumes pos: "0 < bc_refractory c"
    and "\<forall>ob \<in> set obs. ob_independent ob \<and> 0 \<le> ob_started ob \<and> in_i64 (ob_started ob)"
    and "\<forall>o' prev. lasts o' = Some prev \<longrightarrow> 0 \<le> prev \<and> in_i64 prev"
  shows "sorted_wrt (\<lambda>x y. ob_observer x = ob_observer y \<longrightarrow> bc_refractory c \<le> ob_started y - ob_started x)
      (filter ob_independent (assign_from c (lasts, groups) obs)) \<and>
    (\<forall>y \<in> set (filter ob_independent (assign_from c (lasts, groups) obs)). \<forall>prev.
      lasts (ob_observer y) = Some prev \<longrightarrow> bc_refractory c \<le> ob_started y - prev)"
  using assms(2-)
proof (induction obs arbitrary: lasts groups)
  case Nil
  then show ?case by simp
next
  case (Cons ob obs)
  obtain lasts' groups' ob' where one: "assign_one c (lasts, groups) ob = ((lasts', groups'), ob')"
    by (metis surj_pair)
  note frame = assign_one_frame(1,2)[OF one]
  have ob: "ob_independent ob" "0 \<le> ob_started ob" "in_i64 (ob_started ob)" using Cons.prems(1) by auto
  note ind = assign_one_independent[OF one ob(1)]
  have wrap: "i64 (ob_started ob - prev) = ob_started ob - prev" if "lasts (ob_observer ob) = Some prev" for prev
  proof -
    have "0 \<le> prev" "in_i64 prev" using Cons.prems(2) that by blast+
    then show ?thesis using ob by (intro i64_id) (auto simp: in_i64_def)
  qed
  have "\<forall>o' prev. lasts' o' = Some prev \<longrightarrow> 0 \<le> prev \<and> in_i64 prev"
    using ind Cons.prems(2) ob by (auto split: if_splits)
  note IH = Cons.IH[OF _ this, of groups']
  have spaced: "bc_refractory c \<le> ob_started y - prev"
    if "y \<in> set (filter ob_independent (assign_from c (lasts', groups') obs))"
      "lasts' (ob_observer y) = Some prev" for y prev
    using IH Cons.prems(1) that by (meson list.set_intros(2))
  let ?rest = "filter ob_independent (assign_from c (lasts', groups') obs)"
  have tail: "sorted_wrt (\<lambda>x y. ob_observer x = ob_observer y \<longrightarrow>
      bc_refractory c \<le> ob_started y - ob_started x) ?rest"
    using IH Cons.prems(1) by simp
  show ?case
  proof (cases "ob_independent ob'")
    case True
    then have lasts': "lasts' = lasts(ob_observer ob \<mapsto> ob_started ob)"
      and gap: "\<And>prev. lasts (ob_observer ob) = Some prev \<Longrightarrow> bc_refractory c \<le> ob_started ob - prev"
      using ind wrap by auto
    have "bc_refractory c \<le> ob_started y - prev"
      if "y \<in> set ?rest" "lasts (ob_observer y) = Some prev" for y prev
    proof (cases "ob_observer y = ob_observer ob")
      case same: True
      then have "bc_refractory c \<le> ob_started y - ob_started ob"
        using spaced[OF that(1)] lasts' by simp
      then show ?thesis using gap[of prev] same that pos by simp
    next
      case False
      then show ?thesis using spaced[OF that(1), of prev] that(2) lasts' by simp
    qed
    then have later: "\<forall>y \<in> set ?rest. \<forall>prev. lasts (ob_observer y) = Some prev \<longrightarrow>
        bc_refractory c \<le> ob_started y - prev" by blast
    have "\<forall>y \<in> set ?rest. ob_observer ob' = ob_observer y \<longrightarrow>
        bc_refractory c \<le> ob_started y - ob_started ob'"
      using spaced lasts' frame by auto
    moreover have "filter ob_independent (assign_from c (lasts, groups) (ob # obs)) = ob' # ?rest"
      using True one by simp
    ultimately show ?thesis using tail later gap frame by simp
  next
    case False
    then have "filter ob_independent (assign_from c (lasts, groups) (ob # obs)) = ?rest" "lasts' = lasts"
      using one ind by simp_all
    then show ?thesis using tail spaced by simp
  qed
qed

subsection \<open>Lemmas on the event stream\<close>

lemma collect_some_conv: "collect_some xs = (if None \<in> set xs then None else Some (map the xs))"
  by (induction xs rule: collect_some.induct) auto

interpretation flat_order: comparison flat_before
  unfolding flat_before_def
  by (intro comparison_lex comparison_key)

definition batch_events :: "batch list \<Rightarrow> (batch \<times> event) list" where
  "batch_events batches = concat (map (\<lambda>b. map (Pair b) (ba_events b)) batches)"

definition event_key :: "batch \<times> event \<Rightarrow> string \<times> string \<times> int \<times> 64 word" where
  "event_key be = (ba_server (fst be), ba_session (fst be), ev_time (snd be), ev_sequence (snd be))"

lemma flatten_events:
  "flatten batches = map_option (sort_by flat_before) (collect_some (map (\<lambda>(b, e). flat_of b e) (batch_events batches)))"
  by (simp add: flatten_def batch_events_def map_concat comp_def)

lemma flat_of_Some:
  assumes "flat_of b e = Some x"
  shows "fe_batch x = b" "fe_event x = e" "ev_payload e = [] \<and> fe_data x = zero_wire \<or>
    unmarshal_wire (ev_payload e) = Some (fe_data x)"
  using assms by (auto simp: flat_of_def split: option.splits if_splits)

lemma flatten_set:
  assumes "flatten batches = Some events" "x \<in> set events"
  shows "fe_batch x \<in> set batches" "fe_event x \<in> set (ba_events (fe_batch x))"
    "flat_of (fe_batch x) (fe_event x) = Some x"
proof -
  obtain b e where "b \<in> set batches" "e \<in> set (ba_events b)" "flat_of b e = Some x"
    using assms by (auto simp: flatten_events collect_some_conv batch_events_def image_iff split: if_splits)
      (metis option.collapse)
  with flat_of_Some[OF this(3)] show "fe_batch x \<in> set batches"
    "fe_event x \<in> set (ba_events (fe_batch x))" "flat_of (fe_batch x) (fe_event x) = Some x" by auto
qed

lemma flatten_mset:
  assumes "mset batches' = mset batches" "distinct (map event_key (batch_events batches))"
  shows "flatten batches' = flatten batches"
proof -
  let ?f = "\<lambda>(b, e). flat_of b e"
  have m: "mset (batch_events batches') = mset (batch_events batches)"
  proof -
    have "mset (batch_events bs) = sum_mset (image_mset (\<lambda>b. mset (map (Pair b) (ba_events b))) (mset bs))"
      for bs
      by (simp add: batch_events_def mset_concat comp_def sum_mset_sum_list flip: mset_map)
    then show ?thesis by (simp only: assms(1))
  qed
  then have sets: "set (batch_events batches') = set (batch_events batches)" by (metis set_mset_mset)
  show ?thesis
  proof (cases "None \<in> set (map ?f (batch_events batches))")
    case True
    then show ?thesis using sets by (auto simp: flatten_events collect_some_conv)
  next
    case False
    have pick: "\<exists>b e. (b, e) \<in> set (batch_events batches) \<and> flat_of b e = Some x"
      if x: "x \<in> set (map the (map ?f (batch_events batches)))" for x
    proof -
      obtain be where "be \<in> set (batch_events batches)" "x = the (?f be)" using x by auto
      then have "flat_of (fst be) (snd be) = Some x" "(fst be, snd be) \<in> set (batch_events batches)"
        using False by (auto simp: case_prod_beta image_iff)
      then show ?thesis by blast
    qed
    have "sort_by flat_before (map the (map ?f (batch_events batches))) =
        sort_by flat_before (map the (map ?f (batch_events batches')))"
    proof (rule flat_order.sort_by_mset_cong)
      show "mset (map the (map ?f (batch_events batches))) = mset (map the (map ?f (batch_events batches')))"
        using m by (simp add: mset_map)
    next
      fix x y
      assume x: "x \<in> set (map the (map ?f (batch_events batches)))"
        and y: "y \<in> set (map the (map ?f (batch_events batches)))"
        and tie: "\<not> flat_before x y" "\<not> flat_before y x"
      obtain bx ex where bx: "(bx, ex) \<in> set (batch_events batches)" "flat_of bx ex = Some x"
        using pick[OF x] by blast
      obtain b_y ey where b_y: "(b_y, ey) \<in> set (batch_events batches)" "flat_of b_y ey = Some y"
        using pick[OF y] by blast
      have "event_key (bx, ex) = event_key (b_y, ey)"
        using tie flat_of_Some[OF bx(2)] flat_of_Some[OF b_y(2)]
        by (auto simp: flat_before_def event_key_def split: if_splits)
      then have "(bx, ex) = (b_y, ey)"
        using assms(2) bx(1) b_y(1) unfolding distinct_map by (meson inj_onD)
      then show "x = y" using bx(2) b_y(2) by simp
    qed
    then show ?thesis using False sets by (auto simp: flatten_events collect_some_conv)
  qed
qed

lemma decode_member_P:
  assumes "decode_member conv name ms z = Some v" "P z" "\<And>j w. conv j = Some w \<Longrightarrow> P w"
  shows "P v"
  using assms(1)
  unfolding decode_member_def
proof (induction ms arbitrary: v rule: rev_induct)
  case Nil
  then show ?case using assms(2) by simp
next
  case (snoc kj ms)
  then show ?case using assms(3) by (cases kj) (auto split: if_splits option.splits)
qed

lemma decode_member_filter:
  "decode_member conv name ms z = decode_member conv name (filter (\<lambda>(k, j). equal_fold k name) ms) z"
  unfolding decode_member_def by (induction ms rule: rev_induct) (auto simp: case_prod_beta)

lemma decode_member_absent:
  "filter (\<lambda>(k, j). equal_fold k name) ms = [] \<Longrightarrow> decode_member conv name ms z = Some z"
  by (subst decode_member_filter) simp

lemma decode_member_one:
  assumes "filter (\<lambda>(k, j). equal_fold k name) ms = [(k, j)]" "j \<noteq> JNull"
  shows "decode_member conv name ms z = conv j"
proof -
  have "(k, j) \<in> set (filter (\<lambda>(k, j). equal_fold k name) ms)" by (simp add: assms(1))
  then have "equal_fold k name" by simp
  then show ?thesis by (subst decode_member_filter) (simp add: assms decode_member_def)
qed

lemma vis_present:
  "filter (\<lambda>(k, j). equal_fold k ''target_player_id'') vis_members = [(''target_player_id'', JStr ''b'')]"
  "filter (\<lambda>(k, j). equal_fold k ''classification'') vis_members = [(''classification'', JStr ''ROBUSTLY_OCCLUDED'')]"
  "filter (\<lambda>(k, j). equal_fold k ''observer_origin_mode'') vis_members = [(''observer_origin_mode'', JStr ''FIRST_PERSON_EYE'')]"
  "filter (\<lambda>(k, j). equal_fold k ''sampling_stream'') vis_members = [(''sampling_stream'', JStr ''random_opportunity'')]"
  "filter (\<lambda>(k, j). equal_fold k ''sampling_policy_version'') vis_members = [(''sampling_policy_version'', JStr ''v'')]"
  "filter (\<lambda>(k, j). equal_fold k ''sampling_reason'') vis_members = [(''sampling_reason'', JStr ''r'')]"
  "filter (\<lambda>(k, j). equal_fold k ''target_inclusion_probability'') vis_members = [(''target_inclusion_probability'', JNum ''1'')]"
  "filter (\<lambda>(k, j). equal_fold k ''queue_admission_probability'') vis_members = [(''queue_admission_probability'', JNum ''1'')]"
  "filter (\<lambda>(k, j). equal_fold k ''probe_started_ms'') vis_members = [(''probe_started_ms'', JNum ''5'')]"
  "filter (\<lambda>(k, j). equal_fold k ''probe_completed_ms'') vis_members = [(''probe_completed_ms'', JNum ''6'')]"
  "filter (\<lambda>(k, j). equal_fold k ''occlusion_duration_ms'') vis_members = [(''occlusion_duration_ms'', JNum ''400'')]"
  "filter (\<lambda>(k, j). equal_fold k ''visibility_validation_id'') vis_members = [(''visibility_validation_id'', JStr ''w'')]"
  by code_simp+

lemma vis_absent:
  "list_all (\<lambda>name. filter (\<lambda>(k, j). equal_fold k name) vis_members = [])
    [''target_player_session_id'', ''queue_delay_ms'', ''source_player_id'', ''map_id'', ''area_cell'',
     ''target_distance_metres'', ''observer_speed_mps'', ''observer_stance_id'', ''baseline_weapon_state'',
     ''camera_mode'', ''server_population_count'', ''control_type'', ''event_time_lower_ms'',
     ''event_time_upper_ms'', ''event_time_estimate_ms'', ''event_time_uncertainty_ms'', ''event_timing_source'']"
  by code_simp

definition vis_wire :: wire where
  "vis_wire = zero_wire\<lparr>w_target := ''b'', w_class := ''ROBUSTLY_OCCLUDED'', w_origin := ''FIRST_PERSON_EYE'',
     w_stream := ''random_opportunity'', w_policy := ''v'', w_reason := ''r'', w_target_prob := 1,
     w_queue_prob := 1, w_probe_started := 5, w_probe_completed := 6, w_occlusion := 400,
     w_validation := ''w''\<rparr>"

lemma parse_samples: "parse_int64 ''5'' = Some 5" "parse_int64 ''6'' = Some 6" "parse_int64 ''400'' = Some 400"
  by code_simp+

lemma unmarshal_vis: "unmarshal_wire vis_payload = Some vis_wire"
  using vis_absent
  by (simp add: unmarshal_wire_def vis_payload_text decode_wire_def vis_present[THEN decode_member_one]
      decode_member_absent conv_string_def conv_float_def conv_int64_def num_real_samples float_fits_def
      parse_samples vis_wire_def zero_wire_def)

lemma conv_int64_range: "conv_int64 j = Some v \<Longrightarrow> in_i64 v"
  by (auto simp: conv_int64_def parse_int64_def Let_def split: json.splits if_splits)

lemma decode_int64_range:
  "decode_member conv_int64 name ms 0 = Some v \<Longrightarrow> in_i64 v"
  by (rule decode_member_P[where P = in_i64 and z = 0])
    (auto intro: conv_int64_range simp: in_i64_def[of 0])

lemma decode_wire_upper: "decode_wire ms = Some d \<Longrightarrow> in_i64 (w_upper d)"
  unfolding decode_wire_def
  by (auto simp: bind_eq_Some_conv intro: decode_int64_range)

lemma w_upper_zero [simp]: "w_upper zero_wire = 0"
  by (simp add: zero_wire_def)

lemma unmarshal_wire_upper: "unmarshal_wire s = Some d \<Longrightarrow> in_i64 (w_upper d)"
  by (auto simp: unmarshal_wire_def in_i64_def[of 0] split: option.splits json.splits
      intro: decode_wire_upper)

lemma flat_upper:
  assumes "flat_of b e = Some x" shows "in_i64 (w_upper (fe_data x))"
  using flat_of_Some(3)[OF assms] by (auto intro: unmarshal_wire_upper simp: in_i64_def[of 0])

lemma interval_half:
  assumes "l = u \<or> 0 < l \<and> l < u" "in_i64 u"
  shows "quot_int (i64 (u - l)) 2 = (u - l) div 2" "0 \<le> (u - l) div 2" "l < u \<Longrightarrow> i64 (l + (u - l) div 2) = l + (u - l) div 2"
    "l + (u - l) div 2 \<le> u"
proof -
  have "i64 (u - l) = u - l" using assms by (intro i64_id) (auto simp: in_i64_def)
  then show "quot_int (i64 (u - l)) 2 = (u - l) div 2" using assms by (auto simp: quot_int_nonneg)
  show le: "l + (u - l) div 2 \<le> u" and nonneg: "0 \<le> (u - l) div 2" using assms by auto
  show "i64 (l + (u - l) div 2) = l + (u - l) div 2" if "l < u"
    using that assms le nonneg by (intro i64_id) (auto simp: in_i64_def)
qed

lemma event_interval_point:
  assumes "event_interval x = (l, u, m, n, src)" "w_lower (fe_data x) \<le> 0 \<or> w_upper (fe_data x) < w_lower (fe_data x)"
  shows "l = ev_time (fe_event x)" "u = l" "m = i64 l \<or> m = l" "n = 0 \<or> 0 < n"
proof -
  have "quot_int (i64 0) 2 = 0" by (simp add: i64_def quot_int_def)
  then show "l = ev_time (fe_event x)" "u = l" "m = i64 l \<or> m = l" "n = 0 \<or> 0 < n"
    using assms by (auto simp: event_interval_def Let_def split: if_splits)
qed

lemma event_interval_given:
  assumes "event_interval x = (l, u, m, n, src)" "\<not> (w_lower (fe_data x) \<le> 0 \<or> w_upper (fe_data x) < w_lower (fe_data x))"
  shows "l = w_lower (fe_data x)" "u = w_upper (fe_data x)"
    "m = i64 (l + quot_int (i64 (u - l)) 2) \<or> l \<le> m \<and> m \<le> u" "n = quot_int (i64 (u - l)) 2 \<or> 0 < n"
proof -
  let ?d = "fe_data x"
  have e: "(w_lower ?d, w_upper ?d,
      (if w_estimate ?d < w_lower ?d \<or> w_estimate ?d > w_upper ?d
       then i64 (w_lower ?d + quot_int (i64 (w_upper ?d - w_lower ?d)) 2) else w_estimate ?d),
      (if w_uncertainty ?d \<le> 0 then quot_int (i64 (w_upper ?d - w_lower ?d)) 2 else w_uncertainty ?d)) = (l, u, m, n)"
    using assms(1) unfolding event_interval_def Let_def if_P[OF assms(2)] by blast
  then show l: "l = w_lower ?d" and u: "u = w_upper ?d" by blast+
  show "m = i64 (l + quot_int (i64 (u - l)) 2) \<or> l \<le> m \<and> m \<le> u"
    using e unfolding l u prod.inject by (metis linorder_not_less)
  show "n = quot_int (i64 (u - l)) 2 \<or> 0 < n"
    using e unfolding l u prod.inject by (metis linorder_not_less)
qed

lemma event_interval_bounds:
  assumes iv: "event_interval x = (l, u, m, n, src)"
    and rng: "in_i64 (w_upper (fe_data x))" "in_i64 (ev_time (fe_event x))"
  shows "l \<le> m \<and> m \<le> u \<and> 0 \<le> n"
proof (cases "w_lower (fe_data x) \<le> 0 \<or> w_upper (fe_data x) < w_lower (fe_data x)")
  case True
  then show ?thesis using event_interval_point[OF iv True] rng(2) i64_id by fastforce
next
  case False
  note g = event_interval_given[OF iv False]
  have lu: "l = u \<or> 0 < l \<and> l < u" "in_i64 u" using g(1,2) False rng(1) by auto
  have "in_i64 l" using lu by (auto simp: in_i64_def)
  then have "i64 (l + (u - l) div 2) = l + (u - l) div 2"
    using interval_half(3)[OF lu] lu(1) by (cases "l < u") (auto simp: i64_id)
  then show ?thesis using g(3,4) interval_half(1,2,4)[OF lu] lu(1) by auto
qed

lemma readiness_observed:
  assumes "or_observed (readiness_outcome origin ob ids xs)"
  shows "\<exists>x \<in> set xs. same_session origin x \<and> ev_player_session (fe_event x) = ob_observer ob \<and>
    ev_type (fe_event x) = ''DECISION_EDGE'' \<and> readiness_edge (w_reason (fe_data x)) \<and>
    (case event_interval x of (l, u, m, n, src) \<Rightarrow> ob_started ob \<le> u \<and> l \<le> ob_closed ob \<and>
      or_lower (readiness_outcome origin ob ids xs) = l \<and> or_upper (readiness_outcome origin ob ids xs) = u \<and>
      or_estimate (readiness_outcome origin ob ids xs) = m)"
  using assms
proof (induction xs)
  case (Cons x xs)
  obtain l u m n src where iv: "event_interval x = (l, u, m, n, src)" by (metis prod_cases5)
  show ?case
  proof (cases "readiness_outcome origin ob ids (x # xs) = readiness_outcome origin ob ids xs")
    case True
    then show ?thesis using Cons by simp
  next
    case False
    then show ?thesis
      using Cons.prems iv by (auto simp: Let_def split: if_splits)
  qed
qed simp

lemma decode_wire_started: "decode_wire ms = Some d \<Longrightarrow> in_i64 (w_probe_started d)"
  unfolding decode_wire_def
  by (auto simp: bind_eq_Some_conv intro: decode_int64_range)

lemma unmarshal_wire_started: "unmarshal_wire s = Some d \<Longrightarrow> in_i64 (w_probe_started d)"
  by (auto simp: unmarshal_wire_def zero_wire_def in_i64_def[of 0] split: option.splits json.splits
      intro: decode_wire_started)

lemma flat_started:
  assumes "flat_of b e = Some x" "0 \<le> ev_time e" "in_i64 (ev_time e)"
  shows "0 \<le> started_ms x" "in_i64 (started_ms x)"
proof -
  have "in_i64 (w_probe_started (fe_data x))"
    using flat_of_Some(3)[OF assms(1)]
    by (auto intro: unmarshal_wire_started simp: zero_wire_def in_i64_def[of 0])
  then show "0 \<le> started_ms x" "in_i64 (started_ms x)"
    using assms(2,3) flat_of_Some(2)[OF assms(1)] by (auto simp: started_ms_def)
qed

lemma observe_source:
  fixes c events k defines "ob \<equiv> observe c events k"
  shows "ob_authority ob = ev_authority (fe_event (events ! k))"
    "ob_class ob = w_class (fe_data (events ! k))" "ob_origin ob = w_origin (fe_data (events ! k))"
    "ob_validation ob = w_validation (fe_data (events ! k))"
    "ob_occlusion_ms ob = w_occlusion (fe_data (events ! k))"
    "ob_target_prob ob = w_target_prob (fe_data (events ! k))"
    "ob_queue_prob ob = w_queue_prob (fe_data (events ! k))"
    "ob_queue_delay ob = w_queue_delay (fe_data (events ! k))"
  by (simp_all add: ob_def observe_def Let_def with_eligibility_def with_exposure_def
      with_outcome_def opportunity_def split: option.split)

lemma observe_outcome:
  fixes c events k defines "ob \<equiv> observe c events k"
  shows "\<exists>ob0 ids. ob_observer ob0 = ob_observer ob \<and> ob_started ob0 = ob_started ob \<and>
    ob_closed ob0 = ob_closed ob \<and>
    (let r = readiness_outcome (events ! k) ob0 ids (drop (Suc k) events)
     in ob_outcome ob = or_observed r \<and> ob_outcome_ms ob = or_estimate r \<and>
       ob_outcome_lower ob = or_lower r \<and> ob_outcome_upper ob = or_upper r \<and>
       ob_uncertainty ob = or_uncertainty r)"
proof -
  let ?x = "events ! k"
  let ?ob0 = "opportunity c ?x (started_ms ?x)
    (cue_class events k ?x (ev_player_session (fe_event ?x)) (w_target (fe_data ?x)) (started_ms ?x))"
  show ?thesis
    unfolding ob_def observe_def Let_def
    by (rule exI[of _ ?ob0], rule exI[of _ "ob_sources ?ob0"]) (simp add: with_eligibility_flags)
qed

text \<open>The configuration \<open>Build\<close> works with, and where each of its observations comes from.\<close>

definition effective_config :: "build_config \<Rightarrow> build_config" where
  "effective_config c = (if bc_max_uncertainty c \<le> 0 then c\<lparr>bc_max_uncertainty := 500\<rparr> else c)"

lemma build_Inr:
  assumes "build batches c = Inr obs"
  obtains events where "flatten batches = Some events" "obs = build_events (effective_config c) events"
    "0 < bc_refractory c"
  using assms by (auto simp: build_def effective_config_def Let_def valid_build_config_def
      split: if_splits option.splits)

lemma build_member:
  assumes "build batches c = Inr obs" "ob \<in> set obs"
  obtains events k st1 st2 where "flatten batches = Some events" "k < length events"
    "is_opportunity (events ! k)" "assign_one (effective_config c) st1 (observe (effective_config c) events k) = (st2, ob)"
proof -
  obtain events where ev: "flatten batches = Some events" "obs = build_events (effective_config c) events"
    using build_Inr[OF assms(1)] by metis
  let ?ks = "filter (\<lambda>k. is_opportunity (events ! k)) [0..<length events]"
  obtain i where i: "i < length obs" "obs ! i = ob" using assms(2) by (metis in_set_conv_nth)
  then have "i < length ?ks" by (simp add: ev(2) build_events_def assign_independence_def)
  then have k: "?ks ! i < length events" "is_opportunity (events ! (?ks ! i))"
    using nth_mem[of i ?ks] by auto
  obtain st1 st2 where "assign_one (effective_config c) st1 (observe (effective_config c) events (?ks ! i)) = (st2, ob)"
    using assign_from_nth[of i "map (observe (effective_config c) events) ?ks" "effective_config c"
        "(Map.empty, Map.empty)"] \<open>i < length ?ks\<close> i(2)
    by (auto simp: ev(2) build_events_def assign_independence_def)
  then show ?thesis using that ev(1) k by blast
qed

end
