(* ===== verification/Evidence.thy ===== *)
theory Evidence
  imports Observations
begin

section \<open>What an observation is worth\<close>

text \<open>
  The properties of \<open>Build\<close> as a whole: the evidence behind the eligibility flags and the outcomes,
  the refractory rule, independence of the order of the batches; and a small scene of two events
  on which they are exercised.
\<close>

subsection \<open>A small scene, for examples\<close>

definition edge_payload :: string where
  "edge_payload = json_object [json_field ''sampling_reason'' (json_quote ''WEAPON_RAISED'')]"

definition edge_event :: event where
  "edge_event = sample_event\<lparr>ev_type := ''DECISION_EDGE'', ev_sequence := 2, ev_time := 1200,
     ev_authority := AuthorityServer, ev_payload := edge_payload\<rparr>"

definition scene :: batch where
  "scene = vis_batch\<lparr>ba_events := ba_events vis_batch @ [edge_event]\<rparr>"

definition scene_stream :: "flat_event list" where
  "scene_stream = [\<lparr>fe_batch = scene, fe_event = hd (ba_events vis_batch), fe_id = ''ss:1'', fe_data = vis_wire\<rparr>,
     \<lparr>fe_batch = scene, fe_event = edge_event, fe_id = ''ss:2'',
       fe_data = zero_wire\<lparr>w_reason := ''WEAPON_RAISED''\<rparr>\<rparr>]"

lemma edge_payload_text: "json_text edge_payload = Some (JObj [(''sampling_reason'', JStr ''WEAPON_RAISED'')])"
  by code_simp

lemma edge_present: "list_all (\<lambda>name. filter (\<lambda>(k, j). equal_fold k name) [(''sampling_reason'', JStr ''WEAPON_RAISED'')] =
   (if name = ''sampling_reason'' then [(''sampling_reason'', JStr ''WEAPON_RAISED'')] else []))
    [''target_player_id'', ''target_player_session_id'', ''classification'', ''observer_origin_mode'',
     ''sampling_stream'', ''sampling_policy_version'', ''sampling_reason'', ''target_inclusion_probability'',
     ''queue_admission_probability'', ''queue_delay_ms'', ''probe_started_ms'', ''probe_completed_ms'',
     ''source_player_id'', ''map_id'', ''area_cell'', ''target_distance_metres'', ''observer_speed_mps'',
     ''observer_stance_id'', ''baseline_weapon_state'', ''camera_mode'', ''server_population_count'',
     ''occlusion_duration_ms'', ''visibility_validation_id'', ''control_type'', ''event_time_lower_ms'',
     ''event_time_upper_ms'', ''event_time_estimate_ms'', ''event_time_uncertainty_ms'', ''event_timing_source'']"
  by code_simp

lemma unmarshal_edge: "unmarshal_wire edge_payload = Some (zero_wire\<lparr>w_reason := ''WEAPON_RAISED''\<rparr>)"
proof -
  have one: "decode_member conv_string ''sampling_reason'' [(''sampling_reason'', JStr ''WEAPON_RAISED'')] [] =
      Some ''WEAPON_RAISED''"
    by (subst decode_member_one) (use edge_present in \<open>auto simp: conv_string_def\<close>)
  show ?thesis
    using edge_present
    by (simp add: unmarshal_wire_def edge_payload_text decode_wire_def one decode_member_absent zero_wire_def)
qed

lemma flatten_scene: "flatten [scene] = Some scene_stream"
proof -
  have "edge_payload \<noteq> []" by (simp add: edge_payload_def json_object_def)
  then have "collect_some (concat (map (\<lambda>b. map (flat_of b) (ba_events b)) [scene])) = Some scene_stream"
    using vis_payload_nonempty
    by (simp add: scene_def vis_batch_def edge_event_def flat_of_def unmarshal_vis unmarshal_edge
       scene_stream_def event_id_def sample_event_def zero_event_def sample_batch_def digits.simps digit_def)
  moreover have "sort_by flat_before scene_stream = scene_stream"
    by (simp add: scene_stream_def flat_before_def scene_def vis_batch_def sample_event_def edge_event_def)
  ultimately show ?thesis by (simp add: flatten_def)
qed

lemma scene_times: "b \<in> set [scene] \<Longrightarrow> e \<in> set (ba_events b) \<Longrightarrow> 0 \<le> ev_time e \<and> in_i64 (ev_time e)"
  by (auto simp: scene_def vis_batch_def sample_event_def edge_event_def in_i64_def)

lemma scene_first:
  "ev_player_session (fe_event (scene_stream ! 0)) = ''ss:p1''" "started_ms (scene_stream ! 0) = 5"
  "i64 (5 + bc_decision default_build_config) = 5005"
  by (simp_all add: scene_stream_def vis_batch_def sample_event_def started_ms_def vis_wire_def
      default_build_config_def i64_def)

lemma scene_wire:
  "w_class (fe_data (scene_stream ! 0)) = ''ROBUSTLY_OCCLUDED''" "w_origin (fe_data (scene_stream ! 0)) = ''FIRST_PERSON_EYE''"
  "w_validation (fe_data (scene_stream ! 0)) = ''w''" "w_occlusion (fe_data (scene_stream ! 0)) = 400"
  "w_target_prob (fe_data (scene_stream ! 0)) = 1" "w_queue_prob (fe_data (scene_stream ! 0)) = 1"
  "w_queue_delay (fe_data (scene_stream ! 0)) = 0" "ev_authority (fe_event (scene_stream ! 0)) = AuthorityServer"
  by (simp_all add: scene_stream_def vis_wire_def zero_wire_def vis_batch_def)

lemma build_scene:
  obtains obs ob where "build [scene] default_build_config = Inr obs" "obs = [ob]" "ob_strong ob" "ob_outcome ob"
    "ob_independent ob" "ob_observer ob = ''ss:p1''"
proof -
  let ?c = default_build_config and ?xs = scene_stream
  let ?ob = "observe ?c ?xs 0"
  have len: "length ?xs = Suc (Suc 0)" by (simp add: scene_stream_def)
  have opp: "is_opportunity (?xs ! 0)" "\<not> is_opportunity (?xs ! 1)"
    by (simp_all add: scene_stream_def is_opportunity_def vis_wire_def edge_event_def zero_wire_def vis_batch_def)
  have built: "build [scene] ?c = Inr (build_events ?c ?xs)"
    by (simp add: build_def valid_build_config_def default_build_config_def Let_def flatten_scene)
  obtain st ob where one: "assign_one ?c (Map.empty, Map.empty) ?ob = (st, ob)" by (metis surj_pair)
  have obs: "build_events ?c ?xs = [ob]"
    using opp by (simp add: build_events_def assign_independence_def one len)
  obtain lasts groups where st: "st = (lasts, groups)" by (metis surj_pair)
  obtain ob0 ids where ob0: "ob_observer ob0 = ''ss:p1''" "ob_started ob0 = 5" "ob_closed ob0 = 5005"
    and r: "let r = readiness_outcome (?xs ! 0) ob0 ids (drop (Suc 0) ?xs)
     in ob_outcome ?ob = or_observed r \<and> ob_uncertainty ?ob = or_uncertainty r"
    using observe_outcome[of ?c ?xs 0] unfolding observe_fields scene_first Let_def by metis
  have "readiness_outcome (?xs ! 0) ob0 ids (drop (Suc 0) ?xs) =
      \<lparr>or_observed = True, or_estimate = 1200, or_lower = 1200, or_upper = 1200, or_uncertainty = 0,
        or_timing = ''SERVER_EVENT_POINT'', or_authority = ''A'', or_sources = ids @ [''ss:2'']\<rparr>"
    by (simp add: scene_stream_def same_session_def edge_event_def ob0 readiness_edge_def event_interval_def
        zero_wire_def i64_def quot_int_def sample_event_def)
  then have out: "ob_outcome ?ob" "ob_uncertainty ?ob = 0" using r by (simp_all add: Let_def)
  have "timing_eligible ?c ?ob"
    unfolding timing_eligible_def out observe_source scene_wire by (simp add: default_build_config_def out)
  then have "strong_hidden ?ob"
    unfolding strong_hidden_def observe_source observe_fields(5) scene_wire
    by (simp add: validated_first_person_def)
  then have start: "ob_independent ?ob" "ob_strong ?ob" "ob_outcome ?ob" "ob_observer ?ob = ''ss:p1''"
    using out by (simp_all add: observe_fields scene_first)
  have "ob_independent ob \<and> ob_strong ob"
    using one start by (auto simp: assign_one_def Let_def)
  then show ?thesis using that[of "[ob]" ob] built obs assign_one_frame[OF one] start by simp
qed

text \<open>
  Claim C11 [eligible_evidence]: every observation that \<open>Build\<close> returns comes from a sampling opportunity of
  the given batches and carries its authority and classification. It is flagged as strong hidden
  evidence, as a control or as a positive control only if it is independent, has server authority,
  was probed within the queue delay bound, has a known queue admission probability and, when an
  outcome was seen, a time known to within the uncertainty bound; and each flag implies the
  classification (and, for hidden evidence, the validated view, the validation id and a positive
  occlusion time) that it stands for.
\<close>

theorem eligible_evidence:
  assumes "build batches c = Inr obs" "ob \<in> set obs"
  shows "\<exists>b \<in> set batches. \<exists>e \<in> set (ba_events b). \<exists>x. flat_of b e = Some x \<and> is_opportunity x \<and>
    ob_authority ob = ev_authority e \<and> ob_class ob = w_class (fe_data x) \<and>
    (ob_strong ob \<or> ob_control ob \<or> ob_positive ob \<longrightarrow>
      ob_independent ob \<and> ob_authority ob = ''A'' \<and> 0 \<le> ob_queue_delay ob \<and>
      ob_queue_delay ob \<le> bc_max_queue_delay c \<and> 0 < ob_queue_prob ob \<and>
      (ob_outcome ob \<longrightarrow> ob_uncertainty ob \<le> (if bc_max_uncertainty c \<le> 0 then 500 else bc_max_uncertainty c))) \<and>
    (ob_strong ob \<longrightarrow> ob_class ob = ''ROBUSTLY_OCCLUDED'' \<and> validated_first_person (ob_origin ob) \<and>
      ob_validation ob \<noteq> [] \<and> 0 < ob_occlusion_ms ob \<and> 0 < ob_target_prob ob) \<and>
    (ob_control ob \<longrightarrow> ob_class ob = ''NO_RELEVANT_TARGET'') \<and>
    (ob_positive ob \<longrightarrow> exposed_class (ob_class ob) \<and> 0 < ob_target_prob ob)"
proof -
  obtain events k st1 st2 where ev: "flatten batches = Some events" "k < length events"
    "is_opportunity (events ! k)"
    and one: "assign_one (effective_config c) st1 (observe (effective_config c) events k) = (st2, ob)"
    using build_member[OF assms] by metis
  note src = flatten_set[OF ev(1) nth_mem[OF ev(2)]]
  let ?o = "observe (effective_config c) events k"
  note frame = assign_one_frame[OF one] and obs = observe_fields[of "effective_config c" events k]
    and orig = observe_source[of "effective_config c" events k]
  have "strong_hidden ob = strong_hidden ?o" "control_observation ob = control_observation ?o"
    "positive_control ob = positive_control ?o"
    by (simp_all add: strong_hidden_def control_observation_def positive_control_def frame(4-11))
  then have flags: "ob_strong ob \<Longrightarrow> strong_hidden ob" "ob_control ob \<Longrightarrow> control_observation ob"
    "ob_positive ob \<Longrightarrow> positive_control ob" using frame(20-22) obs(2-4) by blast+
  have timing: "timing_eligible (effective_config c) ob" if "ob_timing_ok ob"
    using that obs(5) by (simp add: frame(9,12-14) timing_eligible_def)
  have independent: "ob_independent ob" if "ob_strong ob \<or> ob_control ob \<or> ob_positive ob"
    using frame(23) obs(1) that by blast
  have "ob_authority ob = ''A'' \<and> ob_timing_ok ob \<and> 0 < ob_queue_prob ob"
    if "ob_strong ob \<or> ob_control ob \<or> ob_positive ob"
    using that flags unfolding strong_hidden_def control_observation_def positive_control_def by blast
  moreover have "0 \<le> ob_queue_delay ob \<and> ob_queue_delay ob \<le> bc_max_queue_delay c \<and>
      (ob_outcome ob \<longrightarrow> ob_uncertainty ob \<le> (if bc_max_uncertainty c \<le> 0 then 500 else bc_max_uncertainty c))"
    if "ob_timing_ok ob"
    using timing[OF that] by (auto simp: timing_eligible_def effective_config_def split: if_splits)
  moreover have "ob_strong ob \<longrightarrow> ob_class ob = ''ROBUSTLY_OCCLUDED'' \<and> validated_first_person (ob_origin ob) \<and>
      ob_validation ob \<noteq> [] \<and> 0 < ob_occlusion_ms ob \<and> 0 < ob_target_prob ob"
    "ob_control ob \<longrightarrow> ob_class ob = ''NO_RELEVANT_TARGET''"
    "ob_positive ob \<longrightarrow> exposed_class (ob_class ob) \<and> 0 < ob_target_prob ob"
    using flags unfolding strong_hidden_def control_observation_def positive_control_def by blast+
  moreover have "ob_authority ob = ev_authority (fe_event (events ! k))" "ob_class ob = w_class (fe_data (events ! k))"
    by (simp_all add: frame(4,5) orig)
  ultimately show ?thesis using src ev(3) independent by blast
qed

theorem eligible_evidence_witness:
  "\<exists>obs ob. build [scene] default_build_config = Inr obs \<and> ob \<in> set obs \<and> ob_strong ob \<and>
    ob_independent ob \<and> ob_queue_delay ob \<le> 250 \<and> ob_validation ob \<noteq> []"
proof -
  obtain obs ob where b: "build [scene] default_build_config = Inr obs" "obs = [ob]" "ob_strong ob"
    using build_scene by metis
  then have "ob \<in> set obs" by simp
  from eligible_evidence[OF b(1) this] b(3)
  have "ob_independent ob \<and> ob_queue_delay ob \<le> bc_max_queue_delay default_build_config \<and> ob_validation ob \<noteq> []"
    by blast
  then show ?thesis using b \<open>ob \<in> set obs\<close> by (auto simp: default_build_config_def)
qed

text \<open>
  Claim C12 [independent_spacing]: the refractory rule. In the order of the stream, any two independent
  observations of the same observer start at least \<open>RefractoryMS\<close> apart (not only neighbours), so
  one moment of play cannot be counted twice.
\<close>

theorem independent_spacing:
  assumes "build batches c = Inr obs"
    and "\<forall>b \<in> set batches. \<forall>e \<in> set (ba_events b). 0 \<le> ev_time e \<and> in_i64 (ev_time e)"
  shows "sorted_wrt (\<lambda>x y. ob_observer x = ob_observer y \<longrightarrow> bc_refractory c \<le> ob_started y - ob_started x)
    (filter ob_independent obs)"
proof -
  let ?c = "effective_config c"
  obtain events where ev: "flatten batches = Some events" "obs = build_events ?c events" "0 < bc_refractory c"
    using build_Inr[OF assms(1)] by metis
  let ?obs = "map (observe ?c events) (filter (\<lambda>k. is_opportunity (events ! k)) [0..<length events])"
  have "\<forall>ob \<in> set ?obs. ob_independent ob \<and> 0 \<le> ob_started ob \<and> in_i64 (ob_started ob)"
  proof
    fix ob assume "ob \<in> set ?obs"
    then obtain k where k: "k < length events" "ob = observe ?c events k" by auto
    note src = flatten_set[OF ev(1) nth_mem[OF k(1)]]
    show "ob_independent ob \<and> 0 \<le> ob_started ob \<and> in_i64 (ob_started ob)"
      using flat_started[OF src(3)] assms(2) src(1,2) by (simp add: k(2) observe_fields)
  qed
  moreover have "bc_refractory ?c = bc_refractory c" by (simp add: effective_config_def)
  ultimately show ?thesis
    using assign_from_spacing[of ?c ?obs Map.empty Map.empty] ev(3)
    by (simp add: ev(2) build_events_def assign_independence_def)
qed

theorem independent_spacing_witness:
  "\<exists>obs. build [scene] default_build_config = Inr obs \<and> filter ob_independent obs \<noteq> [] \<and>
    sorted_wrt (\<lambda>x y. ob_observer x = ob_observer y \<longrightarrow> 5000 \<le> ob_started y - ob_started x)
      (filter ob_independent obs)"
proof -
  obtain obs ob where b: "build [scene] default_build_config = Inr obs" "obs = [ob]" "ob_independent ob"
    using build_scene by metis
  have "bc_refractory default_build_config = 5000" by (simp add: default_build_config_def)
  then have "sorted_wrt (\<lambda>x y. ob_observer x = ob_observer y \<longrightarrow> 5000 \<le> ob_started y - ob_started x)
      (filter ob_independent obs)"
    using independent_spacing[OF b(1)] scene_times by simp
  then show ?thesis using b by auto
qed



text \<open>
  Claim C14 [build_order_independent]: \<open>Build\<close> does not depend on the order in which the batches were
  read. When no two events of a session share both time and sequence number, any permutation of
  the batches gives the same observations, or the same error.
\<close>

theorem build_order_independent:
  assumes "mset batches' = mset batches" "distinct (map event_key (batch_events batches))"
  shows "build batches' c = build batches c"
  by (simp add: build_def flatten_mset[OF assms])

theorem build_order_independent_witness:
  "build [(sample_batch 3)\<lparr>ba_session := ''tt''\<rparr>, scene] default_build_config =
    build [scene, (sample_batch 3)\<lparr>ba_session := ''tt''\<rparr>] default_build_config"
  by (rule build_order_independent)
    (simp_all add: batch_events_def event_key_def scene_def vis_batch_def sample_batch_def zero_batch_def
      sample_event_def edge_event_def)

end
