(* ===== verification/Audio.thy ===== *)
theory Audio
  imports GoStrings
begin

section \<open>The audibility model (\<open>internal/audio/model.go\<close>)\<close>

text \<open>
  \<open>ClassifyGunshot\<close> and \<open>ClassifyFootstep\<close> map a distance and what is known of the sound to one of
  four classes. A distance is a finite number of metres or not finite (NaN or an infinity), which the
  code treats as one case; ranges and speeds are exact reals.
\<close>

datatype audibility = NotAudible | Possible | Likely | Strong

datatype metres = Finite real | NonFinite

record audio_result =
  ar_class :: audibility
  ar_likely :: real
  ar_maximum :: real
  ar_version :: string

definition audio_version :: string where "audio_version = ''server-derived-audio-v1''"

definition classify :: "metres \<Rightarrow> real \<Rightarrow> real \<Rightarrow> real \<Rightarrow> audio_result" where
  "classify distance strong likely maximum =
    \<lparr>ar_class = (case distance of
        NonFinite \<Rightarrow> NotAudible
      | Finite d \<Rightarrow>
          if d < 0 then NotAudible
          else if strong > 0 \<and> d \<le> strong then Strong
          else if d \<le> likely then Likely
          else if d \<le> maximum then Possible
          else NotAudible),
     ar_likely = likely, ar_maximum = maximum, ar_version = audio_version\<rparr>"

definition classify_gunshot :: "metres \<Rightarrow> bool \<Rightarrow> audio_result" where
  "classify_gunshot distance suppressed =
    (if suppressed then classify distance 60 160 350 else classify distance 300 900 1800)"

definition surface_multiplier :: "string \<Rightarrow> real" where
  "surface_multiplier value = (let v = to_lower value in
    if contains_any v [''metal'', ''concrete'', ''asphalt'', ''road'', ''gravel'', ''wood'', ''floor'', ''stone'']
    then 1.25
    else if contains_any v [''grass'', ''forest'', ''soil'', ''dirt'', ''sand'', ''snow'', ''moss''] then 0.8
    else 1)"

definition footwear_multiplier :: "string \<Rightarrow> real" where
  "footwear_multiplier value = (let v = to_lower (trim_space value) in
    if v = [] \<or> contains_any v [''barefoot'', ''none''] then 0.75
    else if contains_any v [''boot'', ''combat'', ''hiking'', ''wellies''] then 1.1
    else 1)"

definition speed_range :: "real \<Rightarrow> real" where
  "speed_range v = (if v \<ge> 4.5 then 24 else if v \<ge> 2.5 then 16 else if v \<ge> 1.2 then 9 else 4)"

definition stance_factor :: "string \<Rightarrow> real" where
  "stance_factor s = (let stance = to_upper s in
    if str_contains stance ''PRONE'' then 0.45 else if str_contains stance ''CROUCH'' then 0.7 else 1)"

record footstep =
  fs_distance :: metres
  fs_speed :: real
  fs_stance :: string
  fs_surface :: string
  fs_footwear :: string

definition likely_range :: "footstep \<Rightarrow> real" where
  "likely_range i = speed_range (fs_speed i) * stance_factor (fs_stance i) *
     surface_multiplier (fs_surface i) * footwear_multiplier (fs_footwear i)"

definition classify_footstep :: "footstep \<Rightarrow> audio_result" where
  "classify_footstep i =
    (if fs_speed i < 0.25 then \<lparr>ar_class = NotAudible, ar_likely = 0, ar_maximum = 0, ar_version = audio_version\<rparr>
     else classify (fs_distance i) 0 (likely_range i) (likely_range i * 1.75))"

subsection \<open>Order and ranges\<close>

fun audibility_rank :: "audibility \<Rightarrow> nat" where
  "audibility_rank NotAudible = 0"
| "audibility_rank Possible = 1"
| "audibility_rank Likely = 2"
| "audibility_rank Strong = 3"

instantiation audibility :: linorder
begin

definition less_eq_audibility :: "audibility \<Rightarrow> audibility \<Rightarrow> bool" where
  "less_eq_audibility a b \<longleftrightarrow> audibility_rank a \<le> audibility_rank b"

definition less_audibility :: "audibility \<Rightarrow> audibility \<Rightarrow> bool" where
  "less_audibility a b \<longleftrightarrow> audibility_rank a < audibility_rank b"

instance
proof
  fix a b :: audibility
  show "a \<le> b \<Longrightarrow> b \<le> a \<Longrightarrow> a = b"
    by (cases a; cases b) (simp_all add: less_eq_audibility_def)
qed (auto simp: less_eq_audibility_def less_audibility_def)

end

lemmas audibility_order = less_eq_audibility_def less_audibility_def

lemma classify_simps [simp]:
  "ar_likely (classify d s l m) = l" "ar_maximum (classify d s l m) = m"
  "ar_version (classify d s l m) = audio_version"
  by (simp_all add: classify_def)

lemma classify_mono:
  assumes "0 \<le> d" "d \<le> d'" "s' \<le> s" "l' \<le> l" "m' \<le> m" "s \<le> l" "l \<le> m" "s' \<le> l'" "l' \<le> m'"
  shows "ar_class (classify (Finite d') s' l' m') \<le> ar_class (classify (Finite d) s l m)"
  using assms by (auto simp: classify_def audibility_order)

lemma factor_bounds:
  "0.75 \<le> footwear_multiplier f" "footwear_multiplier f \<le> 1.1"
  "0.8 \<le> surface_multiplier u" "surface_multiplier u \<le> 1.25"
  "0.45 \<le> stance_factor s" "stance_factor s \<le> 1"
  "4 \<le> speed_range v" "speed_range v \<le> 24"
  by (auto simp: footwear_multiplier_def surface_multiplier_def stance_factor_def speed_range_def Let_def)

lemma speed_range_mono: "v \<le> w \<Longrightarrow> speed_range v \<le> speed_range w"
  by (auto simp: speed_range_def)

lemma likely_range_pos: "0 < likely_range i"
  using factor_bounds(1)[of "fs_footwear i"] factor_bounds(3)[of "fs_surface i"]
    factor_bounds(5)[of "fs_stance i"] factor_bounds(7)[of "fs_speed i"]
  by (simp add: likely_range_def)

lemma likely_range_le: "likely_range i \<le> 33"
proof -
  note fb = factor_bounds
  have "speed_range (fs_speed i) * stance_factor (fs_stance i) \<le> 24 * 1"
    using fb(5)[of "fs_stance i"] fb(6)[of "fs_stance i"] fb(7)[of "fs_speed i"] fb(8)[of "fs_speed i"]
    by (intro mult_mono) auto
  moreover have "surface_multiplier (fs_surface i) * footwear_multiplier (fs_footwear i) \<le> 1.25 * 1.1"
    using fb(1)[of "fs_footwear i"] fb(2)[of "fs_footwear i"] fb(3)[of "fs_surface i"] fb(4)[of "fs_surface i"]
    by (intro mult_mono) auto
  moreover have "(0 :: real) \<le> 24 * 1" by simp
  moreover have "0 \<le> surface_multiplier (fs_surface i) * footwear_multiplier (fs_footwear i)"
    using fb(1)[of "fs_footwear i"] fb(3)[of "fs_surface i"] by simp
  ultimately have "(speed_range (fs_speed i) * stance_factor (fs_stance i)) *
      (surface_multiplier (fs_surface i) * footwear_multiplier (fs_footwear i)) \<le> (24 * 1) * (1.25 * 1.1)"
    by (rule mult_mono)
  then show ?thesis by (simp add: likely_range_def mult.assoc)
qed

lemma gunshot_order:
  assumes "0 \<le> d" "d \<le> d'" "suppressed \<longrightarrow> suppressed'"
  shows "ar_class (classify_gunshot (Finite d') suppressed') \<le> ar_class (classify_gunshot (Finite d) suppressed)"
  using assms unfolding classify_gunshot_def by (auto intro!: classify_mono)

lemma classify_footstep_order:
  assumes "0 \<le> d" "d \<le> d'" "v' \<le> v"
  shows "ar_class (classify_footstep (i\<lparr>fs_distance := Finite d', fs_speed := v'\<rparr>)) \<le>
    ar_class (classify_footstep (i\<lparr>fs_distance := Finite d, fs_speed := v\<rparr>))"
proof (cases "v' < 0.25")
  case True
  then show ?thesis by (simp add: classify_footstep_def audibility_order)
next
  case False
  let ?i = "i\<lparr>fs_distance := Finite d, fs_speed := v\<rparr>" and ?j = "i\<lparr>fs_distance := Finite d', fs_speed := v'\<rparr>"
  have "0 \<le> stance_factor (fs_stance i) * surface_multiplier (fs_surface i) * footwear_multiplier (fs_footwear i)"
    using factor_bounds(1)[of "fs_footwear i"] factor_bounds(3)[of "fs_surface i"]
      factor_bounds(5)[of "fs_stance i"] by simp
  then have "likely_range ?j \<le> likely_range ?i"
    using mult_right_mono[OF speed_range_mono[OF assms(3)]] by (simp add: likely_range_def mult.assoc)
  then show ?thesis
    using False assms likely_range_pos[of ?i] likely_range_pos[of ?j]
    by (auto simp: classify_footstep_def intro!: classify_mono)
qed

lemma classify_footstep_range:
  assumes "ar_class (classify_footstep i) \<noteq> NotAudible"
  shows "\<exists>d. fs_distance i = Finite d \<and> 0 \<le> d \<and> d \<le> 57.75 \<and> ar_class (classify_footstep i) \<noteq> Strong"
  using assms likely_range_le[of i] likely_range_pos[of i]
  by (auto simp: classify_footstep_def classify_def split: if_splits metres.splits)

text \<open>
  Claim C33 [audibility_antitone]: the model never rewards distance. A sound farther away, a shot
  that becomes suppressed, or a slower step of the same player on the same surface, is never put in
  a stronger class; a footstep is never a strong cue and is inaudible beyond 57.75 m; and a negative
  or non-finite distance is inaudible.
\<close>

theorem audibility_antitone:
  assumes "0 \<le> d" "d \<le> d'" "suppressed \<longrightarrow> suppressed'" "v' \<le> v"
  shows "ar_class (classify_gunshot (Finite d') suppressed') \<le> ar_class (classify_gunshot (Finite d) suppressed) \<and>
    ar_class (classify_footstep (i\<lparr>fs_distance := Finite d', fs_speed := v'\<rparr>)) \<le>
      ar_class (classify_footstep (i\<lparr>fs_distance := Finite d, fs_speed := v\<rparr>)) \<and>
    (57.75 < d' \<longrightarrow> ar_class (classify_footstep (i\<lparr>fs_distance := Finite d'\<rparr>)) = NotAudible) \<and>
    ar_class (classify_footstep i) \<noteq> Strong \<and> ar_class (classify_gunshot NonFinite suppressed) = NotAudible"
proof (intro conjI impI)
  show "ar_class (classify_gunshot NonFinite suppressed) = NotAudible"
    by (simp add: classify_gunshot_def classify_def)
  show "ar_class (classify_footstep i) \<noteq> Strong"
    using classify_footstep_range[of i] by (cases "ar_class (classify_footstep i)") auto
  show "57.75 < d' \<Longrightarrow> ar_class (classify_footstep (i\<lparr>fs_distance := Finite d'\<rparr>)) = NotAudible"
    using classify_footstep_range[of "i\<lparr>fs_distance := Finite d'\<rparr>"] by force
qed (fact gunshot_order[OF assms(1-3)] classify_footstep_order[OF assms(1,2,4)])+

theorem audibility_antitone_witness:
  "ar_class (classify_gunshot (Finite 350) True) = Possible \<and> ar_class (classify_gunshot (Finite 300) False) = Strong \<and>
    ar_class (classify_gunshot (Finite 350) True) \<le> ar_class (classify_gunshot (Finite 300) False)"
  using audibility_antitone[of 300 350 False True 1 2]
  by (simp add: classify_gunshot_def classify_def)

end
