(* ===== verification/GoMath.thy ===== *)
theory GoMath
  imports Complex_Main
begin

section \<open>The functions of Go's \<open>math\<close> package that the program calls, on exact reals\<close>

text \<open>
  Rounding of floating-point results, NaN and infinities are not modelled here; where the program
  tests for them, the theory that uses the value says how it treats them.
\<close>

text \<open>\<open>math.Atan2\<close>.\<close>

definition go_atan2 :: "real \<Rightarrow> real \<Rightarrow> real" where
  "go_atan2 y x = (if x > 0 then arctan (y / x)
    else if x < 0 then (if y \<ge> 0 then arctan (y / x) + pi else arctan (y / x) - pi)
    else if y > 0 then pi / 2 else if y < 0 then - (pi / 2) else 0)"

text \<open>\<open>math.Round\<close>: halves are rounded away from zero.\<close>

definition go_round :: "real \<Rightarrow> real" where
  "go_round v = (if v \<ge> 0 then of_int \<lfloor>v + 1 / 2\<rfloor> else - of_int \<lfloor>1 / 2 - v\<rfloor>)"

text \<open>\<open>math.Mod\<close>: the remainder has the sign of the dividend.\<close>

definition go_mod :: "real \<Rightarrow> real \<Rightarrow> real" where
  "go_mod x y = x - y * of_int (if x / y \<ge> 0 then \<lfloor>x / y\<rfloor> else \<lceil>x / y\<rceil>)"

lemma go_mod_multiple: "\<exists>k :: int. go_mod x y = x - y * of_int k"
  unfolding go_mod_def by blast

end
