(* ===== verification/Cues.thy ===== *)
theory Cues
  imports Evidence Audio GoMath
begin

section \<open>The audio cue ledger (\<open>internal/cues/audio.go\<close>)\<close>

text \<open>
  \<open>Enrich\<close> adds to each observation the best gunshot cue and the best footstep cue that its target
  made shortly before, as heard from the observer's last known position. The maps of the code, from
  session to events and from player to positions, are read by filtering one list. The number format
  of \<open>encoding/json\<close> (\<open>ff\<close>) is an argument: it only shapes the text of the details.
\<close>

subsection \<open>Data\<close>

record cue_config =
  cu_gunshot :: int
  cu_footstep :: int
  cu_tolerance :: int

definition default_cue_config :: cue_config where
  "default_cue_config = \<lparr>cu_gunshot = 30000, cu_footstep = 5000, cu_tolerance = 2000\<rparr>"

definition ledger_version :: string where "ledger_version = ''audio-cue-ledger-v1''"

record cue_payload =
  cp_source :: string
  cp_weapon :: string
  cp_ammo :: string
  cp_suppressed :: bool
  cp_suppressor :: string
  cp_position :: "real list"
  cp_speed :: real
  cp_movement :: string
  cp_stance :: string
  cp_surface :: string
  cp_footwear :: string

definition zero_cue_payload :: cue_payload where
  "zero_cue_payload = \<lparr>cp_source = [], cp_weapon = [], cp_ammo = [], cp_suppressed = False,
     cp_suppressor = [], cp_position = [], cp_speed = 0, cp_movement = [], cp_stance = [],
     cp_surface = [], cp_footwear = []\<rparr>"

definition decode_cue_payload :: "(string \<times> json) list \<Rightarrow> cue_payload option" where
  "decode_cue_payload ms = do {
     source \<leftarrow> decode_member conv_string ''source_player_id'' ms [];
     weapon \<leftarrow> decode_member conv_string ''weapon_type'' ms [];
     ammo \<leftarrow> decode_member conv_string ''ammo'' ms [];
     suppressed \<leftarrow> decode_member conv_bool ''is_suppressed'' ms False;
     suppressor \<leftarrow> decode_member conv_string ''suppressor_type'' ms [];
     position \<leftarrow> decode_member conv_floats ''position'' ms [];
     speed \<leftarrow> decode_member conv_float ''movement_speed_mps'' ms 0;
     movement \<leftarrow> decode_member conv_string ''movement_state'' ms [];
     stance \<leftarrow> decode_member conv_string ''stance_name'' ms [];
     surface \<leftarrow> decode_member conv_string ''surface_type'' ms [];
     footwear \<leftarrow> decode_member conv_string ''footwear_type'' ms [];
     Some \<lparr>cp_source = source, cp_weapon = weapon, cp_ammo = ammo, cp_suppressed = suppressed,
       cp_suppressor = suppressor, cp_position = position, cp_speed = speed, cp_movement = movement,
       cp_stance = stance, cp_surface = surface, cp_footwear = footwear\<rparr> }"

definition unmarshal_cue_payload :: "string \<Rightarrow> cue_payload option" where
  "unmarshal_cue_payload s = (case json_text s of
      Some (JObj ms) \<Rightarrow> decode_cue_payload ms
    | Some JNull \<Rightarrow> Some zero_cue_payload
    | _ \<Rightarrow> None)"

record cue_event =
  ce_server :: string
  ce_session :: string
  ce_player :: string
  ce_type :: string
  ce_id :: string
  ce_time :: int
  ce_authority :: string
  ce_data :: cue_payload

type_synonym vector = "real \<times> real \<times> real"

record candidate_cue =
  cc_fact :: cue_fact
  cc_class :: string
  cc_rank :: int

subsection \<open>Keys and geometry\<close>

definition durable_id :: "string \<Rightarrow> string" where
  "durable_id s = (case last_index CHR '':'' s of None \<Rightarrow> s | Some k \<Rightarrow> drop (Suc k) s)"

definition session_key :: "string \<Rightarrow> string \<Rightarrow> string" where
  "session_key server session = server @ [CHR 0x00] @ session"

definition player_key :: "string \<Rightarrow> string \<Rightarrow> string \<Rightarrow> string" where
  "player_key server session player = session_key server session @ [CHR 0x00] @ player"

definition vector3 :: "real list \<Rightarrow> vector option" where
  "vector3 v = (case v of [x, y, z] \<Rightarrow> Some (x, y, z) | _ \<Rightarrow> None)"

definition distance3 :: "vector \<Rightarrow> vector \<Rightarrow> real" where
  "distance3 left right = (case (left, right) of ((lx, ly, lz), (rx, ry, rz)) \<Rightarrow>
     sqrt ((rx - lx) * (rx - lx) + (ry - ly) * (ry - ly) + (rz - lz) * (rz - lz)))"

definition direction_degrees :: "vector \<Rightarrow> vector \<Rightarrow> real" where
  "direction_degrees observer source = (case (observer, source) of ((ox, oy, oz), (sx, sy, sz)) \<Rightarrow>
     (let degrees = go_atan2 (sx - ox) (sz - oz) * 180 / pi
      in if degrees < 0 then degrees + 360 else degrees))"

definition round1 :: "real \<Rightarrow> real" where "round1 v = go_round (v * 10) / 10"

definition authority_or_server :: "string \<Rightarrow> string" where
  "authority_or_server v = (if v = [] then ''A'' else v)"

subsection \<open>The index\<close>

definition cue_event_of :: "batch \<Rightarrow> event \<Rightarrow> cue_event option" where
  "cue_event_of b e =
    (case (if ev_payload e = [] then Some zero_cue_payload else unmarshal_cue_payload (ev_payload e)) of
       None \<Rightarrow> None
     | Some d \<Rightarrow> Some \<lparr>ce_server = ba_server b, ce_session = ba_session b, ce_player = ev_player_session e,
         ce_type = ev_type e, ce_id = event_id (ba_session b) e, ce_time = ev_time e,
         ce_authority = ev_authority e, ce_data = d\<rparr>)"

definition index_events :: "batch list \<Rightarrow> cue_event list option" where
  "index_events batches = collect_some (concat (map (\<lambda>b. map (cue_event_of b) (ba_events b)) batches))"

definition events_of :: "cue_event list \<Rightarrow> string \<Rightarrow> cue_event list" where
  "events_of es key = sort_by (\<lambda>x y. ce_time x < ce_time y)
     (filter (\<lambda>e. session_key (ce_server e) (ce_session e) = key) es)"

definition sample_of :: "string \<Rightarrow> cue_event \<Rightarrow> (int \<times> vector) option" where
  "sample_of key e =
    (if ce_type e = ''PLAYER_SNAPSHOT'' \<and> player_key (ce_server e) (ce_session e) (ce_player e) = key
     then map_option (Pair (ce_time e)) (vector3 (cp_position (ce_data e))) else None)"

definition snapshots_of :: "cue_event list \<Rightarrow> string \<Rightarrow> (int \<times> vector) list" where
  "snapshots_of es key = sort_by (\<lambda>x y. fst x < fst y) (List.map_filter (sample_of key) es)"

text \<open>\<open>nearestPosition\<close>: the latest sample that is not later than the sound and recent enough.\<close>

fun nearest_scan :: "int \<Rightarrow> int \<Rightarrow> (int \<times> vector) list \<Rightarrow> vector \<times> int \<Rightarrow> vector \<times> int" where
  "nearest_scan moment tolerance [] best = best"
| "nearest_scan moment tolerance ((t, p) # xs) best =
    nearest_scan moment tolerance xs
      (if t > moment then best
       else (let delta = i64 (moment - t)
             in if delta \<le> tolerance \<and> delta < snd best then (p, delta) else best))"

definition nearest_position :: "(int \<times> vector) list \<Rightarrow> int \<Rightarrow> int \<Rightarrow> vector option" where
  "nearest_position samples moment tolerance =
    (case nearest_scan moment tolerance samples ((0, 0, 0), i64 (tolerance + 1)) of
      (p, delta) \<Rightarrow> if delta \<le> tolerance then Some p else None)"

subsection \<open>Candidate cues\<close>

definition audibility_text :: "audibility \<Rightarrow> string" where
  "audibility_text a = (case a of
      NotAudible \<Rightarrow> ''NOT_AUDIBLE_BY_MODEL'' | Possible \<Rightarrow> ''POSSIBLE_AUDIO_CUE''
    | Likely \<Rightarrow> ''LIKELY_AUDIO_CUE'' | Strong \<Rightarrow> ''CAPTURED_STRONG_CUE'')"

definition cue_class_of :: "audibility \<Rightarrow> bool \<Rightarrow> string \<times> int" where
  "cue_class_of a gunshot = (case a of
      Strong \<Rightarrow> if gunshot then (''KNOWN'', 3) else (''PLAUSIBLE'', 2)
    | Likely \<Rightarrow> (''PLAUSIBLE'', 2)
    | Possible \<Rightarrow> (''UNEXPLAINED_IN_CAPTURED_DATA'', 1)
    | NotAudible \<Rightarrow> (''UNEXPLAINED_IN_CAPTURED_DATA'', 0))"

definition json_bool :: "bool \<Rightarrow> string" where
  "json_bool b = (if b then ''true'' else ''false'')"

text \<open>\<open>cueDetails\<close>: \<open>json.Marshal\<close> of a map writes the keys in order.\<close>

definition gunshot_details :: "(real \<Rightarrow> string) \<Rightarrow> cue_payload \<Rightarrow> vector \<Rightarrow> vector \<Rightarrow> audio_result \<Rightarrow> string" where
  "gunshot_details ff d here there r = json_object
    [json_field ''ammo'' (json_quote (cp_ammo d)),
     json_field ''audibility'' (json_quote (audibility_text (ar_class r))),
     json_field ''audio_model_version'' (json_quote (ar_version r)),
     json_field ''direction_degrees'' (ff (round1 (direction_degrees here there))),
     json_field ''distance_metres'' (ff (round1 (distance3 here there))),
     json_field ''ledger_version'' (json_quote ledger_version),
     json_field ''likely_range_metres'' (ff (ar_likely r)),
     json_field ''maximum_range_metres'' (ff (ar_maximum r)),
     json_field ''suppressed'' (json_bool (cp_suppressed d)),
     json_field ''suppressor_type'' (json_quote (cp_suppressor d)),
     json_field ''weapon_type'' (json_quote (cp_weapon d))]"

definition footstep_details :: "(real \<Rightarrow> string) \<Rightarrow> cue_payload \<Rightarrow> vector \<Rightarrow> vector \<Rightarrow> audio_result \<Rightarrow> string" where
  "footstep_details ff d here there r = json_object
    [json_field ''audibility'' (json_quote (audibility_text (ar_class r))),
     json_field ''audio_model_version'' (json_quote (ar_version r)),
     json_field ''direction_degrees'' (ff (round1 (direction_degrees here there))),
     json_field ''distance_metres'' (ff (round1 (distance3 here there))),
     json_field ''estimated_not_raw_audio'' ''true'',
     json_field ''footwear_type'' (json_quote (cp_footwear d)),
     json_field ''gait'' (json_quote (cp_movement d)),
     json_field ''ledger_version'' (json_quote ledger_version),
     json_field ''likely_range_metres'' (ff (round1 (ar_likely r))),
     json_field ''maximum_range_metres'' (ff (round1 (ar_maximum r))),
     json_field ''speed_metres_per_second'' (ff (round1 (cp_speed d))),
     json_field ''stance'' (json_quote (cp_stance d)),
     json_field ''surface_type'' (json_quote (cp_surface d))]"

definition fact_of :: "string \<Rightarrow> cue_event \<Rightarrow> string \<Rightarrow> cue_fact" where
  "fact_of kind e details = \<lparr>cf_type = kind, cf_source = ce_id e, cf_occurred = ce_time e,
     cf_details = details, cf_authority = authority_or_server (ce_authority e)\<rparr>"

definition observer_position :: "cue_config \<Rightarrow> cue_event list \<Rightarrow> observation \<Rightarrow> cue_event \<Rightarrow> vector option" where
  "observer_position c es ob e = nearest_position
     (snapshots_of es (player_key (ob_server ob) (ob_session ob) (ob_observer ob))) (ce_time e) (cu_tolerance c)"

definition gunshot_cue :: "(real \<Rightarrow> string) \<Rightarrow> cue_config \<Rightarrow> cue_event list \<Rightarrow> observation \<Rightarrow> cue_event \<Rightarrow>
    candidate_cue option" where
  "gunshot_cue ff c es ob e = do {
     here \<leftarrow> observer_position c es ob e;
     there \<leftarrow> vector3 (cp_position (ce_data e));
     let r = classify_gunshot (Finite (distance3 here there)) (cp_suppressed (ce_data e));
     if ar_class r = NotAudible then None
     else Some \<lparr>cc_fact = fact_of ''GUNSHOT_AUDIO_OPPORTUNITY'' e (gunshot_details ff (ce_data e) here there r),
       cc_class = fst (cue_class_of (ar_class r) True), cc_rank = snd (cue_class_of (ar_class r) True)\<rparr> }"

definition footstep_cue :: "(real \<Rightarrow> string) \<Rightarrow> cue_config \<Rightarrow> cue_event list \<Rightarrow> observation \<Rightarrow> cue_event \<Rightarrow>
    candidate_cue option" where
  "footstep_cue ff c es ob e = do {
     here \<leftarrow> observer_position c es ob e;
     there \<leftarrow> vector3 (cp_position (ce_data e));
     let r = classify_footstep \<lparr>fs_distance = Finite (distance3 here there), fs_speed = cp_speed (ce_data e),
       fs_stance = cp_stance (ce_data e), fs_surface = cp_surface (ce_data e),
       fs_footwear = cp_footwear (ce_data e)\<rparr>;
     if ar_class r = NotAudible then None
     else Some \<lparr>cc_fact = fact_of ''FOOTSTEP_AUDIO_OPPORTUNITY'' e (footstep_details ff (ce_data e) here there r),
       cc_class = fst (cue_class_of (ar_class r) False), cc_rank = snd (cue_class_of (ar_class r) False)\<rparr> }"

definition better_cue :: "candidate_cue \<Rightarrow> candidate_cue option \<Rightarrow> bool" where
  "better_cue v current = (case current of None \<Rightarrow> True
    | Some w \<Rightarrow> cc_rank v > cc_rank w \<or> (cc_rank v = cc_rank w \<and> cf_occurred (cc_fact v) > cf_occurred (cc_fact w)))"

text \<open>What a candidate (if any) makes of the current best one.\<close>

definition take_better :: "candidate_cue option \<Rightarrow> candidate_cue option \<Rightarrow> candidate_cue option" where
  "take_better v best = (case v of None \<Rightarrow> best | Some w \<Rightarrow> if better_cue w best then Some w else best)"

subsection \<open>Enrich\<close>

fun scan_cues :: "(real \<Rightarrow> string) \<Rightarrow> cue_config \<Rightarrow> cue_event list \<Rightarrow> observation \<Rightarrow> cue_event list \<Rightarrow>
    candidate_cue option \<times> candidate_cue option \<Rightarrow> candidate_cue option \<times> candidate_cue option" where
  "scan_cues ff c es ob [] (g, f) = (g, f)"
| "scan_cues ff c es ob (x # xs) (g, f) =
    (let target = durable_id (ob_target ob); age = i64 (ob_started ob - ce_time x) in
     if ce_time x > ob_started ob then (g, f)
     else if ce_type x = ''SHOT_FIRED_SERVER'' then
       (if age > cu_gunshot c \<or> cp_source (ce_data x) \<noteq> target then scan_cues ff c es ob xs (g, f)
        else scan_cues ff c es ob xs (take_better (gunshot_cue ff c es ob x) g, f))
     else if ce_type x = ''MOVEMENT_AUDIO_OPPORTUNITY'' then
       (if age > cu_footstep c \<or> (ce_player x \<noteq> ob_target ob \<and> cp_source (ce_data x) \<noteq> target)
        then scan_cues ff c es ob xs (g, f)
        else scan_cues ff c es ob xs (g, take_better (footstep_cue ff c es ob x) f))
     else scan_cues ff c es ob xs (g, f))"

definition cue_class_rank :: "string \<Rightarrow> int" where
  "cue_class_rank v = (if v = ''KNOWN'' then 3 else if v = ''PLAUSIBLE'' then 2 else 0)"

definition append_unique :: "string list \<Rightarrow> string \<Rightarrow> string list" where
  "append_unique vs v = (if v \<in> set vs then vs else vs @ [v])"

definition add_cue :: "candidate_cue option \<Rightarrow> observation \<Rightarrow> observation" where
  "add_cue selected ob = (case selected of None \<Rightarrow> ob
    | Some s \<Rightarrow> ob\<lparr>ob_cues := ob_cues ob @ [cc_fact s],
        ob_sources := append_unique (ob_sources ob) (cf_source (cc_fact s)),
        ob_cue_class := (if cue_class_rank (cc_class s) > cue_class_rank (ob_cue_class ob)
          then cc_class s else ob_cue_class ob)\<rparr>)"

definition enrich_one :: "(real \<Rightarrow> string) \<Rightarrow> cue_config \<Rightarrow> cue_event list \<Rightarrow> observation \<Rightarrow> observation" where
  "enrich_one ff c es ob =
    (if durable_id (ob_target ob) = [] then ob
     else case scan_cues ff c es ob (events_of es (session_key (ob_server ob) (ob_session ob))) (None, None) of
       (g, f) \<Rightarrow> add_cue f (add_cue g ob))"

datatype cue_error = BadLookback | BadCuePayload

definition enrich :: "(real \<Rightarrow> string) \<Rightarrow> observation list \<Rightarrow> batch list \<Rightarrow> cue_config \<Rightarrow>
    cue_error + observation list" where
  "enrich ff items batches c =
    (if cu_gunshot c \<le> 0 \<or> cu_footstep c \<le> 0 \<or> cu_tolerance c \<le> 0 then Inl BadLookback
     else case index_events batches of
       None \<Rightarrow> Inl BadCuePayload
     | Some es \<Rightarrow> Inr (map (enrich_one ff c es) items))"

subsection \<open>Soundness and completeness of the search\<close>

text \<open>A shot or a step of the target that the ledger may use for an observation.\<close>

definition shot_in_reach :: "cue_config \<Rightarrow> observation \<Rightarrow> cue_event \<Rightarrow> bool" where
  "shot_in_reach c ob x \<longleftrightarrow> ce_type x = ''SHOT_FIRED_SERVER'' \<and> ce_time x \<le> ob_started ob \<and>
     i64 (ob_started ob - ce_time x) \<le> cu_gunshot c \<and> cp_source (ce_data x) = durable_id (ob_target ob)"

definition step_in_reach :: "cue_config \<Rightarrow> observation \<Rightarrow> cue_event \<Rightarrow> bool" where
  "step_in_reach c ob x \<longleftrightarrow> ce_type x = ''MOVEMENT_AUDIO_OPPORTUNITY'' \<and> ce_time x \<le> ob_started ob \<and>
     i64 (ob_started ob - ce_time x) \<le> cu_footstep c \<and>
     (ce_player x = ob_target ob \<or> cp_source (ce_data x) = durable_id (ob_target ob))"

lemma scan_cues_Cons:
  "ce_time x \<le> ob_started ob \<Longrightarrow> scan_cues ff c es ob (x # xs) (g, f) = scan_cues ff c es ob xs
    (if shot_in_reach c ob x then take_better (gunshot_cue ff c es ob x) g else g,
     if step_in_reach c ob x then take_better (footstep_cue ff c es ob x) f else f)"
  by (auto simp: Let_def shot_in_reach_def step_in_reach_def)

lemma take_better_cases: "take_better v best = best \<or> take_better v best = v"
  by (auto simp: take_better_def split: option.splits)

lemma scan_cues_from:
  assumes "scan_cues ff c es ob xs (g, f) = (g', f')"
  shows "(g' = g \<or> (\<exists>x \<in> set xs. shot_in_reach c ob x \<and> g' = gunshot_cue ff c es ob x)) \<and>
    (f' = f \<or> (\<exists>x \<in> set xs. step_in_reach c ob x \<and> f' = footstep_cue ff c es ob x))"
  using assms
proof (induction xs arbitrary: g f)
  case Nil
  then show ?case by simp
next
  case (Cons x xs)
  show ?case
  proof (cases "ce_time x \<le> ob_started ob")
    case True
    let ?g = "if shot_in_reach c ob x then take_better (gunshot_cue ff c es ob x) g else g"
    let ?f = "if step_in_reach c ob x then take_better (footstep_cue ff c es ob x) f else f"
    have "?g = g \<or> shot_in_reach c ob x \<and> ?g = gunshot_cue ff c es ob x"
      "?f = f \<or> step_in_reach c ob x \<and> ?f = footstep_cue ff c es ob x"
      using take_better_cases by metis+
    then show ?thesis using Cons.IH[of ?g ?f] Cons.prems unfolding scan_cues_Cons[OF True] by auto
  next
    case False
    then show ?thesis using Cons.prems by simp
  qed
qed

text \<open>The rank of the best cue so far.\<close>

definition best_rank :: "candidate_cue option \<Rightarrow> int" where
  "best_rank v = (case v of None \<Rightarrow> 0 | Some w \<Rightarrow> max 0 (cc_rank w))"

lemma best_rank_simps [simp]: "best_rank None = 0" "best_rank (Some v) = max 0 (cc_rank v)"
  by (simp_all add: best_rank_def)

lemma cue_rank:
  assumes "gunshot_cue ff c es ob x = Some v \<or> footstep_cue ff c es ob x = Some v"
  shows "0 < cc_rank v" "cue_class_rank (cc_class v) = (if cc_rank v = 1 then 0 else cc_rank v)"
  using assms
  by (auto simp: gunshot_cue_def footstep_cue_def cue_class_of_def cue_class_rank_def Let_def bind_eq_Some_conv
      split: if_splits audibility.splits)

lemma take_better_rank:
  "best_rank best \<le> best_rank (take_better v best)" "best_rank v \<le> best_rank (take_better v best)"
  by (auto simp: take_better_def better_cue_def best_rank_def split: option.splits)

lemma best_rank_ge: "0 < r \<Longrightarrow> r \<le> best_rank g \<Longrightarrow> \<exists>w. g = Some w \<and> r \<le> cc_rank w"
  by (auto simp: best_rank_def split: option.splits)

lemma scan_cues_best:
  assumes "scan_cues ff c es ob xs (g, f) = (g', f')" "sorted_wrt (\<lambda>x y. ce_time x \<le> ce_time y) xs"
  shows "best_rank g \<le> best_rank g' \<and> best_rank f \<le> best_rank f' \<and>
    (\<forall>x \<in> set xs. (shot_in_reach c ob x \<longrightarrow> best_rank (gunshot_cue ff c es ob x) \<le> best_rank g') \<and>
      (step_in_reach c ob x \<longrightarrow> best_rank (footstep_cue ff c es ob x) \<le> best_rank f'))"
  using assms
proof (induction xs arbitrary: g f)
  case Nil
  then show ?case by simp
next
  case (Cons x xs)
  show ?case
  proof (cases "ce_time x \<le> ob_started ob")
    case True
    let ?g = "if shot_in_reach c ob x then take_better (gunshot_cue ff c es ob x) g else g"
    let ?f = "if step_in_reach c ob x then take_better (footstep_cue ff c es ob x) f else f"
    have up: "best_rank g \<le> best_rank ?g" "best_rank f \<le> best_rank ?f"
      "shot_in_reach c ob x \<Longrightarrow> best_rank (gunshot_cue ff c es ob x) \<le> best_rank ?g"
      "step_in_reach c ob x \<Longrightarrow> best_rank (footstep_cue ff c es ob x) \<le> best_rank ?f"
      by (simp_all add: take_better_rank)
    have "best_rank ?g \<le> best_rank g' \<and> best_rank ?f \<le> best_rank f' \<and>
      (\<forall>x \<in> set xs. (shot_in_reach c ob x \<longrightarrow> best_rank (gunshot_cue ff c es ob x) \<le> best_rank g') \<and>
        (step_in_reach c ob x \<longrightarrow> best_rank (footstep_cue ff c es ob x) \<le> best_rank f'))"
      using Cons.IH[of ?g ?f] Cons.prems unfolding scan_cues_Cons[OF True] by simp
    then show ?thesis using up by (fastforce intro: order_trans)
  next
    case False
    then have "\<forall>y \<in> set (x # xs). \<not> shot_in_reach c ob y \<and> \<not> step_in_reach c ob y"
      using Cons.prems(2) by (auto simp: shot_in_reach_def step_in_reach_def)
    then show ?thesis using False Cons.prems(1) by simp
  qed
qed


subsection \<open>One observation\<close>

definition enriched_by :: "observation \<Rightarrow> cue_fact list \<Rightarrow> observation \<Rightarrow> bool" where
  "enriched_by ob new ob' \<longleftrightarrow> (\<exists>sources cls. ob' = ob\<lparr>ob_cues := ob_cues ob @ new, ob_sources := sources,
      ob_cue_class := cls\<rparr> \<and> set (ob_sources ob) \<subseteq> set sources \<and> cf_source ` set new \<subseteq> set sources \<and>
     cue_class_rank (ob_cue_class ob) \<le> cue_class_rank cls)"

lemma enriched_none: "enriched_by ob [] ob"
  unfolding enriched_by_def
  by (rule exI[of _ "ob_sources ob"], rule exI[of _ "ob_cue_class ob"]) simp

lemma enriched_add:
  assumes "enriched_by ob new ob'"
  shows "enriched_by ob (new @ (case v of None \<Rightarrow> [] | Some w \<Rightarrow> [cc_fact w])) (add_cue v ob')"
    "v = Some w \<Longrightarrow> cue_class_rank (cc_class w) \<le> cue_class_rank (ob_cue_class (add_cue v ob'))"
    "cue_class_rank (ob_cue_class ob') \<le> cue_class_rank (ob_cue_class (add_cue v ob'))"
proof -
  show "enriched_by ob (new @ (case v of None \<Rightarrow> [] | Some w \<Rightarrow> [cc_fact w])) (add_cue v ob')"
  proof (cases v)
    case None
    then show ?thesis using assms by (simp add: add_cue_def)
  next
    case (Some w)
    obtain sources cls where e: "ob' = ob\<lparr>ob_cues := ob_cues ob @ new, ob_sources := sources, ob_cue_class := cls\<rparr>"
        "set (ob_sources ob) \<subseteq> set sources" "cf_source ` set new \<subseteq> set sources"
        "cue_class_rank (ob_cue_class ob) \<le> cue_class_rank cls"
      using assms unfolding enriched_by_def by blast
    show ?thesis
      unfolding enriched_by_def Some add_cue_def e(1)
      by (rule exI[of _ "append_unique sources (cf_source (cc_fact w))"],
          rule exI[of _ "if cue_class_rank (cc_class w) > cue_class_rank cls then cc_class w else cls"])
        (use e(2-4) in \<open>auto simp: append_unique_def\<close>)
  qed
  show "v = Some w \<Longrightarrow> cue_class_rank (cc_class w) \<le> cue_class_rank (ob_cue_class (add_cue v ob'))"
    "cue_class_rank (ob_cue_class ob') \<le> cue_class_rank (ob_cue_class (add_cue v ob'))"
    by (auto simp: add_cue_def split: option.splits)
qed

lemma events_of_set: "x \<in> set (events_of es key) \<longleftrightarrow> x \<in> set es \<and> session_key (ce_server x) (ce_session x) = key"
  by (auto simp: events_of_def)

interpretation time_order: comparison "\<lambda>x y. ce_time x < ce_time y"
  by (rule comparison_key)

lemma events_of_sorted: "sorted_wrt (\<lambda>x y. ce_time x \<le> ce_time y) (events_of es key)"
  unfolding events_of_def using time_order.sorted_sort_by
  by (rule sorted_wrt_mono_rel[rotated]) simp

lemma cue_fact_of:
  "gunshot_cue ff c es ob x = Some v \<or> footstep_cue ff c es ob x = Some v \<Longrightarrow>
    cf_source (cc_fact v) = ce_id x \<and> cf_occurred (cc_fact v) = ce_time x"
  by (auto simp: gunshot_cue_def footstep_cue_def fact_of_def Let_def bind_eq_Some_conv split: if_splits)

lemma enrich_one_sound:
  "\<exists>new. enriched_by ob new (enrich_one ff c es ob) \<and> length new \<le> 2 \<and>
    (\<forall>a \<in> set new. \<exists>x \<in> set es. session_key (ce_server x) (ce_session x) = session_key (ob_server ob) (ob_session ob) \<and>
      cf_source a = ce_id x \<and> cf_occurred a = ce_time x \<and> (shot_in_reach c ob x \<or> step_in_reach c ob x))"
proof (cases "durable_id (ob_target ob) = []")
  case True
  then show ?thesis using enriched_none[of ob] by (intro exI[of _ "[]"]) (simp add: enrich_one_def)
next
  case False
  let ?xs = "events_of es (session_key (ob_server ob) (ob_session ob))"
  let ?fact = "\<lambda>v. case v of None \<Rightarrow> [] | Some w \<Rightarrow> [cc_fact w]"
  obtain g f where gf: "scan_cues ff c es ob ?xs (None, None) = (g, f)" by (metis surj_pair)
  have "enriched_by ob ([] @ ?fact g @ ?fact f) (add_cue f (add_cue g ob))"
    using enriched_add(1)[OF enriched_add(1)[OF enriched_none]] by simp
  moreover have "enrich_one ff c es ob = add_cue f (add_cue g ob)"
    using False gf by (simp add: enrich_one_def)
  moreover have each: "\<exists>x \<in> set ?xs. cf_source a = ce_id x \<and> cf_occurred a = ce_time x \<and>
      (shot_in_reach c ob x \<or> step_in_reach c ob x)" if "a \<in> set (?fact g @ ?fact f)" for a
    using that scan_cues_from[OF gf] cue_fact_of by (auto split: option.splits) metis+
  moreover have "length (?fact g @ ?fact f) \<le> 2" by (simp split: option.split)
  moreover have "\<forall>a \<in> set (?fact g @ ?fact f). \<exists>x \<in> set es.
      session_key (ce_server x) (ce_session x) = session_key (ob_server ob) (ob_session ob) \<and>
      cf_source a = ce_id x \<and> cf_occurred a = ce_time x \<and> (shot_in_reach c ob x \<or> step_in_reach c ob x)"
    using each events_of_set by meson
  ultimately show ?thesis
    unfolding append_Nil by (intro exI[of _ "?fact g @ ?fact f"]) (simp only: simp_thms)
qed

lemma enrich_one_complete:
  assumes "durable_id (ob_target ob) \<noteq> []" "x \<in> set es"
    "session_key (ce_server x) (ce_session x) = session_key (ob_server ob) (ob_session ob)"
    "shot_in_reach c ob x \<and> gunshot_cue ff c es ob x = Some v \<or>
     step_in_reach c ob x \<and> footstep_cue ff c es ob x = Some v"
  shows "cue_class_rank (cc_class v) \<le> cue_class_rank (ob_cue_class (enrich_one ff c es ob))"
proof -
  let ?xs = "events_of es (session_key (ob_server ob) (ob_session ob))"
  obtain g f where gf: "scan_cues ff c es ob ?xs (None, None) = (g, f)" by (metis surj_pair)
  have x: "x \<in> set ?xs" using assms(2,3) by (simp add: events_of_set)
  note best = scan_cues_best[OF gf events_of_sorted]
  note orig = scan_cues_from[OF gf]
  have e: "enrich_one ff c es ob = add_cue f (add_cue g ob)" using assms(1) gf by (simp add: enrich_one_def)
  have up: "cue_class_rank (cc_class w) \<le> cue_class_rank (ob_cue_class (enrich_one ff c es ob))"
    if "g = Some w \<or> f = Some w" for w
    unfolding e using that enriched_add(2,3)[OF enriched_none]
      enriched_add(2)[OF enriched_add(1)[OF enriched_none, of ob g]] order_trans by (metis enriched_none)
  have "0 < cc_rank v" using cue_rank(1) assms(4) by metis
  moreover have "best_rank (Some v) \<le> best_rank g \<or> best_rank (Some v) \<le> best_rank f"
    using best x assms(4) by metis
  ultimately obtain w where w': "g = Some w \<or> f = Some w" "cc_rank v \<le> cc_rank w"
    using best_rank_ge[of "cc_rank v"] by auto
  have "\<exists>y. gunshot_cue ff c es ob y = Some w \<or> footstep_cue ff c es ob y = Some w"
    using orig w'(1) by fastforce
  with w' obtain y where w: "g = Some w \<or> f = Some w" "cc_rank v \<le> cc_rank w"
    "gunshot_cue ff c es ob y = Some w \<or> footstep_cue ff c es ob y = Some w" by blast
  have "cue_class_rank (cc_class v) \<le> cue_class_rank (cc_class w)"
    using w(2) cue_rank[OF w(3)] cue_rank[of ff c es ob x v] assms(4) by auto
  then show ?thesis using up[OF w(1)] by simp
qed

subsection \<open>What Enrich guarantees\<close>

lemma index_events_set:
  assumes "index_events batches = Some es"
  shows "x \<in> set es \<longleftrightarrow> (\<exists>b \<in> set batches. \<exists>e \<in> set (ba_events b). cue_event_of b e = Some x)"
  using assms by (auto simp: index_events_def collect_some_conv image_iff split: if_splits)
    (metis option.sel option.exhaust)+

lemma cue_event_fields:
  "cue_event_of b e = Some x \<Longrightarrow> ce_server x = ba_server b \<and> ce_session x = ba_session b \<and>
    ce_type x = ev_type e \<and> ce_id x = event_id (ba_session b) e \<and> ce_time x = ev_time e \<and>
    ce_player x = ev_player_session e"
  by (auto simp: cue_event_of_def split: option.splits)

lemma enrich_Inr:
  assumes "enrich ff items batches c = Inr items'"
  obtains es where "index_events batches = Some es" "items' = map (enrich_one ff c es) items"
  using assms by (auto simp: enrich_def split: if_splits option.splits)

text \<open>
  Claim C24 [enrich_sound]: \<open>Enrich\<close> only adds evidence. Each observation keeps everything but its
  cue facts, source ids and cue class; the facts and ids are only added to; its cue class never loses
  rank; at most two facts are added, each is recorded as a source, and each comes from a shot or a
  movement event of the same session that happened before the observation and within the lookback.
\<close>

theorem enrich_sound:
  assumes "enrich ff items batches c = Inr items'" "i < length items"
  shows "\<exists>new. enriched_by (items ! i) new (items' ! i) \<and> length new \<le> 2 \<and>
    (\<forall>a \<in> set new. \<exists>b \<in> set batches. \<exists>e \<in> set (ba_events b).
      session_key (ba_server b) (ba_session b) = session_key (ob_server (items ! i)) (ob_session (items ! i)) \<and>
      cf_source a = event_id (ba_session b) e \<and> cf_occurred a = ev_time e \<and> ev_time e \<le> ob_started (items ! i) \<and>
      (ev_type e = ''SHOT_FIRED_SERVER'' \<and> i64 (ob_started (items ! i) - ev_time e) \<le> cu_gunshot c \<or>
       ev_type e = ''MOVEMENT_AUDIO_OPPORTUNITY'' \<and> i64 (ob_started (items ! i) - ev_time e) \<le> cu_footstep c))"
proof -
  obtain es where es: "index_events batches = Some es" "items' = map (enrich_one ff c es) items"
    by (rule enrich_Inr[OF assms(1)])
  let ?ob = "items ! i"
  obtain new where new: "enriched_by ?ob new (items' ! i)" "length new \<le> 2"
    "\<forall>a \<in> set new. \<exists>x \<in> set es. session_key (ce_server x) (ce_session x) = session_key (ob_server ?ob) (ob_session ?ob) \<and>
      cf_source a = ce_id x \<and> cf_occurred a = ce_time x \<and> (shot_in_reach c ?ob x \<or> step_in_reach c ?ob x)"
    using enrich_one_sound[of ?ob ff c es] assms(2) es(2) by auto
  have "\<exists>b \<in> set batches. \<exists>e \<in> set (ba_events b).
      session_key (ba_server b) (ba_session b) = session_key (ob_server ?ob) (ob_session ?ob) \<and>
      cf_source a = event_id (ba_session b) e \<and> cf_occurred a = ev_time e \<and> ev_time e \<le> ob_started ?ob \<and>
      (ev_type e = ''SHOT_FIRED_SERVER'' \<and> i64 (ob_started ?ob - ev_time e) \<le> cu_gunshot c \<or>
       ev_type e = ''MOVEMENT_AUDIO_OPPORTUNITY'' \<and> i64 (ob_started ?ob - ev_time e) \<le> cu_footstep c)"
    if a: "a \<in> set new" for a
  proof -
    obtain x where x: "x \<in> set es" "session_key (ce_server x) (ce_session x) = session_key (ob_server ?ob) (ob_session ?ob)"
      "cf_source a = ce_id x" "cf_occurred a = ce_time x" "shot_in_reach c ?ob x \<or> step_in_reach c ?ob x"
      using new(3) a by blast
    obtain b e where "b \<in> set batches" "e \<in> set (ba_events b)" "cue_event_of b e = Some x"
      using index_events_set[OF es(1)] x(1) by blast
    then show ?thesis
      using x(2-5) cue_event_fields[of b e x] unfolding shot_in_reach_def step_in_reach_def by metis
  qed
  then show ?thesis using new(1,2) by blast
qed

text \<open>
  Claim C25 [enrich_complete]: no explanatory sound is missed. For every event of the batches in the
  observation's session that is a shot or step of its target within the lookback and audible from the
  observer's last known position, the resulting cue class ranks at least as high as the class of that
  cue (in particular a captured strong gunshot always makes the observation \<open>KNOWN\<close>).
\<close>

theorem enrich_complete:
  assumes "enrich ff items batches c = Inr items'" "i < length items"
    and "index_events batches = Some es" "durable_id (ob_target (items ! i)) \<noteq> []"
    and "b \<in> set batches" "e \<in> set (ba_events b)" "cue_event_of b e = Some x"
      "session_key (ba_server b) (ba_session b) = session_key (ob_server (items ! i)) (ob_session (items ! i))"
    and "shot_in_reach c (items ! i) x \<and> gunshot_cue ff c es (items ! i) x = Some v \<or>
      step_in_reach c (items ! i) x \<and> footstep_cue ff c es (items ! i) x = Some v"
  shows "cue_class_rank (cc_class v) \<le> cue_class_rank (ob_cue_class (items' ! i))"
proof -
  have "items' = map (enrich_one ff c es) items" using enrich_Inr[OF assms(1)] assms(3) by auto
  moreover have "x \<in> set es" using index_events_set[OF assms(3)] assms(5-7) by blast
  ultimately show ?thesis
    using enrich_one_complete[OF assms(4), where x = x and es = es and ff = ff and c = c and v = v] cue_event_fields[OF assms(7)] assms(2,8,9) by simp
qed

subsection \<open>A scene with a shot, for examples\<close>

definition place_payload :: "string \<Rightarrow> string list \<Rightarrow> string" where
  "place_payload source position = json_object
     [json_field ''source_player_id'' (json_quote source), json_field ''position'' (json_array position)]"

definition place_event :: "string \<Rightarrow> 64 word \<Rightarrow> int \<Rightarrow> string \<Rightarrow> string list \<Rightarrow> event" where
  "place_event kind n t source position = sample_event\<lparr>ev_type := kind, ev_sequence := n, ev_time := t,
     ev_payload := place_payload source position\<rparr>"

definition shot_batch :: batch where
  "shot_batch = (sample_batch 9)\<lparr>ba_events :=
     [place_event ''PLAYER_SNAPSHOT'' 1 900 [] [''0'', ''0'', ''0''],
      place_event ''SHOT_FIRED_SERVER'' 2 1100 ''b'' [''3'', ''0'', ''4'']]\<rparr>"

definition quiet_observation :: observation where
  "quiet_observation = opportunity default_build_config (scene_stream ! 0) 1300 (''UNEXPLAINED_IN_CAPTURED_DATA'', None)"

definition place_event_of :: "string \<Rightarrow> 64 word \<Rightarrow> int \<Rightarrow> string \<Rightarrow> real list \<Rightarrow> cue_event" where
  "place_event_of kind n t source position = \<lparr>ce_server = ''srv'', ce_session = ''ss'', ce_player = ''ss:p1'',
     ce_type = kind, ce_id = ''ss:'' @ digits (uint n), ce_time = t, ce_authority = [],
     ce_data = zero_cue_payload\<lparr>cp_source := source, cp_position := position\<rparr>\<rparr>"

lemma place_payload_text:
  "json_text (place_payload [] [''0'', ''0'', ''0'']) = Some (JObj [(''source_player_id'', JStr []),
     (''position'', JArr [JNum ''0'', JNum ''0'', JNum ''0''])])"
  "json_text (place_payload ''b'' [''3'', ''0'', ''4'']) = Some (JObj [(''source_player_id'', JStr ''b''),
     (''position'', JArr [JNum ''3'', JNum ''0'', JNum ''4''])])"
  by code_simp+

lemma place_names: "list_all (\<lambda>name. filter (\<lambda>(k, j). equal_fold k name) [(''source_player_id'', a), (''position'', b)] =
    (if name = ''source_player_id'' then [(''source_player_id'', a)]
     else if name = ''position'' then [(''position'', b)] else []))
  [''source_player_id'', ''weapon_type'', ''ammo'', ''is_suppressed'', ''suppressor_type'', ''position'',
   ''movement_speed_mps'', ''movement_state'', ''stance_name'', ''surface_type'', ''footwear_type'']"
  by (simp add: equal_fold_def to_lower_def lower_char_def)

lemma place_numbers: "num_real ''0'' = 0" "num_real ''3'' = 3" "num_real ''4'' = 4"
  by (simp_all add: num_real_def has_prefix_def is_digit_def num_exponent_def scale10_def
      digits_val_def digit_val_def)

lemma decode_place:
  assumes "conv_floats p = Some position" "p \<noteq> JNull"
  shows "decode_cue_payload [(''source_player_id'', JStr source), (''position'', p)] =
    Some (zero_cue_payload\<lparr>cp_source := source, cp_position := position\<rparr>)"
proof -
  let ?ms = "[(''source_player_id'', JStr source), (''position'', p)]"
  have one: "decode_member conv_string ''source_player_id'' ?ms [] = Some source"
      "decode_member conv_floats ''position'' ?ms [] = Some position"
    using place_names[of "JStr source" p] assms
    by (auto simp: decode_member_one conv_string_def)
  show ?thesis
    using place_names[of "JStr source" p]
    by (simp add: decode_cue_payload_def one decode_member_absent zero_cue_payload_def)
qed

lemma shot_batch_events:
  "ba_events shot_batch = [place_event ''PLAYER_SNAPSHOT'' 1 900 [] [''0'', ''0'', ''0''],
     place_event ''SHOT_FIRED_SERVER'' 2 1100 ''b'' [''3'', ''0'', ''4'']]"
  "ba_server shot_batch = ''srv''" "ba_session shot_batch = ''ss''"
  by (simp_all add: shot_batch_def)

lemma shot_batch_index:
  "cue_event_of shot_batch (place_event ''PLAYER_SNAPSHOT'' 1 900 [] [''0'', ''0'', ''0'']) =
    Some (place_event_of ''PLAYER_SNAPSHOT'' 1 900 [] [0, 0, 0])"
  "cue_event_of shot_batch (place_event ''SHOT_FIRED_SERVER'' 2 1100 ''b'' [''3'', ''0'', ''4'']) =
    Some (place_event_of ''SHOT_FIRED_SERVER'' 2 1100 ''b'' [3, 0, 4])"
proof -
  have "place_payload s p \<noteq> []" for s p by (simp add: place_payload_def json_object_def)
  then show "cue_event_of shot_batch (place_event ''PLAYER_SNAPSHOT'' 1 900 [] [''0'', ''0'', ''0'']) =
      Some (place_event_of ''PLAYER_SNAPSHOT'' 1 900 [] [0, 0, 0])"
    "cue_event_of shot_batch (place_event ''SHOT_FIRED_SERVER'' 2 1100 ''b'' [''3'', ''0'', ''4'']) =
      Some (place_event_of ''SHOT_FIRED_SERVER'' 2 1100 ''b'' [3, 0, 4])"
    by (simp_all add: cue_event_of_def shot_batch_events place_event_def sample_event_def zero_event_def
        unmarshal_cue_payload_def place_payload_text decode_place conv_floats_def conv_float_elem_def conv_float_def
        place_numbers float_fits_def place_event_of_def event_id_def)
qed

lemma index_shot: "index_events [shot_batch] = Some
    [place_event_of ''PLAYER_SNAPSHOT'' 1 900 [] [0, 0, 0], place_event_of ''SHOT_FIRED_SERVER'' 2 1100 ''b'' [3, 0, 4]]"
  by (simp add: index_events_def shot_batch_events shot_batch_index)

abbreviation shot_events :: "cue_event list" where
  "shot_events \<equiv> [place_event_of ''PLAYER_SNAPSHOT'' 1 900 [] [0, 0, 0],
     place_event_of ''SHOT_FIRED_SERVER'' 2 1100 ''b'' [3, 0, 4]]"

lemma quiet_fields:
  "ob_started quiet_observation = 1300" "ob_target quiet_observation = ''ss:b''"
  "ob_server quiet_observation = ''srv''" "ob_session quiet_observation = ''ss''"
  "ob_observer quiet_observation = ''ss:p1''"
  by (simp_all add: quiet_observation_def opportunity_def Let_def scene_stream_def vis_wire_def zero_wire_def
      scene_def vis_batch_def sample_event_def)

lemma shot_heard:
  "shot_in_reach default_cue_config quiet_observation (shot_events ! 1)"
  "\<exists>v. gunshot_cue ff default_cue_config shot_events quiet_observation (shot_events ! 1) = Some v \<and>
    cc_class v = ''KNOWN''"
proof -
  show "shot_in_reach default_cue_config quiet_observation (shot_events ! 1)"
    by (simp add: shot_in_reach_def quiet_fields place_event_of_def default_cue_config_def durable_id_def i64_def)
  have "snapshots_of shot_events (player_key ''srv'' ''ss'' ''ss:p1'') = [(900, (0, 0, 0))]"
    by (simp add: snapshots_of_def sample_of_def place_event_of_def map_filter_simps vector3_def)
  then have "observer_position default_cue_config shot_events quiet_observation (shot_events ! 1) = Some (0, 0, 0)"
    by (simp add: observer_position_def quiet_fields nearest_position_def place_event_of_def
        default_cue_config_def i64_def)
  moreover have "distance3 (0, 0, 0) (3, 0, 4) = 5"
    by (simp add: distance3_def real_sqrt_unique)
  ultimately show "\<exists>v. gunshot_cue ff default_cue_config shot_events quiet_observation (shot_events ! 1) = Some v \<and>
    cc_class v = ''KNOWN''"
    by (simp add: gunshot_cue_def) (simp add: place_event_of_def vector3_def Let_def zero_cue_payload_def
        classify_gunshot_def classify_def cue_class_of_def)
qed

lemma enrich_quiet:
  "\<exists>ob. enrich ff [quiet_observation] [shot_batch] default_cue_config = Inr [ob]"
  using index_shot by (simp add: enrich_def default_cue_config_def)

theorem enrich_sound_witness:
  "\<exists>items' new. enrich (\<lambda>_. ''0'') [quiet_observation] [shot_batch] default_cue_config = Inr items' \<and>
    enriched_by quiet_observation new (items' ! 0) \<and> length new \<le> 2"
proof -
  obtain ob where e: "enrich (\<lambda>_. ''0'') [quiet_observation] [shot_batch] default_cue_config = Inr [ob]"
    using enrich_quiet by blast
  then show ?thesis using enrich_sound[OF e, of 0] by auto
qed

theorem enrich_complete_witness:
  "\<exists>items'. enrich (\<lambda>_. ''0'') [quiet_observation] [shot_batch] default_cue_config = Inr items' \<and>
    ob_cue_class (items' ! 0) = ''KNOWN''"
proof -
  obtain ob where e: "enrich (\<lambda>_. ''0'') [quiet_observation] [shot_batch] default_cue_config = Inr [ob]"
    using enrich_quiet by blast
  obtain v where v: "gunshot_cue (\<lambda>_. ''0'') default_cue_config shot_events quiet_observation (shot_events ! 1) = Some v"
    "cc_class v = ''KNOWN''" using shot_heard(2) by blast
  let ?e = "place_event ''SHOT_FIRED_SERVER'' 2 1100 ''b'' [''3'', ''0'', ''4'']"
  have x: "cue_event_of shot_batch ?e = Some (shot_events ! 1)" "?e \<in> set (ba_events shot_batch)"
    by (simp_all add: shot_batch_index shot_batch_events)
  have "cue_class_rank (cc_class v) \<le> cue_class_rank (ob_cue_class ([ob] ! 0))"
    by (rule enrich_complete[OF e _ index_shot _ _ x(2,1)])
      (use shot_heard(1) v in \<open>simp_all add: quiet_fields durable_id_def shot_batch_events\<close>)
  then have "ob_cue_class ob = ''KNOWN''" using v(2) by (simp add: cue_class_rank_def split: if_splits)
  then show ?thesis using e by auto
qed

end
