(* ===== verification/Strata.thy ===== *)
theory Strata
  imports Observations
begin

section \<open>Matched strata and the conditional logit (\<open>internal/features/matched.go\<close>)\<close>

text \<open>
  \<open>BuildMatchedStrata\<close> groups the eligible observations by an exact context key, and the
  conditional logit estimates one odds ratio over the strata of a player. Sums, logarithms and
  exponentials are those of exact reals; \<open>math.Lgamma(n + 1)\<close> at an integer is \<open>ln (n!)\<close>. The
  group map is read by filtering, and its keys are sorted, as in the code.
\<close>

subsection \<open>Decimal text of an integer\<close>

function int_string_loop :: "int \<Rightarrow> string \<Rightarrow> string" where
  "int_string_loop v buffer = (if v > 0 then int_string_loop (v div 10) (digit (v mod 10) # buffer) else buffer)"
  by pat_completeness auto

termination by (relation "measure (\<lambda>(v, buffer). nat v)") auto

declare int_string_loop.simps [simp del]

definition int_string :: "int \<Rightarrow> string" where
  "int_string v =
    (if v = 0 then ''0''
     else
       (let negative = v < 0; value = (if negative then i64 (- v) else v); s = int_string_loop value []
        in if negative then CHR ''-'' # s else s))"

lemma int_string_loop_digits: "0 < v \<Longrightarrow> int_string_loop v buffer = digits v @ buffer"
proof (induction v buffer rule: int_string_loop.induct)
  case (1 v buffer)
  show ?case
  proof (cases "v < 10")
    case True
    then have "v div 10 = 0" "v mod 10 = v" using 1(2) by auto
    then show ?thesis using 1(2) True
      by (subst int_string_loop.simps, subst int_string_loop.simps) (simp add: digits.simps)
  next
    case False
    then have "0 < v div 10" by auto
    then have "int_string_loop (v div 10) (digit (v mod 10) # buffer) = digits (v div 10) @ digit (v mod 10) # buffer"
      using 1 by blast
    then show ?thesis
      using 1(2) False by (subst int_string_loop.simps, subst digits.simps) simp
  qed
qed

lemma int_string_smallest: "int_string (- 9223372036854775808) = ''-''"
  by (simp add: int_string_def i64_def int_string_loop.simps)

text \<open>
  The hand-written \<open>intString\<close> writes every \<open>int\<close> in decimal, as
  \<open>strconv\<close> does, except the smallest one: its negation wraps around, the digit loop is not entered
  and only the sign is left.
\<close>

theorem int_string_decimal:
  assumes "in_i64 v"
  shows "int_string v = (if v = - 9223372036854775808 then ''-'' else show_int v)"
proof (cases "v = - 9223372036854775808")
  case True
  then show ?thesis using int_string_smallest by simp
next
  case False
  then have "i64 (- v) = - v" using assms by (intro i64_id) (auto simp: in_i64_def)
  then show ?thesis
    using False int_string_loop_digits[of v "[]"] int_string_loop_digits[of "- v" "[]"]
    by (auto simp: int_string_def show_int_def Let_def digits.simps[of 0] digit_def)
qed

theorem int_string_decimal_witness: "int_string (- 120) = ''-120'' \<and> in_i64 (- 120)"
proof -
  have "in_i64 (- 120)" by (simp add: in_i64_def)
  moreover have "show_int (- 120) = ''-120''" by (simp add: show_int_def digits.simps digit_def)
  ultimately show ?thesis using int_string_decimal[of "- 120"] by simp
qed

subsection \<open>Strata\<close>

definition matching_version :: string where "matching_version = ''exact-context-v2-neutral-controls''"
definition logit_version :: string where "logit_version = ''conditional-logit-v1''"

record stratum =
  sm_id :: string
  sm_player :: string
  sm_key :: string
  sm_observations :: "observation list"
  sm_quality :: real
  sm_policy :: string

definition hash16 :: "string \<Rightarrow> string" where "hash16 s = hex_encode (take 16 (sha256 s))"

definition matchable :: "observation \<Rightarrow> bool" where
  "matchable ob \<longleftrightarrow> \<not> (\<not> ob_independent ob \<or> ob_cue_class ob \<noteq> ''UNEXPLAINED_IN_CAPTURED_DATA'' \<or>
     (\<not> ob_strong ob \<and> \<not> ob_control ob))"

definition context_fields :: "observation \<Rightarrow> string list" where
  "context_fields ob = [ob_observer ob, ob_server ob, ob_map ob, ob_area ob, ob_movement_band ob,
     int_string (ob_stance ob), ob_weapon ob, ob_camera ob, ob_population_band ob, ob_cue_class ob,
     ob_policy ob]"

definition context_key :: "observation \<Rightarrow> string" where
  "context_key ob = join_with ''|'' (context_fields ob)"

definition count_if :: "('a \<Rightarrow> bool) \<Rightarrow> 'a list \<Rightarrow> int" where
  "count_if P xs = int (length (filter P xs))"

definition make_stratum :: "string \<Rightarrow> observation list \<Rightarrow> stratum option" where
  "make_stratum key items =
    (if count_if ob_strong items = 0 \<or> count_if ob_control items = 0 then None
     else
       (let sorted_items = sort_by (\<lambda>x y. ob_id x < ob_id y) items
        in Some \<lparr>sm_id = ''stratum_'' @ hash16 key, sm_player = ob_observer (hd sorted_items), sm_key = key,
             sm_observations = sorted_items, sm_quality = 1 / 2, sm_policy = matching_version\<rparr>))"

definition group_keys :: "observation list \<Rightarrow> string list" where
  "group_keys input = sort (remdups (map context_key (filter matchable input)))"

definition build_strata :: "observation list \<Rightarrow> stratum list" where
  "build_strata input = List.map_filter
     (\<lambda>key. make_stratum key (filter (\<lambda>ob. context_key ob = key) (filter matchable input))) (group_keys input)"

subsection \<open>What a stratum holds\<close>

lemma count_if_pos: "count_if P xs \<noteq> 0 \<longleftrightarrow> (\<exists>x \<in> set xs. P x)"
  by (auto simp: count_if_def filter_empty_conv)

lemma make_stratum_Some:
  assumes "make_stratum key items = Some s"
  shows "sm_key s = key" "mset (sm_observations s) = mset items" "sm_player s = ob_observer (hd (sm_observations s))"
    "\<exists>ob \<in> set items. ob_strong ob" "\<exists>ob \<in> set items. ob_control ob" "sm_observations s \<noteq> []"
proof -
  have c: "count_if ob_strong items \<noteq> 0" "count_if ob_control items \<noteq> 0"
    and s: "s = \<lparr>sm_id = ''stratum_'' @ hash16 key, sm_player = ob_observer (hd (sort_by (\<lambda>x y. ob_id x < ob_id y) items)),
      sm_key = key, sm_observations = sort_by (\<lambda>x y. ob_id x < ob_id y) items, sm_quality = 1 / 2,
      sm_policy = matching_version\<rparr>"
    using assms by (auto simp: make_stratum_def Let_def split: if_splits)
  show "sm_key s = key" "mset (sm_observations s) = mset items" "sm_player s = ob_observer (hd (sm_observations s))"
    by (simp_all add: s)
  show "\<exists>ob \<in> set items. ob_strong ob" "\<exists>ob \<in> set items. ob_control ob" using c by (simp_all add: count_if_pos)
  then have "sort_by (\<lambda>x y. ob_id x < ob_id y) items \<noteq> []" by (metis empty_iff list.set(1) set_sort_by)
  then show "sm_observations s \<noteq> []" by (simp add: s)
qed

lemma build_strata_member:
  assumes "s \<in> set (build_strata input)"
  shows "make_stratum (sm_key s) (filter (\<lambda>ob. context_key ob = sm_key s) (filter matchable input)) = Some s"
proof -
  obtain key where k: "make_stratum key (filter (\<lambda>ob. context_key ob = key) (filter matchable input)) = Some s"
    using assms by (auto simp: build_strata_def map_filter_def)
  then show ?thesis using make_stratum_Some(1)[OF k] by simp
qed

lemma build_strata_keys: "map sm_key (build_strata input) =
    filter (\<lambda>key. make_stratum key (filter (\<lambda>ob. context_key ob = key) (filter matchable input)) \<noteq> None) (group_keys input)"
proof -
  let ?f = "\<lambda>key. make_stratum key (filter (\<lambda>ob. context_key ob = key) (filter matchable input))"
  have "map sm_key (List.map_filter ?f ks) = filter (\<lambda>key. ?f key \<noteq> None) ks" for ks
    by (induction ks) (auto simp: map_filter_simps make_stratum_Some(1) split: option.split)
  then show ?thesis by (simp add: build_strata_def)
qed

definition clean_context :: "observation \<Rightarrow> bool" where
  "clean_context ob \<longleftrightarrow> list_all (\<lambda>f. CHR ''|'' \<notin> set f) (context_fields ob)"

lemma context_key_inj:
  assumes "clean_context x" "clean_context y" "context_key x = context_key y"
  shows "context_fields x = context_fields y"
  using assms join_with_inj[of "CHR ''|''" "context_fields x" "context_fields y"]
  by (simp add: clean_context_def context_key_def context_fields_def list_all_iff)

text \<open>
  Claim C26 [strata_exact_match]: the strata are the exact within-player matching the model needs, as
  long as no context field contains the separator \<open>|\<close>. A stratum holds exactly the independent,
  unexplained, eligible observations of its context, among them a hidden-target one and a neutral
  control; any two agree on all eleven context fields, so they have one observer, the stratum's
  player; no two strata have the same key; and every context with both kinds has its stratum.
\<close>

theorem strata_exact_match:
  assumes "\<forall>ob \<in> set input. clean_context ob"
  shows "distinct (map sm_key (build_strata input)) \<and>
    (\<forall>s \<in> set (build_strata input).
      mset (sm_observations s) = filter_mset (\<lambda>ob. matchable ob \<and> context_key ob = sm_key s) (mset input) \<and>
      (\<exists>h \<in> set (sm_observations s). ob_strong h) \<and> (\<exists>n \<in> set (sm_observations s). ob_control n) \<and>
      (\<forall>x \<in> set (sm_observations s). \<forall>y \<in> set (sm_observations s). context_fields x = context_fields y) \<and>
      (\<forall>x \<in> set (sm_observations s). ob_observer x = sm_player s)) \<and>
    (\<forall>h \<in> set input. \<forall>n \<in> set input. matchable h \<and> matchable n \<and> ob_strong h \<and> ob_control n \<and>
      context_key h = context_key n \<longrightarrow> (\<exists>s \<in> set (build_strata input). h \<in> set (sm_observations s)))"
proof (intro conjI ballI impI)
  show "distinct (map sm_key (build_strata input))"
    by (simp add: build_strata_keys group_keys_def)
next
  fix s assume "s \<in> set (build_strata input)"
  note m = make_stratum_Some[OF build_strata_member[OF this]]
  have items: "set (sm_observations s) = {ob \<in> set input. matchable ob \<and> context_key ob = sm_key s}"
    using m(2) by (metis (no_types, lifting) filter_filter mem_Collect_eq set_filter set_mset_mset subsetI subset_antisym)
  show "mset (sm_observations s) = filter_mset (\<lambda>ob. matchable ob \<and> context_key ob = sm_key s) (mset input)"
    using m(2) by simp
  show "\<exists>h \<in> set (sm_observations s). ob_strong h" "\<exists>n \<in> set (sm_observations s). ob_control n"
    using m(4,5) items by auto
  have same: "context_fields x = context_fields y" if "x \<in> set (sm_observations s)" "y \<in> set (sm_observations s)" for x y
    using that items assms by (auto intro: context_key_inj)
  show "context_fields x = context_fields y" if "x \<in> set (sm_observations s)" "y \<in> set (sm_observations s)" for x y
    using same[OF that] .
  show "ob_observer x = sm_player s" if "x \<in> set (sm_observations s)" for x
    using same[OF that hd_in_set[OF m(6)]] m(3) by (simp add: context_fields_def)
next
  fix h n assume hn: "h \<in> set input" "n \<in> set input"
    "matchable h \<and> matchable n \<and> ob_strong h \<and> ob_control n \<and> context_key h = context_key n"
  let ?items = "filter (\<lambda>ob. context_key ob = context_key h) (filter matchable input)"
  have "count_if ob_strong ?items \<noteq> 0" "count_if ob_control ?items \<noteq> 0"
    unfolding count_if_pos using hn by auto
  then have "make_stratum (context_key h) ?items \<noteq> None" by (simp add: make_stratum_def Let_def)
  then obtain s where s: "make_stratum (context_key h) ?items = Some s" by blast
  have "context_key h \<in> set (group_keys input)" using hn by (auto simp: group_keys_def)
  then have "s \<in> set (build_strata input)"
    using s by (force simp: build_strata_def map_filter_def)
  moreover have "h \<in> set (sm_observations s)"
    using make_stratum_Some(2)[OF s] hn by (metis (mono_tags, lifting) mem_Collect_eq set_filter set_mset_mset)
  ultimately show "\<exists>s \<in> set (build_strata input). h \<in> set (sm_observations s)" by blast
qed

definition plain_observation :: observation where
  "plain_observation = opportunity default_build_config
     \<lparr>fe_batch = sample_batch 3, fe_event = sample_event, fe_id = ''e'', fe_data = zero_wire\<rparr> 1000
     (''UNEXPLAINED_IN_CAPTURED_DATA'', None)"

abbreviation sample_pair :: "observation list" where
  "sample_pair \<equiv> [plain_observation\<lparr>ob_id := ''h'', ob_strong := True\<rparr>, plain_observation\<lparr>ob_id := ''n'', ob_control := True\<rparr>]"

lemma plain_fields [simp]:
  "ob_independent plain_observation" "ob_cue_class plain_observation = ''UNEXPLAINED_IN_CAPTURED_DATA''"
  "\<not> ob_strong plain_observation" "\<not> ob_control plain_observation" "\<not> ob_outcome plain_observation"
  "context_fields (plain_observation\<lparr>ob_id := i, ob_strong := a\<rparr>) = context_fields plain_observation"
  "context_fields (plain_observation\<lparr>ob_id := i, ob_control := a\<rparr>) = context_fields plain_observation"
  by (simp_all add: plain_observation_def opportunity_def Let_def context_fields_def)

lemma plain_clean: "clean_context plain_observation"
  by (simp add: clean_context_def context_fields_def plain_observation_def opportunity_def Let_def zero_wire_def
      sample_event_def movement_band_def population_band_def int_string_def sample_batch_def)

theorem strata_exact_match_witness:
  "\<exists>s \<in> set (build_strata sample_pair). plain_observation\<lparr>ob_id := ''h'', ob_strong := True\<rparr> \<in> set (sm_observations s) \<and>
    (\<forall>x \<in> set (sm_observations s). ob_observer x = sm_player s)"
proof -
  have "\<forall>ob \<in> set sample_pair. clean_context ob"
    using plain_clean by (simp add: clean_context_def)
  from strata_exact_match[OF this] show ?thesis
    by (simp add: matchable_def context_key_def)
qed

subsection \<open>The separator\<close>

text \<open>
  Claim C40 [strata_mix_players]: without that condition the matching is not within one player. The
  key joins the fields with \<open>|\<close> and identifiers may contain it, so a hidden-target observation of
  one observer and a neutral control of another fall into one stratum.
\<close>

theorem strata_mix_players:
  "\<exists>h n s. build_strata [h, n] = [s] \<and> h \<in> set (sm_observations s) \<and> n \<in> set (sm_observations s) \<and>
    ob_strong h \<and> ob_control n \<and> ob_observer h \<noteq> ob_observer n"
proof -
  let ?h = "plain_observation\<lparr>ob_id := ''h'', ob_strong := True, ob_observer := ''p|q'', ob_server := ''s''\<rparr>"
  let ?n = "plain_observation\<lparr>ob_id := ''n'', ob_control := True, ob_observer := ''p'', ob_server := ''q|s''\<rparr>"
  have key: "context_key ?h = context_key ?n"
    by (simp add: context_key_def context_fields_def)
  then have "group_keys [?h, ?n] = [context_key ?n]" by (simp add: group_keys_def matchable_def)
  then have "\<exists>s. build_strata [?h, ?n] = [s] \<and> sm_observations s = [?h, ?n]"
    using key by (simp add: build_strata_def map_filter_simps matchable_def make_stratum_def count_if_def)
  then show ?thesis by (intro exI[of _ ?h] exI[of _ ?n]) auto
qed

end
