(* ===== verification/Logit.thy ===== *)
theory Logit
  imports Strata
begin

section \<open>The conditional logit (\<open>internal/features/matched.go\<close>, fit)\<close>

text \<open>
  \<open>FitConditionalLogitForSessions\<close> reduces each useful stratum to four counts and runs at most 50
  damped Newton steps. The weights are computed from logarithms with the largest one subtracted;
  the lemmas show that this equals the textbook conditional moments. The theory works with exact
  reals, so it says nothing about rounding.
\<close>

record sufficient =
  sf_hidden :: int
  sf_control :: int
  sf_outcomes :: int
  sf_observed_hidden :: int

record logit_result =
  lr_player :: string
  lr_log_odds :: real
  lr_odds :: real
  lr_lower :: real
  lr_upper :: real
  lr_error :: real
  lr_strata :: int
  lr_count :: int
  lr_converged :: bool
  lr_separated :: bool
  lr_version :: string

text \<open>\<open>math.Lgamma(float64(n + 1))\<close> for the counts that occur.\<close>

definition lgamma_succ :: "int \<Rightarrow> real" where "lgamma_succ n = ln (fact (nat n))"

definition log_choose :: "int \<Rightarrow> int \<Rightarrow> real" where
  "log_choose n k = lgamma_succ n - lgamma_succ k - lgamma_succ (n - k)"

definition conditional_logs :: "int \<Rightarrow> int \<Rightarrow> int \<Rightarrow> real \<Rightarrow> real list" where
  "conditional_logs hidden control outcomes beta =
    map (\<lambda>k. log_choose hidden k + log_choose control (outcomes - k) + beta * of_int k)
      [max 0 (outcomes - control)..min hidden outcomes]"

text \<open>The largest logarithm (the list is never empty for a useful stratum).\<close>

definition max_log :: "real list \<Rightarrow> real" where
  "max_log xs = (case xs of [] \<Rightarrow> 0 | x # ys \<Rightarrow> foldl (\<lambda>m v. if v > m then v else m) x ys)"

definition conditional_moments :: "int \<Rightarrow> int \<Rightarrow> int \<Rightarrow> real \<Rightarrow> real \<times> real" where
  "conditional_moments hidden control outcomes beta =
    (let counts = [max 0 (outcomes - control)..min hidden outcomes];
         logs = conditional_logs hidden control outcomes beta;
         weights = map (\<lambda>v. exp (v - max_log logs)) logs;
         weight_sum = sum_list weights;
         first = sum_list (map (\<lambda>(k, w). of_int k * w) (zip counts weights));
         second = sum_list (map (\<lambda>(k, w). of_int k * of_int k * w) (zip counts weights));
         mean = first / weight_sum
     in (mean, second / weight_sum - mean * mean))"

definition sufficient_of :: "observation list \<Rightarrow> sufficient" where
  "sufficient_of obs = \<lparr>sf_hidden = count_if ob_strong obs, sf_control = count_if ob_control obs,
     sf_outcomes = count_if ob_outcome obs, sf_observed_hidden = count_if (\<lambda>ob. ob_outcome ob \<and> ob_strong ob) obs\<rparr>"

definition useful :: "sufficient \<Rightarrow> bool" where
  "useful v \<longleftrightarrow> \<not> (sf_hidden v = 0 \<or> sf_control v = 0 \<or> sf_outcomes v = 0 \<or>
     sf_outcomes v = sf_hidden v + sf_control v)"

definition useful_strata :: "string list \<Rightarrow> stratum list \<Rightarrow> sufficient list" where
  "useful_strata sessions strata = filter useful
     (map (\<lambda>s. sufficient_of (sm_observations s)) (filter (\<lambda>s. sm_player s \<in> set sessions) strata))"

definition moments_of :: "real \<Rightarrow> sufficient \<Rightarrow> real \<times> real" where
  "moments_of beta v = conditional_moments (sf_hidden v) (sf_control v) (sf_outcomes v) beta"

definition score :: "real \<Rightarrow> sufficient list \<Rightarrow> real" where
  "score beta us = sum_list (map (\<lambda>v. of_int (sf_observed_hidden v) - fst (moments_of beta v)) us)"

definition information :: "real \<Rightarrow> sufficient list \<Rightarrow> real" where
  "information beta us = sum_list (map (\<lambda>v. snd (moments_of beta v)) us)"

datatype newton_result = Separated | Converged real | Exhausted

definition clamp_step :: "real \<Rightarrow> real" where
  "clamp_step s = (let s1 = (if s > 2 then 2 else s) in if s1 < - 2 then - 2 else s1)"

primrec newton :: "nat \<Rightarrow> sufficient list \<Rightarrow> real \<Rightarrow> newton_result" where
  "newton 0 us beta = Exhausted"
| "newton (Suc n) us beta =
    (if information beta us < 1 / 10 ^ 10 then Separated
     else
       (let step = clamp_step (score beta us / information beta us); beta' = beta + step
        in if \<bar>beta'\<bar> > 20 then Separated
           else if \<bar>step\<bar> < 1 / 10 ^ 8 then Converged beta'
           else newton n us beta'))"

definition fit_logit :: "string \<Rightarrow> string list \<Rightarrow> stratum list \<Rightarrow> logit_result" where
  "fit_logit player sessions strata =
    (let us = useful_strata sessions strata;
         result = \<lparr>lr_player = player, lr_log_odds = 0, lr_odds = 0, lr_lower = 0, lr_upper = 0, lr_error = 0,
           lr_strata = int (length us), lr_count = sum_list (map (\<lambda>v. sf_hidden v + sf_control v) us),
           lr_converged = False, lr_separated = False, lr_version = logit_version\<rparr>
     in if us = [] then result
        else (case newton 50 us 0 of
            Separated \<Rightarrow> result\<lparr>lr_separated := True\<rparr>
          | Exhausted \<Rightarrow> result
          | Converged beta \<Rightarrow>
              (let i = information beta us in
               if i \<le> 0 then result\<lparr>lr_separated := True\<rparr>
               else (let se = 1 / sqrt i in
                 result\<lparr>lr_converged := True, lr_log_odds := beta, lr_error := se, lr_odds := exp beta,
                   lr_lower := exp (beta - 1.96 * se), lr_upper := exp (beta + 1.96 * se)\<rparr>))))"

definition fit_conditional_logit :: "string \<Rightarrow> stratum list \<Rightarrow> logit_result" where
  "fit_conditional_logit session strata = fit_logit session [session] strata"

subsection \<open>The moments are the textbook ones\<close>

lemma log_choose_binomial:
  assumes "0 \<le> k" "k \<le> n"
  shows "exp (log_choose n k) = real (nat n choose nat k)"
proof -
  have "nat k \<le> nat n" "nat (n - k) = nat n - nat k" using assms by auto
  then have "real (nat n choose nat k) = fact (nat n) / (fact (nat k) * fact (nat (n - k)))"
    by (simp add: binomial_fact)
  moreover have "exp (log_choose n k) = fact (nat n) / (fact (nat k) * fact (nat (n - k)))"
    by (simp add: log_choose_def lgamma_succ_def exp_diff)
  ultimately show ?thesis by simp
qed

text \<open>The weight of \<open>k\<close> hidden outcomes, and the moments as plain quotients of sums.\<close>

definition conditional_weight :: "int \<Rightarrow> int \<Rightarrow> int \<Rightarrow> real \<Rightarrow> int \<Rightarrow> real" where
  "conditional_weight hidden control outcomes beta k =
    real (nat hidden choose nat k) * real (nat control choose nat (outcomes - k)) * exp (beta * of_int k)"

definition textbook_mean :: "int \<Rightarrow> int \<Rightarrow> int \<Rightarrow> real \<Rightarrow> real" where
  "textbook_mean hidden control outcomes beta =
    (let ks = {max 0 (outcomes - control)..min hidden outcomes}; w = conditional_weight hidden control outcomes beta
     in (\<Sum>k \<in> ks. of_int k * w k) / (\<Sum>k \<in> ks. w k))"

definition textbook_variance :: "int \<Rightarrow> int \<Rightarrow> int \<Rightarrow> real \<Rightarrow> real" where
  "textbook_variance hidden control outcomes beta =
    (let ks = {max 0 (outcomes - control)..min hidden outcomes}; w = conditional_weight hidden control outcomes beta
     in (\<Sum>k \<in> ks. (of_int k - textbook_mean hidden control outcomes beta)\<^sup>2 * w k) / (\<Sum>k \<in> ks. w k))"

lemma sum_list_upto: "sum_list (map f [a..b]) = (\<Sum>k \<in> {a..b}. f k)" for a b :: int
  by (metis distinct_upto set_upto sum.distinct_set_conv_list)

lemma exp_logs:
  assumes "k \<in> {max 0 (outcomes - control)..min hidden outcomes}"
  shows "exp (log_choose hidden k + log_choose control (outcomes - k) + beta * of_int k - m) =
    conditional_weight hidden control outcomes beta k * exp (- m)"
proof -
  have "exp (log_choose hidden k) = real (nat hidden choose nat k)"
    "exp (log_choose control (outcomes - k)) = real (nat control choose nat (outcomes - k))"
    using assms by (auto intro!: log_choose_binomial)
  then show ?thesis by (simp add: conditional_weight_def exp_add exp_diff exp_minus divide_inverse)
qed

lemma zip_map_self: "zip xs (map f xs) = map (\<lambda>x. (x, f x)) xs"
  by (induction xs) auto

lemma conditional_moments_sums:
  fixes h c n :: int and beta :: real
  defines "ks \<equiv> {max 0 (n - c)..min h n}" and "w \<equiv> conditional_weight h c n beta"
  shows "conditional_moments h c n beta =
    (let m = (\<Sum>k \<in> ks. of_int k * w k) / (\<Sum>k \<in> ks. w k)
     in (m, (\<Sum>k \<in> ks. of_int k * of_int k * w k) / (\<Sum>k \<in> ks. w k) - m * m))"
proof -
  define z where "z = exp (- max_log (conditional_logs h c n beta))"
  have z: "z > 0" by (simp add: z_def)
  let ?counts = "[max 0 (n - c)..min h n]"
  have weights: "map (\<lambda>v. exp (v - max_log (conditional_logs h c n beta))) (conditional_logs h c n beta) =
      map (\<lambda>k. w k * z) ?counts"
    using exp_logs[of _ n c h beta "max_log (conditional_logs h c n beta)"]
    by (auto simp: conditional_logs_def w_def z_def)
  have sums: "sum_list (map (\<lambda>k. w k * z) ?counts) = (\<Sum>k \<in> ks. w k) * z"
    "sum_list (map (\<lambda>(k, v). of_int k * v) (zip ?counts (map (\<lambda>k. w k * z) ?counts))) = (\<Sum>k \<in> ks. of_int k * w k) * z"
    "sum_list (map (\<lambda>(k, v). of_int k * of_int k * v) (zip ?counts (map (\<lambda>k. w k * z) ?counts))) =
      (\<Sum>k \<in> ks. of_int k * of_int k * w k) * z"
    by (simp_all add: zip_map_self comp_def sum_list_upto ks_def sum_distrib_right mult.assoc)
  show ?thesis
    unfolding conditional_moments_def weights Let_def sums using z by simp
qed

lemma weights_pos:
  assumes "0 \<le> h" "0 \<le> c" "0 \<le> n" "n \<le> h + c"
  shows "0 < (\<Sum>k \<in> {max 0 (n - c)..min h n}. conditional_weight h c n beta k)"
proof (rule sum_pos)
  show "{max 0 (n - c)..min h n} \<noteq> {}" using assms by auto
  show "0 < conditional_weight h c n beta k" if "k \<in> {max 0 (n - c)..min h n}" for k
    using that assms by (simp add: conditional_weight_def zero_less_binomial_iff nat_le_iff)
qed simp

text \<open>The mean and the spread around it of positive weights.\<close>

lemma weighted_spread:
  fixes w :: "int \<Rightarrow> real"
  assumes "finite ks" "0 < (\<Sum>k \<in> ks. w k)"
  defines "m \<equiv> (\<Sum>k \<in> ks. of_int k * w k) / (\<Sum>k \<in> ks. w k)"
  shows "(\<Sum>k \<in> ks. of_int k * of_int k * w k) / (\<Sum>k \<in> ks. w k) - m * m =
    (\<Sum>k \<in> ks. (of_int k - m)\<^sup>2 * w k) / (\<Sum>k \<in> ks. w k)"
proof -
  let ?W = "\<Sum>k \<in> ks. w k"
  have "(\<Sum>k \<in> ks. (of_int k - m)\<^sup>2 * w k) =
      (\<Sum>k \<in> ks. of_int k * of_int k * w k - 2 * m * (of_int k * w k) + m * m * w k)"
    by (rule sum.cong) (auto simp: power2_eq_square algebra_simps)
  also have "\<dots> = (\<Sum>k \<in> ks. of_int k * of_int k * w k) - 2 * m * (\<Sum>k \<in> ks. of_int k * w k) + m * m * ?W"
    by (simp add: sum.distrib sum_subtractf sum_distrib_left)
  also have "(\<Sum>k \<in> ks. of_int k * w k) = m * ?W" using assms(2) by (simp add: m_def)
  finally show ?thesis using assms(2) by (simp add: field_simps)
qed

lemma weighted_mean_bounds:
  fixes w :: "int \<Rightarrow> real"
  assumes "\<And>k. k \<in> ks \<Longrightarrow> a \<le> k \<and> k \<le> b \<and> 0 \<le> w k" "0 < (\<Sum>k \<in> ks. w k)"
  shows "of_int a \<le> (\<Sum>k \<in> ks. of_int k * w k) / (\<Sum>k \<in> ks. w k)"
    "(\<Sum>k \<in> ks. of_int k * w k) / (\<Sum>k \<in> ks. w k) \<le> of_int b"
proof -
  have "(\<Sum>k \<in> ks. of_int a * w k) \<le> (\<Sum>k \<in> ks. of_int k * w k)"
    "(\<Sum>k \<in> ks. of_int k * w k) \<le> (\<Sum>k \<in> ks. of_int b * w k)"
    using assms(1) by (auto intro!: sum_mono mult_right_mono)
  then show "of_int a \<le> (\<Sum>k \<in> ks. of_int k * w k) / (\<Sum>k \<in> ks. w k)"
    "(\<Sum>k \<in> ks. of_int k * w k) / (\<Sum>k \<in> ks. w k) \<le> of_int b"
    using assms(2) by (simp_all add: pos_le_divide_eq pos_divide_le_eq flip: sum_distrib_left)
qed

lemma conditional_weight_nonneg [simp]: "0 \<le> conditional_weight h c n beta k"
  by (simp add: conditional_weight_def)

text \<open>
  Claim C27 [moments_textbook]: the numerically shifted computation is exact. For every stratum with
  counts in range and every coefficient, the two values of \<open>conditionalMoments\<close> are the mean and the
  variance of the number of hidden outcomes under the conditional (noncentral hypergeometric) law
  with weights \<open>C(h, k) C(c, n - k) exp(beta k)\<close>; the mean lies in the range of possible counts and
  the variance is not negative.
\<close>

theorem moments_textbook:
  assumes "0 \<le> h" "0 \<le> c" "0 \<le> n" "n \<le> h + c"
  shows "conditional_moments h c n beta = (textbook_mean h c n beta, textbook_variance h c n beta) \<and>
    of_int (max 0 (n - c)) \<le> textbook_mean h c n beta \<and> textbook_mean h c n beta \<le> of_int (min h n) \<and>
    0 \<le> textbook_variance h c n beta"
proof -
  let ?ks = "{max 0 (n - c)..min h n}" and ?w = "conditional_weight h c n beta"
  note pos = weights_pos[OF assms, of beta]
  have "conditional_moments h c n beta = (textbook_mean h c n beta, textbook_variance h c n beta)"
    unfolding conditional_moments_sums textbook_mean_def textbook_variance_def Let_def
    by (subst weighted_spread[OF finite_atLeastAtMost_int pos]) (rule refl)
  moreover have "of_int (max 0 (n - c)) \<le> textbook_mean h c n beta"
    unfolding textbook_mean_def Let_def by (rule weighted_mean_bounds(1)[OF _ pos, where b = "min h n"]) simp
  moreover have "textbook_mean h c n beta \<le> of_int (min h n)"
    unfolding textbook_mean_def Let_def by (rule weighted_mean_bounds(2)[OF _ pos, where a = "max 0 (n - c)"]) simp
  moreover have "0 \<le> textbook_variance h c n beta"
    unfolding textbook_variance_def Let_def using pos by (intro divide_nonneg_pos sum_nonneg) simp_all
  ultimately show ?thesis by blast
qed

lemma moments_sample: "conditional_moments 1 1 1 0 = (1 / 2, 1 / 4)"
  by (simp add: conditional_moments_def conditional_logs_def log_choose_def lgamma_succ_def max_log_def
      upto.simps Let_def)

theorem moments_textbook_witness: "textbook_mean 1 1 1 0 = 1 / 2 \<and> textbook_variance 1 1 1 0 = 1 / 4"
  using moments_textbook[of 1 1 1 0] moments_sample by simp

subsection \<open>What a fit reports\<close>

lemma clamp_step_small: "\<bar>clamp_step s\<bar> < 1 / 10 ^ 8 \<Longrightarrow> clamp_step s = s"
  by (auto simp: clamp_step_def Let_def split: if_splits)

lemma newton_Converged:
  "newton n us b0 = Converged b \<Longrightarrow> \<bar>b\<bar> \<le> 20 \<and>
    (\<exists>b'. \<bar>b - b'\<bar> < 1 / 10 ^ 8 \<and> \<bar>score b' us\<bar> < information b' us / 10 ^ 8)"
proof (induction n arbitrary: b0)
  case 0
  then show ?case by simp
next
  case (Suc n)
  let ?i = "information b0 us" and ?s = "score b0 us / information b0 us"
  have i: "\<not> ?i < 1 / 10 ^ 10" using Suc.prems by (auto split: if_splits)
  then have i0: "0 < ?i" by (meson linorder_not_less less_le_trans zero_less_divide_1_iff zero_less_numeral zero_less_power)
  show ?case
  proof (cases "\<bar>b0 + clamp_step ?s\<bar> \<le> 20 \<and> \<bar>clamp_step ?s\<bar> < 1 / 10 ^ 8")
    case True
    then have b: "b = b0 + clamp_step ?s" using Suc.prems i by (simp add: Let_def del: power_divide)
    have "\<bar>?s\<bar> < 1 / 10 ^ 8" using True clamp_step_small by metis
    then have "\<bar>score b0 us\<bar> < ?i / 10 ^ 8" using i0 by (simp add: abs_divide field_simps)
    then show ?thesis using True b by (intro conjI exI[of _ b0]) auto
  next
    case False
    then have "newton n us (b0 + clamp_step ?s) = Converged b"
      using Suc.prems i by (auto simp: Let_def split: if_splits)
    then show ?thesis using Suc.IH by blast
  qed
qed

lemma fit_logit_cases:
  fixes player sessions strata defines "us \<equiv> useful_strata sessions strata" and "r \<equiv> fit_logit player sessions strata"
  obtains (suppressed) "\<not> lr_converged r" "lr_log_odds r = 0" "lr_odds r = 0" "lr_lower r = 0" "lr_upper r = 0"
      "lr_error r = 0" "lr_strata r = int (length us)"
    | (fitted) beta where "newton 50 us 0 = Converged beta" "0 < information beta us" "us \<noteq> []" "lr_converged r"
      "\<not> lr_separated r" "lr_log_odds r = beta" "lr_error r = 1 / sqrt (information beta us)" "lr_odds r = exp beta"
      "lr_lower r = exp (beta - 1.96 * lr_error r)" "lr_upper r = exp (beta + 1.96 * lr_error r)"
      "lr_strata r = int (length us)"
proof -
  define base where "base = \<lparr>lr_player = player, lr_log_odds = 0, lr_odds = 0, lr_lower = 0, lr_upper = 0,
    lr_error = 0, lr_strata = int (length us), lr_count = sum_list (map (\<lambda>v. sf_hidden v + sf_control v) us),
    lr_converged = False, lr_separated = False, lr_version = logit_version\<rparr>"
  have r: "r = (if us = [] then base
    else (case newton 50 us 0 of
        Separated \<Rightarrow> base\<lparr>lr_separated := True\<rparr>
      | Exhausted \<Rightarrow> base
      | Converged beta \<Rightarrow>
          (if information beta us \<le> 0 then base\<lparr>lr_separated := True\<rparr>
           else base\<lparr>lr_converged := True, lr_log_odds := beta, lr_error := 1 / sqrt (information beta us),
             lr_odds := exp beta, lr_lower := exp (beta - 1.96 * (1 / sqrt (information beta us))),
             lr_upper := exp (beta + 1.96 * (1 / sqrt (information beta us)))\<rparr>)))"
    by (simp only: r_def fit_logit_def us_def base_def Let_def)
  show ?thesis
  proof (cases "us = []")
    case True
    then show ?thesis by (intro suppressed) (simp_all add: r base_def)
  next
    case False
    show ?thesis
    proof (cases "newton 50 us 0")
      case (Converged beta)
      show ?thesis
      proof (cases "information beta us \<le> 0")
        case True
        then show ?thesis using False Converged by (intro suppressed) (simp_all add: r base_def)
      next
        case pos: False
        have "r = base\<lparr>lr_converged := True, lr_log_odds := beta, lr_error := 1 / sqrt (information beta us),
             lr_odds := exp beta, lr_lower := exp (beta - 1.96 * (1 / sqrt (information beta us))),
             lr_upper := exp (beta + 1.96 * (1 / sqrt (information beta us)))\<rparr>"
          unfolding r using False Converged pos by simp
        then show ?thesis using False Converged pos by (intro fitted[of beta]) (simp_all add: base_def)
      qed
    qed (use False in \<open>intro suppressed, simp_all add: r base_def\<close>)+
  qed
qed


text \<open>Two strata whose single outcomes balance.\<close>

definition pair_stratum :: "bool \<Rightarrow> bool \<Rightarrow> stratum" where
  "pair_stratum a b = \<lparr>sm_id = ''s'', sm_player = ''p'', sm_key = ''k'',
     sm_observations = [plain_observation\<lparr>ob_strong := True, ob_outcome := a\<rparr>,
       plain_observation\<lparr>ob_control := True, ob_outcome := b\<rparr>], sm_quality = 1 / 2, sm_policy = matching_version\<rparr>"

lemma fit_sample: "lr_converged (fit_logit ''p'' [''p''] [pair_stratum True False, pair_stratum False True])"
proof -
  let ?us = "[\<lparr>sf_hidden = 1, sf_control = 1, sf_outcomes = 1, sf_observed_hidden = 1\<rparr>,
    \<lparr>sf_hidden = 1, sf_control = 1, sf_outcomes = 1, sf_observed_hidden = 0\<rparr>]"
  have us: "useful_strata [''p''] [pair_stratum True False, pair_stratum False True] = ?us"
    by (simp add: useful_strata_def pair_stratum_def sufficient_of_def count_if_def useful_def)
  have "conditional_moments 1 1 1 0 = (1 / 2, 1 / 4)" using moments_sample .
  then have m: "score 0 ?us = 0" "information 0 ?us = 1 / 2"
    by (simp_all add: score_def information_def moments_of_def)
  have "newton (Suc 49) ?us 0 = Converged 0"
    unfolding newton.simps(2) by (simp add: m clamp_step_def)
  moreover have "Suc 49 = 50" by simp
  ultimately have "newton 50 ?us 0 = Converged 0" by (simp only:)
  then show ?thesis unfolding fit_logit_def us Let_def by (simp add: m)
qed


end
