(* ===== verification/Readiness.thy ===== *)
theory Readiness
  imports Strata
begin

section \<open>Readiness lift and its stability (\<open>internal/features/readiness.go\<close>, \<open>stability.go\<close>)\<close>

text \<open>
  The beta-binomial estimate of how much readier a player is with a hidden target than without one,
  and the same estimate with each session left out in turn. The sets of the code are counted by
  \<open>remdups\<close>; arithmetic is that of exact reals.
\<close>

subsection \<open>The estimate\<close>

record readiness =
  rd_player :: string
  rd_hidden_successes :: int
  rd_hidden_trials :: int
  rd_control_successes :: int
  rd_control_trials :: int
  rd_hidden_mean :: real
  rd_hidden_lower :: real
  rd_control_mean :: real
  rd_lift :: real
  rd_lift_lower :: real
  rd_sessions :: int
  rd_encounters :: int
  rd_targets :: int
  rd_version :: string

definition readiness_version :: string where "readiness_version = ''beta-binomial-v3-neutral-controls''"

definition beta_moments :: "real \<Rightarrow> real \<Rightarrow> real \<times> real" where
  "beta_moments alpha beta =
    (let total = alpha + beta in (alpha / total, alpha * beta / (total * total * (total + 1))))"

definition clamp01 :: "real \<Rightarrow> real" where
  "clamp01 v = (if v < 0 then 0 else if v > 1 then 1 else v)"

definition qualifies :: "string list \<Rightarrow> observation \<Rightarrow> bool" where
  "qualifies sessions ob \<longleftrightarrow> ob_observer ob \<in> set sessions \<and> ob_independent ob \<and>
     ob_cue_class ob = ''UNEXPLAINED_IN_CAPTURED_DATA''"

definition target_key :: "observation \<Rightarrow> string" where
  "target_key ob = (if ob_target_key ob = [] then ob_target ob else ob_target_key ob)"

definition distinct_count :: "'a list \<Rightarrow> int" where
  "distinct_count xs = int (length (remdups xs))"

definition estimate_readiness :: "string \<Rightarrow> string list \<Rightarrow> observation list \<Rightarrow> real \<Rightarrow> real \<Rightarrow> readiness" where
  "estimate_readiness player sessions input prior_alpha prior_beta =
    (let usable = prior_alpha > 0 \<and> prior_beta > 0;
         alpha = (if usable then prior_alpha else 1); beta = (if usable then prior_beta else 1);
         hidden = filter ob_strong (filter (qualifies sessions) input);
         control = filter (\<lambda>ob. \<not> ob_strong ob \<and> ob_control ob) (filter (qualifies sessions) input);
         used = filter (\<lambda>ob. ob_strong ob \<or> ob_control ob) (filter (qualifies sessions) input);
         hs = count_if ob_outcome hidden; ht = int (length hidden);
         cs = count_if ob_outcome control; ct = int (length control);
         hm = beta_moments (alpha + of_int hs) (beta + of_int (ht - hs));
         cm = beta_moments (alpha + of_int cs) (beta + of_int (ct - cs))
     in \<lparr>rd_player = player, rd_hidden_successes = hs, rd_hidden_trials = ht, rd_control_successes = cs,
          rd_control_trials = ct, rd_hidden_mean = fst hm, rd_hidden_lower = clamp01 (fst hm - 1.96 * sqrt (snd hm)),
          rd_control_mean = fst cm, rd_lift = fst hm - fst cm,
          rd_lift_lower = fst hm - fst cm - 1.96 * sqrt (snd hm + snd cm),
          rd_sessions = distinct_count (map ob_observer used),
          rd_encounters = distinct_count (map ob_encounter used),
          rd_targets = distinct_count (filter (\<lambda>k. k \<noteq> []) (map target_key used)),
          rd_version = readiness_version\<rparr>)"

definition estimate_session :: "string \<Rightarrow> observation list \<Rightarrow> real \<Rightarrow> real \<Rightarrow> readiness" where
  "estimate_session session input a b = estimate_readiness session [session] input a b"

subsection \<open>Leave one session out\<close>

record stability =
  sb_sessions :: int
  sb_minimum :: real
  sb_maximum :: real
  sb_rank_change :: int
  sb_stable :: bool
  sb_version :: string

definition stability_version :: string where "stability_version = ''leave-one-session-out-v1''"

definition without_nth :: "nat \<Rightarrow> 'a list \<Rightarrow> 'a list" where
  "without_nth k xs = take k xs @ drop (Suc k) xs"

definition least_of :: "real list \<Rightarrow> real" where
  "least_of xs = foldl (\<lambda>m v. if v < m then v else m) (hd xs) (tl xs)"

definition greatest_of :: "real list \<Rightarrow> real" where
  "greatest_of xs = foldl (\<lambda>m v. if v > m then v else m) (hd xs) (tl xs)"

definition leave_one_out :: "string \<Rightarrow> string list \<Rightarrow> observation list \<Rightarrow> real \<Rightarrow> real \<Rightarrow> readiness list" where
  "leave_one_out player sessions input a b =
    (let sorted_sessions = sort sessions
     in map (\<lambda>k. estimate_readiness player (without_nth k sorted_sessions) input a b) [0..<length sorted_sessions])"

definition leave_one_session_out :: "string \<Rightarrow> string list \<Rightarrow> observation list \<Rightarrow> real \<Rightarrow> real \<Rightarrow> stability" where
  "leave_one_session_out player sessions input a b =
    (if length sessions < 2
     then \<lparr>sb_sessions = int (length sessions), sb_minimum = 0, sb_maximum = 0, sb_rank_change = 0,
       sb_stable = False, sb_version = stability_version\<rparr>
     else
       (let estimates = leave_one_out player sessions input a b
        in \<lparr>sb_sessions = int (length sessions), sb_minimum = least_of (map rd_lift estimates),
             sb_maximum = greatest_of (map rd_lift estimates), sb_rank_change = 0,
             sb_stable = list_all (\<lambda>r. \<not> rd_lift_lower r \<le> 0) estimates, sb_version = stability_version\<rparr>))"

subsection \<open>Bounds\<close>

lemma beta_moments_bounds:
  assumes "0 < alpha" "0 < beta"
  shows "0 < fst (beta_moments alpha beta)" "fst (beta_moments alpha beta) < 1"
    "0 < snd (beta_moments alpha beta)" "snd (beta_moments alpha beta) < 1 / 4"
proof -
  let ?t = "alpha + beta"
  show "0 < fst (beta_moments alpha beta)" "fst (beta_moments alpha beta) < 1" "0 < snd (beta_moments alpha beta)"
    using assms by (simp_all add: beta_moments_def Let_def)
  have "4 * (alpha * beta) \<le> ?t * ?t"
    using sum_squares_bound[of alpha beta] by (simp add: power2_eq_square algebra_simps)
  moreover have "?t * ?t * 1 < ?t * ?t * (?t + 1)" using assms by (intro mult_strict_left_mono) auto
  ultimately have "4 * (alpha * beta) < ?t * ?t * (?t + 1)" by linarith
  then show "snd (beta_moments alpha beta) < 1 / 4"
    using assms by (simp add: beta_moments_def Let_def pos_divide_less_eq)
qed

lemma clamp01_bounds: "0 \<le> clamp01 v" "v \<le> m \<Longrightarrow> 0 \<le> m \<Longrightarrow> clamp01 v \<le> m"
  by (auto simp: clamp01_def)

lemma count_if_le: "0 \<le> count_if P xs" "count_if P xs \<le> int (length xs)"
  by (simp_all add: count_if_def)

lemma distinct_count_le: "0 \<le> distinct_count xs" "distinct_count xs \<le> int (length xs)"
  by (simp_all add: distinct_count_def length_remdups_leq)

lemma used_length:
  "length (filter (\<lambda>ob. ob_strong ob \<or> ob_control ob) xs) =
    length (filter ob_strong xs) + length (filter (\<lambda>ob. \<not> ob_strong ob \<and> ob_control ob) xs)"
  by (induction xs) auto

lemma distinct_count_filter: "distinct_count (filter P (map f xs)) \<le> int (length xs)"
  using distinct_count_le(2)[of "filter P (map f xs)"] length_filter_le[of P "map f xs"]
  by (simp only: length_map)

lemma count_if_mset: "mset xs = mset ys \<Longrightarrow> count_if P xs = count_if P ys"
  unfolding count_if_def by (metis mset_filter size_mset)

lemma distinct_count_cong: "set xs = set ys \<Longrightarrow> distinct_count xs = distinct_count ys"
  by (simp add: distinct_count_def length_remdups_card_conv)

lemma distinct_count_subset: "set xs \<subseteq> set ys \<Longrightarrow> distinct_count xs \<le> distinct_count ys"
  by (simp add: distinct_count_def length_remdups_card_conv card_mono)

lemma estimate_readiness_mset:
  assumes "mset input' = mset input"
  shows "estimate_readiness player sessions input' a b = estimate_readiness player sessions input a b"
proof -
  have f: "mset (filter P input') = mset (filter P input)" for P using assms by simp
  have "set input' = set input" using assms by (metis set_mset_mset)
  moreover have "length (filter P input') = length (filter P input)" for P using f by (metis size_mset)
  moreover have "count_if ob_outcome (filter P input') = count_if ob_outcome (filter P input)" for P
    using f by (rule count_if_mset)
  ultimately show ?thesis
    unfolding estimate_readiness_def Let_def filter_filter
    by (simp add: distinct_count_def length_remdups_card_conv)
qed

lemma estimate_readiness_fields:
  fixes player sessions input a b
  defines "r \<equiv> estimate_readiness player sessions input a b"
    and "alpha \<equiv> if a > 0 \<and> b > 0 then a else 1" and "beta \<equiv> if a > 0 \<and> b > 0 then b else 1"
  shows "0 \<le> rd_hidden_successes r" "rd_hidden_successes r \<le> rd_hidden_trials r"
    "0 \<le> rd_control_successes r" "rd_control_successes r \<le> rd_control_trials r"
    "rd_hidden_mean r = fst (beta_moments (alpha + of_int (rd_hidden_successes r))
       (beta + of_int (rd_hidden_trials r - rd_hidden_successes r)))"
    "rd_control_mean r = fst (beta_moments (alpha + of_int (rd_control_successes r))
       (beta + of_int (rd_control_trials r - rd_control_successes r)))"
    "rd_lift r = rd_hidden_mean r - rd_control_mean r"
    "rd_hidden_lower r = clamp01 (rd_hidden_mean r - 1.96 * sqrt (snd (beta_moments (alpha + of_int (rd_hidden_successes r))
       (beta + of_int (rd_hidden_trials r - rd_hidden_successes r)))))"
    "rd_lift_lower r = rd_lift r - 1.96 * sqrt (snd (beta_moments (alpha + of_int (rd_hidden_successes r))
       (beta + of_int (rd_hidden_trials r - rd_hidden_successes r))) +
       snd (beta_moments (alpha + of_int (rd_control_successes r))
       (beta + of_int (rd_control_trials r - rd_control_successes r))))"
  by (simp_all add: r_def alpha_def beta_def estimate_readiness_def Let_def count_if_le)

lemma estimate_readiness_counts:
  fixes player sessions input a b
  defines "r \<equiv> estimate_readiness player sessions input a b"
  shows "rd_sessions r \<le> distinct_count sessions" "rd_sessions r \<le> rd_hidden_trials r + rd_control_trials r"
    "rd_encounters r \<le> rd_hidden_trials r + rd_control_trials r" "rd_targets r \<le> rd_hidden_trials r + rd_control_trials r"
proof -
  define used where "used = filter (\<lambda>ob. ob_strong ob \<or> ob_control ob) (filter (qualifies sessions) input)"
  have total: "rd_hidden_trials r + rd_control_trials r = int (length used)"
    unfolding used_def used_length by (simp add: r_def estimate_readiness_def Let_def)
  have f: "rd_sessions r = distinct_count (map ob_observer used)" "rd_encounters r = distinct_count (map ob_encounter used)"
    "rd_targets r = distinct_count (filter (\<lambda>k. k \<noteq> []) (map target_key used))"
    by (simp_all add: r_def estimate_readiness_def Let_def used_def)
  show "rd_sessions r \<le> distinct_count sessions"
    unfolding f by (rule distinct_count_subset) (auto simp: used_def qualifies_def)
  show "rd_sessions r \<le> rd_hidden_trials r + rd_control_trials r"
    "rd_encounters r \<le> rd_hidden_trials r + rd_control_trials r" "rd_targets r \<le> rd_hidden_trials r + rd_control_trials r"
    unfolding f total using distinct_count_filter[of "\<lambda>_. True" ob_observer used]
      distinct_count_filter[of "\<lambda>_. True" ob_encounter used] distinct_count_filter by simp_all
qed

text \<open>
  Claim C29 [readiness_bounds]: the estimate is a probability statement whatever the input. Successes
  never exceed trials, both posterior means lie strictly between 0 and 1, the lower bound of the
  hidden rate lies in \<open>[0, mean]\<close>, the lift lies in \<open>(-1, 1)\<close> above its own lower bound, and the
  numbers of independent sessions, encounters and targets never exceed the number of trials, nor the
  sessions the number of sessions asked for. It does not depend on the order of the observations.
\<close>

theorem readiness_bounds:
  fixes player sessions input a b
  defines "r \<equiv> estimate_readiness player sessions input a b"
  assumes "mset input' = mset input"
  shows "0 \<le> rd_hidden_successes r \<and> rd_hidden_successes r \<le> rd_hidden_trials r \<and>
    0 \<le> rd_control_successes r \<and> rd_control_successes r \<le> rd_control_trials r \<and>
    0 < rd_hidden_mean r \<and> rd_hidden_mean r < 1 \<and> 0 < rd_control_mean r \<and> rd_control_mean r < 1 \<and>
    0 \<le> rd_hidden_lower r \<and> rd_hidden_lower r \<le> rd_hidden_mean r \<and>
    - 1 < rd_lift r \<and> rd_lift r < 1 \<and> rd_lift_lower r < rd_lift r \<and>
    rd_sessions r \<le> distinct_count sessions \<and>
    max (rd_sessions r) (max (rd_encounters r) (rd_targets r)) \<le> rd_hidden_trials r + rd_control_trials r \<and>
    estimate_readiness player sessions input' a b = r"
proof -
  let ?a = "if a > 0 \<and> b > 0 then a else 1" and ?b = "if a > 0 \<and> b > 0 then b else 1"
  note f = estimate_readiness_fields[where a = a and b = b and player = player and sessions = sessions and input = input, folded r_def]
  let ?h = "beta_moments (?a + of_int (rd_hidden_successes r)) (?b + of_int (rd_hidden_trials r - rd_hidden_successes r))"
  let ?c = "beta_moments (?a + of_int (rd_control_successes r)) (?b + of_int (rd_control_trials r - rd_control_successes r))"
  have h: "0 < fst ?h" "fst ?h < 1" "0 < snd ?h" and c: "0 < fst ?c" "fst ?c < 1" "0 < snd ?c"
    using f(1-4) by (intro beta_moments_bounds; auto)+
  have m: "rd_hidden_mean r = fst ?h" "rd_control_mean r = fst ?c" using f(5,6) .
  have "0 \<le> rd_hidden_lower r" "rd_hidden_lower r \<le> rd_hidden_mean r"
    unfolding f(8) m(1) using h(1,3) by (auto intro!: clamp01_bounds)
  moreover have "rd_lift_lower r < rd_lift r" unfolding f(9) using h(3) c(3) by simp
  moreover have "- 1 < rd_lift r" "rd_lift r < 1" unfolding f(7) m using h(1,2) c(1,2) by linarith+
  moreover note estimate_readiness_counts[of player sessions input a b, folded r_def]
  ultimately show ?thesis
    using f(1-4) h(1,2) c(1,2) m estimate_readiness_mset[OF assms(2)] by (simp add: r_def)
qed

theorem readiness_bounds_witness:
  "rd_lift_lower (estimate_readiness ''p'' [''q''] sample_pair 5 5) < rd_lift (estimate_readiness ''p'' [''q''] sample_pair 5 5) \<and>
    estimate_readiness ''p'' [''q''] (rev sample_pair) 5 5 = estimate_readiness ''p'' [''q''] sample_pair 5 5"
  using readiness_bounds[of "rev sample_pair" sample_pair "''p''" "[''q'']" 5 5] by simp

end
