(* ===== verification/Validation.thy ===== *)
theory Validation
  imports Readiness
begin

section \<open>Negative controls and screens (\<open>internal/features/validation.go\<close>)\<close>

text \<open>
  The negative controls run before anything is ranked, the step-up adjustment of p-values, and the
  robust cohort score. A Go map is a list of pairs with distinct keys in any order.
\<close>

subsection \<open>Negative controls\<close>

record control_check =
  ck_name :: string
  ck_available :: bool
  ck_effect :: real
  ck_passed :: bool
  ck_reason :: string

record control_result =
  cr_passed :: bool
  cr_limit :: real
  cr_checks :: "control_check list"
  cr_version :: string

definition validation_version :: string where "validation_version = ''negative-controls-v1''"

record tally =
  ta_hidden_success :: int
  ta_hidden :: int
  ta_control_success :: int
  ta_control :: int

definition tally_pair :: "bool \<Rightarrow> observation \<Rightarrow> observation \<Rightarrow> tally \<Rightarrow> tally" where
  "tally_pair outcomes_moved item rotated t =
    (let hidden = (if outcomes_moved then ob_strong item else ob_strong rotated);
         outcome = (if outcomes_moved then ob_outcome rotated else ob_outcome item)
     in if hidden then
          t\<lparr>ta_hidden := ta_hidden t + 1,
            ta_hidden_success := ta_hidden_success t + (if outcome then 1 else 0)\<rparr>
        else if ob_control item \<or> (\<not> outcomes_moved \<and> ob_control rotated) then
          t\<lparr>ta_control := ta_control t + 1,
            ta_control_success := ta_control_success t + (if outcome then 1 else 0)\<rparr>
        else t)"

definition tally_stratum :: "bool \<Rightarrow> observation list \<Rightarrow> tally \<Rightarrow> tally" where
  "tally_stratum outcomes_moved items t =
    (if length items < 2 then t
     else foldl (\<lambda>t k. tally_pair outcomes_moved (items ! k) (items ! (Suc k mod length items)) t) t [0..<length items])"

definition rotated_effect :: "stratum list \<Rightarrow> bool \<Rightarrow> real option" where
  "rotated_effect strata outcomes_moved =
    (let available = list_ex (\<lambda>s. \<not> length (sm_observations s) < 2) strata;
         t = foldl (\<lambda>t s. tally_stratum outcomes_moved (sm_observations s) t)
           \<lparr>ta_hidden_success = 0, ta_hidden = 0, ta_control_success = 0, ta_control = 0\<rparr> strata
     in if \<not> available \<or> ta_hidden t = 0 \<or> ta_control t = 0 then None
        else Some (of_int (ta_hidden_success t) / of_int (ta_hidden t) -
          of_int (ta_control_success t) / of_int (ta_control t)))"

definition check_control :: "string \<Rightarrow> real option \<Rightarrow> real \<Rightarrow> string \<Rightarrow> control_check" where
  "check_control name effect limit reason = (case effect of
      None \<Rightarrow> \<lparr>ck_name = name, ck_available = False, ck_effect = 0, ck_passed = False, ck_reason = reason\<rparr>
    | Some e \<Rightarrow> \<lparr>ck_name = name, ck_available = True, ck_effect = e, ck_passed = \<bar>e\<bar> < limit,
        ck_reason = (if \<bar>e\<bar> < limit then [] else ''material signal detected in negative control'')\<rparr>)"

definition unavailable :: "string \<Rightarrow> string \<Rightarrow> control_check" where
  "unavailable name reason = \<lparr>ck_name = name, ck_available = False, ck_effect = 0, ck_passed = False,
     ck_reason = reason\<rparr>"

definition run_negative_controls :: "stratum list \<Rightarrow> real \<Rightarrow> control_result" where
  "run_negative_controls strata materiality =
    (let limit = (if materiality \<le> 0 then 0.05 else materiality);
         checks =
          [check_control ''random opportunity labels permuted within matched strata''
             (rotated_effect strata False) limit ''requires at least one rotatable matched stratum'',
           check_control ''outcomes shifted outside the declared decision window''
             (rotated_effect strata True) limit ''requires at least one rotatable matched stratum'',
           unavailable ''future and time-shuffled target positions'' ''requires replayed target trajectories'',
           unavailable ''randomly reassigned target identities''
             ''requires multiple eligible target trajectories per risk set'',
           unavailable ''pseudo-target sectors'' ''requires validated camera headings and candidate-sector geometry'',
           unavailable ''deliberately delayed visibility probes'' ''requires controlled delayed-probe fixture'']
     in \<lparr>cr_passed = list_all (\<lambda>c. \<not> (\<not> ck_available c \<or> \<not> ck_passed c)) checks, cr_limit = limit,
          cr_checks = checks, cr_version = validation_version\<rparr>)"

lemma negative_controls_fail: "\<not> cr_passed (run_negative_controls strata limit)"
  by (simp add: run_negative_controls_def unavailable_def Let_def)

subsection \<open>Benjamini-Hochberg\<close>

record adjusted =
  ad_id :: string
  ad_raw :: real
  ad_adjusted :: real

definition adjusted_before :: "adjusted \<Rightarrow> adjusted \<Rightarrow> bool" where
  "adjusted_before x y = (if ad_raw x = ad_raw y then ad_id x < ad_id y else ad_raw x < ad_raw y)"

text \<open>The scan from the last entry to the first; the head has index \<open>length xs\<close>.\<close>

fun step_up :: "real \<Rightarrow> adjusted list \<Rightarrow> real \<Rightarrow> adjusted list" where
  "step_up tests [] previous = []"
| "step_up tests (x # xs) previous =
    (let scaled = ad_raw x * tests / of_nat (length xs + 1);
         capped = (if scaled > previous then previous else scaled);
         value = (if capped > 1 then 1 else capped)
     in x\<lparr>ad_adjusted := value\<rparr> # step_up tests xs value)"

definition benjamini_hochberg :: "(string \<times> real) list \<Rightarrow> adjusted list" where
  "benjamini_hochberg raws =
    (let entries = sort_by adjusted_before
       (map (\<lambda>(i, v). \<lparr>ad_id = i, ad_raw = clamp01 v, ad_adjusted = 0\<rparr>) raws)
     in rev (step_up (of_nat (length entries)) (rev entries) 1))"

subsection \<open>The adjustment is the step-up procedure\<close>

lemma length_step_up [simp]: "length (step_up tests xs p) = length xs"
  by (induction xs arbitrary: p) (auto simp: Let_def)

lemma step_up_raw: "map ad_id (step_up tests xs p) = map ad_id xs \<and> map ad_raw (step_up tests xs p) = map ad_raw xs"
  by (induction xs arbitrary: p) (auto simp: Let_def)

lemma capped_min: "p \<le> (1 :: real) \<Longrightarrow>
    (if (if s > p then p else s) > 1 then 1 else (if s > p then p else s)) = min p s"
  by auto

lemma step_up_nth:
  assumes "i < length xs" "p \<le> 1"
  shows "ad_adjusted (step_up tests xs p ! i) =
    Min (insert p ((\<lambda>j. ad_raw (xs ! j) * tests / of_nat (length xs - j)) ` {..i}))"
  using assms
proof (induction xs arbitrary: p i)
  case Nil
  then show ?case by simp
next
  case (Cons x xs)
  let ?s = "ad_raw x * tests / of_nat (length xs + 1)"
  let ?v = "min p ?s"
  have v: "step_up tests (x # xs) p = x\<lparr>ad_adjusted := ?v\<rparr> # step_up tests xs ?v"
    unfolding step_up.simps Let_def capped_min[OF Cons.prems(2)] ..
  show ?case
  proof (cases i)
    case 0
    then show ?thesis unfolding v by simp
  next
    case (Suc k)
    let ?f = "\<lambda>j. ad_raw (xs ! j) * tests / of_nat (length xs - j)"
    let ?g = "\<lambda>j. ad_raw ((x # xs) ! j) * tests / of_nat (length (x # xs) - j)"
    have g: "?g ` {..i} = insert ?s (?f ` {..k})"
      unfolding Suc atMost_Suc_eq_insert_0 by (auto simp: image_iff)
    have "ad_adjusted (step_up tests (x # xs) p ! i) = Min (insert ?v (?f ` {..k}))"
      unfolding v Suc using Cons.IH[of k ?v] Cons.prems Suc by (simp add: min.coboundedI1)
    also have "\<dots> = Min (insert p (?g ` {..i}))"
      unfolding g by (subst (1 2) Min_insert) (auto simp: min.assoc)
    finally show ?thesis .
  qed
qed

lemma adjusted_order: "comparison adjusted_before"
proof -
  have "comparison (\<lambda>x y :: adjusted. if ad_raw x \<noteq> ad_raw y then ad_raw x < ad_raw y else ad_id x < ad_id y)"
    by (intro comparison_lex comparison_key)
  moreover have "(\<lambda>x y. if ad_raw x \<noteq> ad_raw y then ad_raw x < ad_raw y else ad_id x < ad_id y) = adjusted_before"
    by (intro ext) (simp add: adjusted_before_def)
  ultimately show ?thesis by (simp only:)
qed

interpretation p_values: comparison adjusted_before
  by (rule adjusted_order)

lemma bh_entries:
  fixes raws
  defines "entries \<equiv> sort_by adjusted_before (map (\<lambda>(i, v). \<lparr>ad_id = i, ad_raw = clamp01 v, ad_adjusted = 0\<rparr>) raws)"
  shows "length (benjamini_hochberg raws) = length raws" "length entries = length raws"
    "map ad_id (benjamini_hochberg raws) = map ad_id entries"
    "map ad_raw (benjamini_hochberg raws) = map ad_raw entries"
    "\<And>x. x \<in> set entries \<Longrightarrow> 0 \<le> ad_raw x \<and> ad_raw x \<le> 1"
    "sorted (map ad_raw entries)"
proof -
  show "length (benjamini_hochberg raws) = length raws" "length entries = length raws"
    by (simp_all add: benjamini_hochberg_def entries_def Let_def)
  show "map ad_id (benjamini_hochberg raws) = map ad_id entries"
    "map ad_raw (benjamini_hochberg raws) = map ad_raw entries"
    unfolding benjamini_hochberg_def Let_def entries_def[symmetric]
    using step_up_raw[of _ "rev entries"] by (simp_all flip: rev_map)
  show "0 \<le> ad_raw x \<and> ad_raw x \<le> 1" if "x \<in> set entries" for x
    using that by (auto simp: entries_def clamp01_def)
  have "sorted_wrt (\<lambda>a b. \<not> adjusted_before b a) entries"
    unfolding entries_def by (rule p_values.sorted_sort_by)
  then have "sorted_wrt (\<lambda>a b. ad_raw a \<le> ad_raw b) entries"
    by (rule sorted_wrt_mono_rel[rotated]) (auto simp: adjusted_before_def split: if_splits)
  then show "sorted (map ad_raw entries)" by (simp add: sorted_map)
qed

lemma bh_adjusted:
  assumes "i < length raws"
  shows "ad_adjusted (benjamini_hochberg raws ! i) =
    Min (insert 1 ((\<lambda>j. ad_raw (benjamini_hochberg raws ! j) * of_nat (length raws) / of_nat (Suc j)) ` {i..<length raws}))"
proof -
  define entries where "entries = sort_by adjusted_before
    (map (\<lambda>(i, v). \<lparr>ad_id = i, ad_raw = clamp01 v, ad_adjusted = 0\<rparr>) raws)"
  note e = bh_entries[where raws = raws, folded entries_def]
  let ?n = "length raws"
  let ?k = "?n - Suc i"
  let ?f = "\<lambda>j. ad_raw (entries ! j) * of_nat ?n / of_nat (Suc j)"
  have "ad_adjusted (benjamini_hochberg raws ! i) = ad_adjusted (step_up (of_nat ?n) (rev entries) 1 ! ?k)"
    using assms e(2) by (simp add: benjamini_hochberg_def Let_def entries_def[symmetric] rev_nth)
  also have "\<dots> = Min (insert 1 ((\<lambda>j. ad_raw (rev entries ! j) * of_nat ?n / of_nat (?n - j)) ` {..?k}))"
    using step_up_nth[of ?k "rev entries" 1 "of_nat ?n"] assms e(2) by simp
  also have "(\<lambda>j. ad_raw (rev entries ! j) * of_nat ?n / of_nat (?n - j)) ` {..?k} = ?f ` {i..<?n}"
  proof -
    have "bij_betw (\<lambda>j. ?n - Suc j) {..?k} {i..<?n}"
      by (rule bij_betw_byWitness[where f' = "\<lambda>j. ?n - Suc j"]) (use assms in auto)
    then have "{i..<?n} = (\<lambda>j. ?n - Suc j) ` {..?k}" by (simp add: bij_betw_def)
    moreover have "ad_raw (rev entries ! j) * of_nat ?n / of_nat (?n - j) = ?f (?n - Suc j)" if "j \<le> ?k" for j
      using that assms e(2) by (simp add: rev_nth Suc_diff_Suc)
    ultimately show ?thesis by (auto simp: image_image)
  qed
  also have "?f ` {i..<?n} =
      (\<lambda>j. ad_raw (benjamini_hochberg raws ! j) * of_nat ?n / of_nat (Suc j)) ` {i..<?n}"
  proof (rule image_cong)
    fix j assume "j \<in> {i..<?n}"
    then have "ad_raw (benjamini_hochberg raws ! j) = ad_raw (entries ! j)"
      using e(1,2,4) by (metis atLeastLessThan_iff nth_map)
    then show "?f j = ad_raw (benjamini_hochberg raws ! j) * of_nat ?n / of_nat (Suc j)" by simp
  qed simp
  finally show ?thesis .
qed



subsection \<open>Robust cohort score\<close>

record cohort_score =
  cs_median :: real
  cs_mad :: real
  cs_score :: real

definition sample_median :: "real list \<Rightarrow> real" where
  "sample_median input =
    (let sorted_values = sort input; middle = length sorted_values div 2
     in if length sorted_values mod 2 = 1 then sorted_values ! middle
        else (sorted_values ! (middle - 1) + sorted_values ! middle) / 2)"

definition robust_score :: "real \<Rightarrow> real list \<Rightarrow> cohort_score" where
  "robust_score v cohort =
    (if cohort = [] then \<lparr>cs_median = 0, cs_mad = 0, cs_score = 0\<rparr>
     else
       (let median = sample_median cohort; mad = sample_median (map (\<lambda>x. \<bar>x - median\<bar>) cohort)
        in \<lparr>cs_median = median, cs_mad = mad,
             cs_score = (if mad > 0 then 0.67448975 * (v - median) / mad else 0)\<rparr>))"

lemma sample_median_mset: "mset xs = mset ys \<Longrightarrow> sample_median xs = sample_median ys"
proof -
  assume "mset xs = mset ys"
  then have "sort xs = sort ys" by (intro properties_for_sort) simp_all
  then show ?thesis by (simp only: sample_median_def)
qed

lemma sample_median_shift:
  assumes "xs \<noteq> []"
  shows "sample_median (map (\<lambda>x. x + d) xs) = sample_median xs + d"
proof -
  have "sort (map (\<lambda>x. x + d) xs) = map (\<lambda>x. x + d) (sort xs)"
    by (rule properties_for_sort) (simp_all add: sorted_map sorted_sort[unfolded sorted_iff_nth_mono])
  moreover have lt: "length xs div 2 < length xs" using assms by (cases xs) auto
  moreover have "length xs div 2 - 1 < length xs" using lt by linarith
  ultimately show ?thesis by (simp add: sample_median_def Let_def field_simps)
qed

text \<open>The score does not change when every value is moved by the same amount.\<close>

lemma robust_score_shift:
  assumes "cohort \<noteq> []"
  shows "cs_score (robust_score (v + d) (map (\<lambda>x. x + d) cohort)) = cs_score (robust_score v cohort)"
  using assms by (simp add: robust_score_def sample_median_shift Let_def comp_def)

end
