(* ===== verification/Ranking.thy ===== *)
theory Ranking
  imports Logit Validation
begin

section \<open>The review policy (\<open>internal/ranking/policy.go\<close>)\<close>

text \<open>
  The gates that turn estimates into a review tier, and what a tier says about the estimates that
  the analysis feeds in: readiness, the conditional logit, the leave-one-session-out check and the
  negative controls.
\<close>

datatype tier = InsufficientData | Monitor | Review | HighPriority

record decision =
  dc_tier :: tier
  dc_version :: string
  dc_reasons :: "string list"

record gates =
  ga_hidden :: int
  ga_sessions :: int
  ga_encounters :: int
  ga_targets :: int
  ga_review :: real
  ga_high :: real

definition default_gates :: gates where
  "default_gates = \<lparr>ga_hidden = 20, ga_sessions = 3, ga_encounters = 5, ga_targets = 5, ga_review = 0.05,
     ga_high = 0.15\<rparr>"

definition policy_version :: string where "policy_version = ''transparent-gates-v1''"

definition breadth_reasons :: "readiness \<Rightarrow> gates \<Rightarrow> string list" where
  "breadth_reasons r g = concat
    [if rd_hidden_trials r < ga_hidden g then [''insufficient hidden opportunities''] else [],
     if rd_sessions r < ga_sessions g then [''insufficient independent sessions''] else [],
     if rd_encounters r < ga_encounters g then [''insufficient independent encounters''] else [],
     if rd_targets r < ga_targets g then [''insufficient independent targets''] else []]"

definition evidence_passed :: "logit_result \<Rightarrow> stability \<Rightarrow> bool" where
  "evidence_passed m s \<longleftrightarrow> lr_converged m \<and> \<not> lr_separated m \<and> lr_strata m \<ge> 3 \<and> lr_lower m > 1 \<and> sb_stable s"

definition apply_policy :: "readiness \<Rightarrow> logit_result option \<Rightarrow> stability option \<Rightarrow> gates \<Rightarrow> decision" where
  "apply_policy r matched steady g =
    (if breadth_reasons r g \<noteq> []
     then \<lparr>dc_tier = InsufficientData, dc_version = policy_version, dc_reasons = breadth_reasons r g\<rparr>
     else
       (let d = \<lparr>dc_tier = Monitor, dc_version = policy_version, dc_reasons = [''evidence breadth gates passed'']\<rparr>;
            d1 = (if rd_lift_lower r \<ge> ga_review g
              then d\<lparr>dc_tier := Review,
                dc_reasons := dc_reasons d @ [''readiness lift lower bound passed review gate'']\<rparr> else d)
        in if \<not> rd_lift_lower r \<ge> ga_high g then d1
           else (case (matched, steady) of
               (Some m, Some s) \<Rightarrow>
                 if evidence_passed m s
                 then d1\<lparr>dc_tier := HighPriority, dc_reasons := dc_reasons d1 @
                   [''matched odds-ratio and leave-one-session-out stability gates passed'']\<rparr>
                 else d1\<lparr>dc_reasons := dc_reasons d1 @
                   [''high-priority suppressed: matched-model or stability validation did not pass'']\<rparr>
             | _ \<Rightarrow> d1\<lparr>dc_tier := HighPriority, dc_reasons := dc_reasons d1 @
                   [''readiness lift lower bound passed high-priority gate'']\<rparr>)))"

definition apply_readiness :: "readiness \<Rightarrow> gates \<Rightarrow> decision" where
  "apply_readiness r g = apply_policy r None None g"

definition apply_evidence :: "readiness \<Rightarrow> logit_result \<Rightarrow> stability \<Rightarrow> gates \<Rightarrow> decision" where
  "apply_evidence r m s g = apply_policy r (Some m) (Some s) g"

definition apply_validated :: "readiness \<Rightarrow> logit_result \<Rightarrow> stability \<Rightarrow> control_result \<Rightarrow> gates \<Rightarrow> decision" where
  "apply_validated r m s controls g =
    (let d = apply_policy r (Some m) (Some s) g
     in if dc_tier d = HighPriority \<and> \<not> cr_passed controls
        then d\<lparr>dc_tier := Review, dc_reasons := dc_reasons d @
          [''high-priority suppressed: preregistered negative controls are incomplete or failed'']\<rparr>
        else d)"

subsection \<open>What a tier means\<close>

lemma breadth_passed:
  "breadth_reasons r g = [] \<longleftrightarrow> ga_hidden g \<le> rd_hidden_trials r \<and> ga_sessions g \<le> rd_sessions r \<and>
    ga_encounters g \<le> rd_encounters r \<and> ga_targets g \<le> rd_targets r"
  by (auto simp: breadth_reasons_def not_less)

lemma apply_evidence_tier:
  "dc_tier (apply_evidence r m s g) =
    (if breadth_reasons r g \<noteq> [] then InsufficientData
     else if ga_high g \<le> rd_lift_lower r \<and> evidence_passed m s then HighPriority
     else if ga_review g \<le> rd_lift_lower r then Review else Monitor)"
  by (simp add: apply_evidence_def apply_policy_def Let_def)

lemma apply_validated_tier:
  "dc_tier (apply_validated r m s c g) =
    (if dc_tier (apply_evidence r m s g) = HighPriority \<and> \<not> cr_passed c then Review
     else dc_tier (apply_evidence r m s g))"
  by (simp add: apply_validated_def apply_evidence_def Let_def)

lemma stable_estimates:
  "sb_stable (leave_one_session_out player sessions input a b) \<longleftrightarrow> 2 \<le> length sessions \<and>
    list_all (\<lambda>r. 0 < rd_lift_lower r) (leave_one_out player sessions input a b)"
  by (simp add: leave_one_session_out_def Let_def not_le not_less)

lemma fit_passed:
  "evidence_passed (fit_logit player sessions strata) s \<longleftrightarrow> sb_stable s \<and> 3 \<le> length (useful_strata sessions strata) \<and>
    lr_converged (fit_logit player sessions strata) \<and> 1 < lr_lower (fit_logit player sessions strata)"
  by (cases rule: fit_logit_cases[of player sessions strata]) (auto simp: evidence_passed_def)

text \<open>
  Claim C30 [high_priority_evidence]: what the highest tier means for the estimates the analysis feeds
  in. It is given exactly when the negative controls passed, the breadth gates are met, the lower
  bound of the lift passes the high gate, a converged fit over at least three strata has its whole 95
  per cent interval above an odds ratio of 1, and, with at least two sessions, the lift stays
  positive with any one session left out.
\<close>

theorem high_priority_evidence:
  "dc_tier (apply_validated (estimate_readiness player sessions input a b) (fit_logit player sessions strata)
      (leave_one_session_out player sessions input a b) controls g) = HighPriority \<longleftrightarrow>
    cr_passed controls \<and>
    (let r = estimate_readiness player sessions input a b
     in ga_hidden g \<le> rd_hidden_trials r \<and> ga_sessions g \<le> rd_sessions r \<and> ga_encounters g \<le> rd_encounters r \<and>
       ga_targets g \<le> rd_targets r \<and> ga_high g \<le> rd_lift_lower r) \<and>
    lr_converged (fit_logit player sessions strata) \<and> 1 < lr_lower (fit_logit player sessions strata) \<and>
    3 \<le> length (useful_strata sessions strata) \<and> 2 \<le> length sessions \<and>
    list_all (\<lambda>r. 0 < rd_lift_lower r) (leave_one_out player sessions input a b)"
  by (auto simp: apply_validated_tier apply_evidence_tier breadth_passed fit_passed stable_estimates Let_def)

text \<open>
  The present pipeline fails closed: with the negative controls it runs, four of which are always
  unavailable, nobody gets the highest tier, and \<open>REVIEW\<close> means the breadth and review gates.
\<close>

lemma policy_review:
  assumes "ga_review g \<le> ga_high g"
  shows "dc_tier (apply_validated r m s (run_negative_controls strata limit) g) \<noteq> HighPriority"
    "dc_tier (apply_validated r m s (run_negative_controls strata limit) g) = Review \<longleftrightarrow>
      ga_hidden g \<le> rd_hidden_trials r \<and> ga_sessions g \<le> rd_sessions r \<and>
      ga_encounters g \<le> rd_encounters r \<and> ga_targets g \<le> rd_targets r \<and> ga_review g \<le> rd_lift_lower r"
  using assms negative_controls_fail[of strata limit]
  by (auto simp: apply_validated_tier apply_evidence_tier breadth_passed)

end
