(* ===== verification/Sector.thy ===== *)
theory Sector
  imports Observations GoMath
begin

section \<open>Concealed sectors (\<open>internal/features/sector.go\<close>, \<open>sector_extract.go\<close>)\<close>

text \<open>
  \<open>EstimateConcealedSectorForSessions\<close> pairs each deliberate camera turn with the first occluded probe
  that follows it within 1.5 s, and \<open>CircularPermutation\<close> compares headings with bearings against 35
  rotations of the bearings. Angles are exact reals.
\<close>

subsection \<open>The permutation test\<close>

record sector_result =
  sr_observed :: real
  sr_null :: real
  sr_p :: real
  sr_count :: int
  sr_version :: string

definition sector_version :: string where "sector_version = ''circular-permutation-v1''"

definition angular_difference :: "real \<Rightarrow> real \<Rightarrow> real" where
  "angular_difference left right =
    (let difference = go_mod (left - right + pi) (2 * pi)
     in (if difference < 0 then difference + 2 * pi else difference) - pi)"

definition concentration :: "real list \<Rightarrow> real list \<Rightarrow> real \<Rightarrow> real" where
  "concentration headings bearings shift =
    sum_list (map (\<lambda>(h, b). cos (angular_difference h (b + shift))) (zip headings bearings)) / of_nat (length headings)"

definition circular_permutation :: "real list \<Rightarrow> real list \<Rightarrow> real list \<Rightarrow> sector_result" where
  "circular_permutation headings bearings shifts =
    (if headings = [] \<or> length headings \<noteq> length bearings \<or> shifts = []
     then \<lparr>sr_observed = 0, sr_null = 0, sr_p = 0, sr_count = 0, sr_version = sector_version\<rparr>
     else
       (let observed = concentration headings bearings 0;
            nulls = map (concentration headings bearings) shifts;
            extreme = length (filter (\<lambda>v. v \<ge> observed) nulls)
        in \<lparr>sr_observed = observed, sr_null = sum_list nulls / of_nat (length shifts),
             sr_p = of_nat (extreme + 1) / of_nat (length shifts + 1), sr_count = int (length headings),
             sr_version = sector_version\<rparr>))"

subsection \<open>Extraction\<close>

record sector_event =
  se_batch :: batch
  se_event :: event
  se_reason :: string
  se_stream :: string
  se_class :: string
  se_camera :: "real list"
  se_origin :: "real list"
  se_head :: "real list"

text \<open>
  The errors of this \<open>Unmarshal\<close> are ignored: a value of the wrong kind leaves the field as it was,
  and an element of the wrong kind is zero.
\<close>

definition lenient_floats :: "json \<Rightarrow> real list option" where
  "lenient_floats j = (case j of
      JArr vs \<Rightarrow> Some (map (\<lambda>v. case conv_float_elem v of None \<Rightarrow> 0 | Some x \<Rightarrow> x) vs)
    | _ \<Rightarrow> None)"

definition sector_event_of :: "batch \<Rightarrow> event \<Rightarrow> sector_event" where
  "sector_event_of b e =
    (let ms = (case json_text (ev_payload e) of Some (JObj ms) \<Rightarrow> ms | _ \<Rightarrow> [])
     in \<lparr>se_batch = b, se_event = e,
          se_reason = lenient_member conv_string ''sampling_reason'' ms [],
          se_stream = lenient_member conv_string ''sampling_stream'' ms [],
          se_class = lenient_member conv_string ''classification'' ms [],
          se_camera = lenient_member lenient_floats ''camera_direction'' ms [],
          se_origin = lenient_member lenient_floats ''observer_origin'' ms [],
          se_head = lenient_member lenient_floats ''target_head'' ms []\<rparr>)"

definition sector_before :: "sector_event \<Rightarrow> sector_event \<Rightarrow> bool" where
  "sector_before x y =
    (if ba_server (se_batch x) \<noteq> ba_server (se_batch y)
     then ba_server (se_batch x) < ba_server (se_batch y)
     else if ba_session (se_batch x) \<noteq> ba_session (se_batch y)
     then ba_session (se_batch x) < ba_session (se_batch y)
     else if ev_time (se_event x) = ev_time (se_event y)
     then ev_sequence (se_event x) < ev_sequence (se_event y)
     else ev_time (se_event x) < ev_time (se_event y))"

definition sector_stream :: "batch list \<Rightarrow> sector_event list" where
  "sector_stream batches = sort_by sector_before
     (concat (map (\<lambda>b. map (sector_event_of b) (ba_events b)) batches))"

definition is_turn :: "string list \<Rightarrow> sector_event \<Rightarrow> bool" where
  "is_turn sessions x \<longleftrightarrow> \<not> (ev_player_session (se_event x) \<notin> set sessions \<or>
     ev_type (se_event x) \<noteq> ''DECISION_EDGE'' \<or> se_reason x \<noteq> ''DELIBERATE_CAMERA_TURN'' \<or>
     length (se_camera x) \<noteq> 3)"

fun find_probe :: "sector_event \<Rightarrow> sector_event list \<Rightarrow> sector_event option" where
  "find_probe x [] = None"
| "find_probe x (c # cs) =
    (if ba_server (se_batch c) \<noteq> ba_server (se_batch x) \<or> ba_session (se_batch c) \<noteq> ba_session (se_batch x)
     then None
     else if i64 (ev_time (se_event c) - ev_time (se_event x)) > 1500 then None
     else if ev_player_session (se_event c) \<noteq> ev_player_session (se_event x) \<or>
       ev_type (se_event c) \<noteq> ''VISIBILITY_OBSERVATION'' \<or> se_stream c \<noteq> ''event_enrichment''
     then find_probe x cs
     else if se_class c \<noteq> ''HEAD_ORIGIN_OCCLUDED'' \<and> se_class c \<noteq> ''ROBUSTLY_OCCLUDED'' then find_probe x cs
     else if length (se_origin c) \<noteq> 3 \<or> length (se_head c) \<noteq> 3 then find_probe x cs
     else Some c)"

definition turn_angles :: "sector_event \<Rightarrow> sector_event \<Rightarrow> real \<times> real" where
  "turn_angles x c = (go_atan2 (se_camera x ! 0) (se_camera x ! 2),
     go_atan2 (se_head c ! 0 - se_origin c ! 0) (se_head c ! 2 - se_origin c ! 2))"

fun sector_pairs :: "string list \<Rightarrow> sector_event list \<Rightarrow> (sector_event \<times> sector_event) list" where
  "sector_pairs sessions [] = []"
| "sector_pairs sessions (x # xs) =
    (if is_turn sessions x
     then (case find_probe x xs of None \<Rightarrow> sector_pairs sessions xs | Some c \<Rightarrow> (x, c) # sector_pairs sessions xs)
     else sector_pairs sessions xs)"

definition null_shifts :: "real list" where
  "null_shifts = map (\<lambda>k. of_nat (k + 1) * 2 * pi / 36) [0..<35]"

definition estimate_sector :: "string list \<Rightarrow> batch list \<Rightarrow> sector_result" where
  "estimate_sector sessions batches =
    (let angles = map (\<lambda>(x, c). turn_angles x c) (sector_pairs sessions (sector_stream batches))
     in circular_permutation (map fst angles) (map snd angles) null_shifts)"

subsection \<open>Lemmas\<close>

lemma cos_angular_difference [simp]: "cos (angular_difference l r) = cos (l - r)"
proof -
  obtain k :: int where k: "go_mod (l - r + pi) (2 * pi) = l - r + pi - 2 * pi * of_int k"
    by (metis go_mod_def)
  have "angular_difference l r = (l - r) - 2 * pi * of_int k \<or>
      angular_difference l r = (l - r) - 2 * pi * of_int (k - 1)"
    unfolding angular_difference_def k Let_def by (auto simp: algebra_simps)
  moreover have "cos ((l - r) - 2 * pi * of_int j) = cos (l - r)" for j :: int
    by (subst cos_diff) simp
  ultimately show ?thesis by metis
qed

lemma mean_bound:
  assumes "\<And>x. x \<in> set xs \<Longrightarrow> \<bar>f x\<bar> \<le> (1 :: real)"
  shows "\<bar>sum_list (map f xs) / of_nat (length xs)\<bar> \<le> 1"
proof -
  have "\<bar>sum_list (map f xs)\<bar> \<le> of_nat (length xs)"
    using assms
  proof (induction xs)
    case Nil
    then show ?case by simp
  next
    case (Cons x xs)
    have "\<bar>f x\<bar> \<le> 1" "\<bar>sum_list (map f xs)\<bar> \<le> of_nat (length xs)" using Cons by auto
    then show ?case by simp
  qed
  then show ?thesis by (cases "xs = []") (auto simp: abs_divide)
qed

lemma concentration_cos:
  "concentration hs bs d = sum_list (map (\<lambda>(h, b). cos (h - b - d)) (zip hs bs)) / of_nat (length hs)"
  by (simp add: concentration_def diff_diff_eq)

lemma concentration_bound:
  assumes "length hs = length bs" shows "\<bar>concentration hs bs d\<bar> \<le> 1"
  using mean_bound[of "zip hs bs" "\<lambda>(h, b). cos (h - b - d)"] assms
  by (auto simp: concentration_cos split: prod.splits)

lemma concentration_rotate:
  "length hs = length bs \<Longrightarrow> concentration (map (\<lambda>h. h + d) hs) (map (\<lambda>b. b + d) bs) s = concentration hs bs s"
  by (simp add: concentration_cos zip_map1 zip_map2 comp_def case_prod_unfold)

lemma concentration_rotated:
  "length hs = length bs \<Longrightarrow> concentration (map (\<lambda>h. h + d) hs) (map (\<lambda>b. b + d) bs) = concentration hs bs"
  by (rule ext) (rule concentration_rotate)

text \<open>
  Claim C34 [sector_statistic]: the permutation test is well behaved for every input. The observed
  concentration and the mean of the null are in \<open>[-1, 1]\<close>, the p-value is in \<open>[0, 1]\<close> and is zero only
  for the empty result, and turning every heading and bearing by the same angle changes nothing.
\<close>

theorem sector_statistic:
  fixes hs bs ss d
  defines "r \<equiv> circular_permutation hs bs ss"
  shows "\<bar>sr_observed r\<bar> \<le> 1 \<and> \<bar>sr_null r\<bar> \<le> 1 \<and> 0 \<le> sr_p r \<and> sr_p r \<le> 1 \<and> (sr_p r = 0 \<longleftrightarrow> sr_count r = 0) \<and>
    circular_permutation (map (\<lambda>h. h + d) hs) (map (\<lambda>b. b + d) bs) ss = r"
proof (cases "hs = [] \<or> length hs \<noteq> length bs \<or> ss = []")
  case True
  then show ?thesis by (auto simp: r_def circular_permutation_def)
next
  case False
  then have len: "length hs = length bs" by simp
  let ?e = "length (filter (\<lambda>v. v \<ge> concentration hs bs 0) (map (concentration hs bs) ss))"
  have "?e \<le> length ss" using length_filter_le[of _ "map (concentration hs bs) ss"] by simp
  then have "0 < sr_p r" "sr_p r \<le> 1" "0 < sr_count r"
    using False by (auto simp: r_def circular_permutation_def Let_def divide_simps)
  moreover have "\<bar>sr_observed r\<bar> \<le> 1" "\<bar>sr_null r\<bar> \<le> 1"
    using False concentration_bound[OF len] mean_bound[of ss "concentration hs bs"]
    by (simp_all add: r_def circular_permutation_def Let_def)
  moreover have "circular_permutation (map (\<lambda>h. h + d) hs) (map (\<lambda>b. b + d) bs) ss = r"
    using False concentration_rotated[OF len, of d]
    by (simp add: r_def circular_permutation_def Let_def)
  ultimately show ?thesis by simp
qed

text \<open>Every pair is a turn and an occluded probe of one player and session, at most 1.5 s apart.\<close>

lemma find_probe_Some:
  "find_probe x cs = Some c \<Longrightarrow> c \<in> set cs \<and> ba_server (se_batch c) = ba_server (se_batch x) \<and>
    ba_session (se_batch c) = ba_session (se_batch x) \<and> ev_player_session (se_event c) = ev_player_session (se_event x) \<and>
    i64 (ev_time (se_event c) - ev_time (se_event x)) \<le> 1500 \<and> ev_type (se_event c) = ''VISIBILITY_OBSERVATION''"
  by (induction cs) (auto split: if_splits)

lemma sector_pairs_within:
  "(x, c) \<in> set (sector_pairs sessions xs) \<Longrightarrow> is_turn sessions x \<and> x \<in> set xs \<and> c \<in> set xs \<and>
    ba_server (se_batch c) = ba_server (se_batch x) \<and> ba_session (se_batch c) = ba_session (se_batch x) \<and>
    ev_player_session (se_event c) = ev_player_session (se_event x) \<and>
    i64 (ev_time (se_event c) - ev_time (se_event x)) \<le> 1500"
  by (induction xs) (auto dest: find_probe_Some split: if_splits option.splits)

end
