(* ===== verification/PreExposure.thy ===== *)
theory PreExposure
  imports Observations
begin

section \<open>Readiness before exposure (\<open>internal/features/preexposure.go\<close>)\<close>

text \<open>
  Among hidden-target observations with a known first exposure, how often the player was ready
  before the target could be seen, and by how much. Times are \<open>int64\<close> with the wrap-around written
  out.
\<close>

record incident =
  pi_ready_lower :: int
  pi_ready_upper :: int
  pi_exposure_lower :: int
  pi_exposure_upper :: int
  pi_censored :: bool

record pre_exposure =
  px_status :: string
  px_incidents :: int
  px_definite :: int
  px_ambiguous :: int
  px_lead_lower :: int
  px_lead_upper :: int
  px_rate_lower :: real
  px_rate_upper :: real
  px_version :: string

definition pre_exposure_status :: string where "pre_exposure_status = ''EXPERIMENTAL_SUPPORTING_ONLY''"
definition pre_exposure_version :: string where "pre_exposure_version = ''interval-pre-exposure-supporting-v2''"

definition counted :: "incident \<Rightarrow> bool" where
  "counted i \<longleftrightarrow> \<not> (pi_censored i \<or> pi_exposure_lower i \<le> 0 \<or> pi_exposure_upper i < pi_exposure_lower i)"

definition timed :: "incident \<Rightarrow> bool" where
  "timed i \<longleftrightarrow> counted i \<and> \<not> (pi_ready_lower i \<le> 0 \<or> pi_ready_upper i < pi_ready_lower i)"

definition definite :: "incident \<Rightarrow> bool" where
  "definite i \<longleftrightarrow> timed i \<and> pi_ready_upper i < pi_exposure_lower i"

definition ambiguous :: "incident \<Rightarrow> bool" where
  "ambiguous i \<longleftrightarrow> timed i \<and> \<not> definite i \<and> pi_ready_lower i < pi_exposure_upper i"

definition lead_lower :: "incident \<Rightarrow> int" where
  "lead_lower i = i64 (pi_exposure_lower i - pi_ready_upper i)"

definition lead_upper :: "incident \<Rightarrow> int" where
  "lead_upper i = i64 (pi_exposure_upper i - pi_ready_lower i)"

definition median_int64 :: "int list \<Rightarrow> int" where
  "median_int64 vs =
    (if vs = [] then 0
     else
       (let s = sort vs; middle = length s div 2
        in if length s mod 2 = 1 then s ! middle else quot_int (i64 (s ! (middle - 1) + s ! middle)) 2))"

definition estimate_pre_exposure :: "incident list \<Rightarrow> pre_exposure" where
  "estimate_pre_exposure input =
    (let n = length (filter counted input); d = length (filter definite input); a = length (filter ambiguous input)
     in \<lparr>px_status = pre_exposure_status, px_incidents = int n, px_definite = int d, px_ambiguous = int a,
          px_lead_lower = median_int64 (map lead_lower (filter definite input)),
          px_lead_upper = median_int64 (map lead_upper (filter definite input)),
          px_rate_lower = (if n > 0 then of_nat d / of_nat n else 0),
          px_rate_upper = (if n > 0 then of_nat (d + a) / of_nat n else 0), px_version = pre_exposure_version\<rparr>)"

subsection \<open>Medians of two families\<close>

lemma insort_pointwise:
  assumes "list_all2 (\<le>) xs ys" "sorted xs" "sorted ys" "a \<le> (b :: 'a :: linorder)"
  shows "list_all2 (\<le>) (insort a xs) (insort b ys)"
  using assms
proof (induction arbitrary: a b rule: list_all2_induct)
  case Nil
  then show ?case by simp
next
  case (Cons x xs y ys)
  have xs: "sorted xs" "insort x xs = x # xs" and ys: "sorted ys" "insort y ys = y # ys"
    using Cons.prems by (auto simp: insort_is_Cons)
  show ?case
    using Cons.hyps Cons.prems Cons.IH[OF xs(1) ys(1), of x b] Cons.IH[OF xs(1) ys(1), of a y]
      Cons.IH[OF xs(1) ys(1), of a b] xs(2) ys(2)
    by auto
qed

lemma sort_pointwise:
  assumes "\<And>x. x \<in> set xs \<Longrightarrow> f x \<le> (g x :: int)"
  shows "list_all2 (\<le>) (sort (map f xs)) (sort (map g xs))"
  using assms by (induction xs) (auto intro!: insort_pointwise)

lemma middle_less: "vs \<noteq> [] \<Longrightarrow> length vs div 2 < length vs \<and> length vs div 2 - 1 < length vs"
  by (cases vs) auto

lemma median_value:
  assumes "vs \<noteq> []" "\<And>v. v \<in> set vs \<Longrightarrow> 0 < v \<and> v < 2 ^ 62"
  shows "median_int64 vs = (if length vs mod 2 = 1 then sort vs ! (length vs div 2)
    else (sort vs ! (length vs div 2 - 1) + sort vs ! (length vs div 2)) div 2)"
proof -
  have "0 < sort vs ! k \<and> sort vs ! k < 2 ^ 62" if "k < length vs" for k
    using assms(2) nth_mem[of k "sort vs"] that by simp
  then have b: "0 < sort vs ! (length vs div 2) \<and> sort vs ! (length vs div 2) < 2 ^ 62"
    "0 < sort vs ! (length vs div 2 - 1) \<and> sort vs ! (length vs div 2 - 1) < 2 ^ 62"
    using middle_less[OF assms(1)] by blast+
  then have "i64 (sort vs ! (length vs div 2 - 1) + sort vs ! (length vs div 2)) =
      sort vs ! (length vs div 2 - 1) + sort vs ! (length vs div 2)"
    by (intro i64_id) (auto simp: in_i64_def)
  then show ?thesis using assms(1) b by (simp add: median_int64_def Let_def quot_int_nonneg)
qed

lemma median_mono:
  assumes "xs \<noteq> []" "\<And>x. x \<in> set xs \<Longrightarrow> 0 < f x \<and> f x \<le> g x \<and> g x < 2 ^ 62"
  shows "0 < median_int64 (map f xs) \<and> median_int64 (map f xs) \<le> median_int64 (map g xs)"
proof -
  let ?f = "sort (map f xs)" and ?g = "sort (map g xs)" and ?m = "length xs div 2"
  have m: "?m < length xs" "?m - 1 < length xs" using middle_less[OF assms(1)] by auto
  have le: "?f ! k \<le> ?g ! k" if "k < length xs" for k
    using sort_pointwise[of xs f g] assms(2) that by (simp add: list_all2_conv_all_nth)
  have "?f ! k \<in> f ` set xs" if "k < length xs" for k
    using nth_mem[of k ?f] that by simp
  then have pos: "0 < ?f ! k" if "k < length xs" for k using assms(2) that by fastforce
  have "median_int64 (map f xs) = (if length xs mod 2 = 1 then ?f ! ?m else (?f ! (?m - 1) + ?f ! ?m) div 2)"
    using assms by (subst median_value) (auto intro: le_less_trans)
  moreover have "median_int64 (map g xs) = (if length xs mod 2 = 1 then ?g ! ?m else (?g ! (?m - 1) + ?g ! ?m) div 2)"
    using assms by (subst median_value) (auto intro: less_le_trans)
  moreover have "(?f ! (?m - 1) + ?f ! ?m) div 2 \<le> (?g ! (?m - 1) + ?g ! ?m) div 2"
    using le[OF m(1)] le[OF m(2)] by (intro zdiv_mono1) auto
  moreover have "0 < (?f ! (?m - 1) + ?f ! ?m) div 2"
    using pos[OF m(1)] pos[OF m(2)] by linarith
  ultimately show ?thesis using le[OF m(1)] pos[OF m(1)] by auto
qed

text \<open>
  Claim C35 [pre_exposure_bounds]: the supporting statistic is consistent. Definite and ambiguous
  incidents are disjoint parts of the counted ones, so \<open>0 \<le> lower rate \<le> upper rate \<le> 1\<close>; and when
  there is a definite incident, and exposure times are below \<open>2^62\<close> ms so that the mean of the two
  middle leads cannot overflow, the median leads satisfy \<open>0 < lower \<le> upper\<close>.
\<close>

theorem pre_exposure_bounds:
  assumes "\<forall>i \<in> set input. pi_exposure_upper i < 2 ^ 62"
  shows "px_definite (estimate_pre_exposure input) + px_ambiguous (estimate_pre_exposure input) \<le>
      px_incidents (estimate_pre_exposure input) \<and>
    0 \<le> px_rate_lower (estimate_pre_exposure input) \<and>
    px_rate_lower (estimate_pre_exposure input) \<le> px_rate_upper (estimate_pre_exposure input) \<and>
    px_rate_upper (estimate_pre_exposure input) \<le> 1 \<and>
    (0 < px_definite (estimate_pre_exposure input) \<longrightarrow> 0 < px_lead_lower (estimate_pre_exposure input) \<and>
      px_lead_lower (estimate_pre_exposure input) \<le> px_lead_upper (estimate_pre_exposure input))"
proof -
  let ?n = "length (filter counted input)" and ?d = "length (filter definite input)"
  let ?a = "length (filter ambiguous input)"
  have le: "?d + ?a \<le> ?n"
    by (induction input) (auto simp: definite_def ambiguous_def timed_def)
  have leads: "0 < lead_lower i \<and> lead_lower i \<le> lead_upper i \<and> lead_upper i < 2 ^ 62"
    if "i \<in> set (filter definite input)" for i
  proof -
    have "0 < pi_ready_lower i" "pi_ready_lower i \<le> pi_ready_upper i" "pi_ready_upper i < pi_exposure_lower i"
      "pi_exposure_lower i \<le> pi_exposure_upper i" "pi_exposure_upper i < 2 ^ 62"
      using that assms by (auto simp: definite_def timed_def counted_def)
    moreover from this have "lead_lower i = pi_exposure_lower i - pi_ready_upper i"
      "lead_upper i = pi_exposure_upper i - pi_ready_lower i"
      unfolding lead_lower_def lead_upper_def by (intro i64_id; simp add: in_i64_def)+
    ultimately show ?thesis by linarith
  qed
  have "0 < median_int64 (map lead_lower (filter definite input)) \<and>
      median_int64 (map lead_lower (filter definite input)) \<le> median_int64 (map lead_upper (filter definite input))"
    if "0 < ?d"
    using median_mono[of "filter definite input" lead_lower lead_upper] leads that by auto
  then show ?thesis
    using le by (simp add: estimate_pre_exposure_def Let_def divide_right_mono of_nat_diff flip: of_nat_add)
qed

theorem pre_exposure_bounds_witness:
  "px_definite (estimate_pre_exposure [\<lparr>pi_ready_lower = 10, pi_ready_upper = 20, pi_exposure_lower = 50,
      pi_exposure_upper = 60, pi_censored = False\<rparr>]) = 1 \<and>
    0 < px_lead_lower (estimate_pre_exposure [\<lparr>pi_ready_lower = 10, pi_ready_upper = 20, pi_exposure_lower = 50,
      pi_exposure_upper = 60, pi_censored = False\<rparr>])"
proof -
  let ?i = "\<lparr>pi_ready_lower = 10, pi_ready_upper = 20, pi_exposure_lower = 50, pi_exposure_upper = 60,
    pi_censored = False\<rparr>"
  have "px_definite (estimate_pre_exposure [?i]) = 1"
    by (simp add: estimate_pre_exposure_def definite_def timed_def counted_def Let_def)
  then show ?thesis using pre_exposure_bounds[of "[?i]"] by simp
qed

end
