(* ===== verification/Analyse.thy ===== *)
theory Analyse
  imports Cues Ranking Sector PreExposure
begin

section \<open>The analysis (\<open>cmd/analyse/main.go\<close>)\<close>

text \<open>
  The whole pipeline on the stored batches: observations, cues, strata, estimates per player, the
  review tier, and the data-quality summary. Reading the batches is the replay; writing the report
  to PostgreSQL and to standard output is not modelled.
\<close>

record analysis_candidate =
  ac_player :: string
  ac_sessions :: "string list"
  ac_readiness :: readiness
  ac_matched :: logit_result
  ac_stability :: stability
  ac_controls :: control_result
  ac_sector :: sector_result
  ac_pre_exposure :: pre_exposure
  ac_decision :: decision

record data_quality =
  dq_strong :: int
  dq_control :: int
  dq_positive :: int
  dq_dropped :: int
  dq_explained :: int
  dq_gunshots :: int
  dq_footsteps :: int
  dq_limitations :: "string list"

record analysis =
  an_builder :: string
  an_ledger :: string
  an_feature :: string
  an_policy :: string
  an_count :: int
  an_candidates :: "analysis_candidate list"
  an_quality :: data_quality

definition player_of_session :: "string \<Rightarrow> string" where
  "player_of_session s = (case last_index CHR '':'' s of None \<Rightarrow> s | Some k \<Rightarrow> drop (Suc k) s)"

definition audio_fact :: "cue_fact \<Rightarrow> bool" where
  "audio_fact f \<longleftrightarrow> cf_type f = ''GUNSHOT_AUDIO_OPPORTUNITY'' \<or> cf_type f = ''FOOTSTEP_AUDIO_OPPORTUNITY''"

definition count_audio_facts :: "cue_fact list \<Rightarrow> int" where
  "count_audio_facts fs = count_if audio_fact fs"

definition count_dropped :: "batch list \<Rightarrow> int" where
  "count_dropped batches = sum_list (map (\<lambda>b. count_if (\<lambda>e. ev_type e = ''SAMPLING_OPPORTUNITY_DROPPED'') (ba_events b)) batches)"

definition incident_of :: "observation \<Rightarrow> incident" where
  "incident_of ob = \<lparr>pi_ready_lower = ob_outcome_lower ob, pi_ready_upper = ob_outcome_upper ob,
     pi_exposure_lower = ob_exposure_lower ob, pi_exposure_upper = ob_exposure_upper ob,
     pi_censored = ob_exposure_censored ob\<rparr>"

definition pre_exposure_for :: "string list \<Rightarrow> observation list \<Rightarrow> pre_exposure" where
  "pre_exposure_for sessions built = estimate_pre_exposure (map incident_of (filter
     (\<lambda>ob. \<not> (ob_observer ob \<notin> set sessions \<or> ob_exposure_ms ob = 0 \<or> \<not> ob_strong ob \<or>
       \<not> ob_independent ob \<or> ob_cue_class ob \<noteq> ''UNEXPLAINED_IN_CAPTURED_DATA'')) built))"

definition players_of :: "observation list \<Rightarrow> string list" where
  "players_of built = sort (remdups (map (\<lambda>ob. player_of_session (ob_observer ob)) built))"

definition sessions_of :: "observation list \<Rightarrow> string \<Rightarrow> string list" where
  "sessions_of built player = sort (remdups (filter (\<lambda>s. player_of_session s = player) (map ob_observer built)))"

definition candidate_for :: "batch list \<Rightarrow> observation list \<Rightarrow> stratum list \<Rightarrow> control_result \<Rightarrow> string \<Rightarrow>
    analysis_candidate" where
  "candidate_for batches built strata controls player =
    (let sessions = sessions_of built player;
         r = estimate_readiness player sessions built 5 5;
         m = fit_logit player sessions strata;
         s = leave_one_session_out player sessions built 5 5
     in \<lparr>ac_player = player, ac_sessions = sessions, ac_readiness = r, ac_matched = m, ac_stability = s,
          ac_controls = controls, ac_sector = estimate_sector sessions batches,
          ac_pre_exposure = pre_exposure_for sessions built,
          ac_decision = apply_validated r m s controls default_gates\<rparr>)"

definition quality_of :: "batch list \<Rightarrow> observation list \<Rightarrow> data_quality" where
  "quality_of batches built =
    (let strong = count_if ob_strong built; control = count_if ob_control built
     in \<lparr>dq_strong = strong, dq_control = control, dq_positive = count_if ob_positive built,
          dq_dropped = count_dropped batches,
          dq_explained = count_if (\<lambda>ob. (ob_cue_class ob = ''KNOWN'' \<or> ob_cue_class ob = ''PLAUSIBLE'') \<and>
            count_audio_facts (ob_cues ob) > 0) built,
          dq_gunshots = sum_list (map (\<lambda>ob. count_if (\<lambda>f. cf_type f = ''GUNSHOT_AUDIO_OPPORTUNITY'') (ob_cues ob)) built),
          dq_footsteps = sum_list (map (\<lambda>ob. count_if (\<lambda>f. cf_type f = ''FOOTSTEP_AUDIO_OPPORTUNITY'') (ob_cues ob)) built),
          dq_limitations = concat
           [if strong = 0 then [''no validated first-person robust-occlusion observations; no hidden-awareness effect can be promoted''] else [],
            if control = 0 then [''no neutral no-relevant-target controls were available; readiness lift cannot be estimated''] else [],
            if built = [] then [''no random prospective opportunities were available''] else [],
            [''audio cues are server-derived audibility opportunities, not proof that a player heard a sound'']]\<rparr>)"

definition report :: "batch list \<Rightarrow> observation list \<Rightarrow> analysis" where
  "report batches built =
    (let strata = build_strata built; controls = run_negative_controls strata 0.05
     in \<lparr>an_builder = builder_version, an_ledger = ledger_version, an_feature = readiness_version,
          an_policy = policy_version, an_count = int (length built),
          an_candidates = map (candidate_for batches built strata controls) (players_of built),
          an_quality = quality_of batches built\<rparr>)"

datatype analysis_error = BuildFailed build_error | EnrichFailed cue_error

definition analyse :: "(real \<Rightarrow> string) \<Rightarrow> batch list \<Rightarrow> analysis_error + analysis" where
  "analyse ff batches = (case build batches default_build_config of
      Inl e \<Rightarrow> Inl (BuildFailed e)
    | Inr built \<Rightarrow> (case enrich ff built batches default_cue_config of
        Inl e \<Rightarrow> Inl (EnrichFailed e)
      | Inr built' \<Rightarrow> Inr (report batches built')))"

subsection \<open>What a report says\<close>

lemma sum_indicator:
  "distinct ps \<Longrightarrow> sum_list (map (\<lambda>p. if q \<and> v = p then 1 else (0 :: int)) ps) = (if q \<and> v \<in> set ps then 1 else 0)"
  by (induction ps) auto

lemma count_if_split:
  assumes "distinct ps"
  shows "sum_list (map (\<lambda>p. count_if (\<lambda>x. P x \<and> f x = p) xs) ps) \<le> count_if P xs"
proof (induction xs)
  case Nil
  then show ?case by (simp add: count_if_def comp_def)
next
  case (Cons x xs)
  have "sum_list (map (\<lambda>p. count_if (\<lambda>x. P x \<and> f x = p) (x # xs)) ps) =
      sum_list (map (\<lambda>p. count_if (\<lambda>x. P x \<and> f x = p) xs) ps) + sum_list (map (\<lambda>p. if P x \<and> f x = p then 1 else 0) ps)"
    by (simp add: count_if_def flip: sum_list_addf) (rule arg_cong[of _ _ sum_list], auto)
  moreover have "sum_list (map (\<lambda>p. if P x \<and> f x = p then 1 else (0 :: int)) ps) \<le> (if P x then 1 else 0)"
    using assms by (simp add: sum_indicator)
  moreover have "count_if P (x # xs) = count_if P xs + (if P x then 1 else 0)" by (simp add: count_if_def)
  ultimately show ?case using Cons by linarith
qed

lemma trials_of_player:
  "rd_hidden_trials (estimate_readiness player (sessions_of built player) built a b) \<le>
    count_if (\<lambda>ob. ob_strong ob \<and> player_of_session (ob_observer ob) = player) built"
  "rd_control_trials (estimate_readiness player (sessions_of built player) built a b) \<le>
    count_if (\<lambda>ob. ob_control ob \<and> player_of_session (ob_observer ob) = player) built"
proof -
  have le: "length (filter P xs) \<le> length (filter Q xs)" if "\<And>x. P x \<Longrightarrow> Q x" for P Q and xs :: "observation list"
    using that by (induction xs) auto
  have q: "qualifies (sessions_of built player) ob \<Longrightarrow> player_of_session (ob_observer ob) = player" for ob
    by (auto simp: qualifies_def sessions_of_def)
  show "rd_hidden_trials (estimate_readiness player (sessions_of built player) built a b) \<le>
      count_if (\<lambda>ob. ob_strong ob \<and> player_of_session (ob_observer ob) = player) built"
    "rd_control_trials (estimate_readiness player (sessions_of built player) built a b) \<le>
      count_if (\<lambda>ob. ob_control ob \<and> player_of_session (ob_observer ob) = player) built"
    unfolding estimate_readiness_def Let_def count_if_def filter_filter
    by (auto intro!: le dest: q)
qed

lemma report_tier:
  assumes "c \<in> set (an_candidates (report batches built))"
  shows "dc_tier (ac_decision c) \<noteq> HighPriority" "dc_tier (ac_decision c) = Review \<longleftrightarrow>
    20 \<le> rd_hidden_trials (ac_readiness c) \<and> 3 \<le> rd_sessions (ac_readiness c) \<and>
    5 \<le> rd_encounters (ac_readiness c) \<and> 5 \<le> rd_targets (ac_readiness c) \<and> 0.05 \<le> rd_lift_lower (ac_readiness c)"
proof -
  have "ga_review default_gates \<le> ga_high default_gates" by (simp add: default_gates_def)
  then show "dc_tier (ac_decision c) \<noteq> HighPriority" "dc_tier (ac_decision c) = Review \<longleftrightarrow>
    20 \<le> rd_hidden_trials (ac_readiness c) \<and> 3 \<le> rd_sessions (ac_readiness c) \<and>
    5 \<le> rd_encounters (ac_readiness c) \<and> 5 \<le> rd_targets (ac_readiness c) \<and> 0.05 \<le> rd_lift_lower (ac_readiness c)"
    using assms policy_review by (auto simp: report_def Let_def candidate_for_def default_gates_def)
qed


subsection \<open>The scene analysed\<close>

lemma cue_names_absent:
  "list_all (\<lambda>name. filter (\<lambda>(k, j). equal_fold k name) vis_members = [] \<and>
     filter (\<lambda>(k, j). equal_fold k name) [(''sampling_reason'', JStr ''WEAPON_RAISED'')] = [])
    [''source_player_id'', ''weapon_type'', ''ammo'', ''is_suppressed'', ''suppressor_type'', ''position'',
     ''movement_speed_mps'', ''movement_state'', ''stance_name'', ''surface_type'', ''footwear_type'']"
  by code_simp

lemma scene_cues:
  "unmarshal_cue_payload vis_payload = Some zero_cue_payload" "unmarshal_cue_payload edge_payload = Some zero_cue_payload"
  using cue_names_absent
  by (simp_all add: unmarshal_cue_payload_def vis_payload_text edge_payload_text decode_cue_payload_def
      decode_member_absent zero_cue_payload_def)

lemma analyse_scene:
  "\<exists>out. analyse (\<lambda>_. ''0'') [scene] = Inr out \<and> length (an_candidates out) = 1"
proof -
  obtain obs ob where b: "build [scene] default_build_config = Inr obs" "obs = [ob]"
    using build_scene by metis
  have "edge_payload \<noteq> []" by (simp add: edge_payload_def json_object_def)
  then have "\<exists>es. index_events [scene] = Some es"
    using vis_payload_nonempty
    by (simp add: index_events_def scene_def vis_batch_def edge_event_def cue_event_of_def scene_cues)
  then obtain ob' where "enrich (\<lambda>_. ''0'') obs [scene] default_cue_config = Inr [ob']"
    using b(2) by (auto simp: enrich_def default_cue_config_def)
  then show ?thesis using b(1) by (simp add: analyse_def report_def Let_def players_of_def)
qed


end
