(* ===== verification/Replay.thy ===== *)
theory Replay
  imports Schema FileSystem
begin

section \<open>Replay and retention of raw batches (\<open>internal/replay\<close>, \<open>internal/retention\<close>)\<close>

text \<open>
  Both walk the raw directory and look at every file whose extension is \<open>.json\<close> in any case. The sink
  of a replay is any function on a state of its own; which files cannot be read or removed, and when
  the context is cancelled, is decided by the environment.
\<close>

definition raw_files :: "path \<Rightarrow> fs \<Rightarrow> path list" where
  "raw_files rdir fs = filter (\<lambda>p. equal_fold (path_ext p) ''.json'') (walk rdir fs)"

lemma set_raw_files: "set (raw_files rdir fs) =
    {p. p |\<in>| fmdom fs \<and> is_below rdir p \<and> equal_fold (path_ext p) ''.json''}"
  by (auto simp: raw_files_def store_simps)

lemma distinct_raw_files [simp]: "distinct (raw_files rdir fs)"
  by (simp add: raw_files_def)

lemma raw_files_found: "p \<in> set (raw_files rdir fs) \<Longrightarrow> \<exists>f. fmlookup fs p = Some f"
  by (auto simp: set_raw_files fmdom_notI fmlookup_dom_iff)

subsection \<open>Replay\<close>

datatype replay_error =
  RootRequired | Cancelled | ReadFailed path | DecodeFailed path | InvalidBatch path | SinkFailed path

record 's replay =
  rp_batches :: int
  rp_events :: int
  rp_seen :: "path list option"
  rp_sink :: 's

record replay_env =
  re_cancelled :: "path \<Rightarrow> bool"
  re_unreadable :: "path \<Rightarrow> bool"

definition is_seen :: "path list option \<Rightarrow> path \<Rightarrow> bool" where
  "is_seen seen p = (case seen of None \<Rightarrow> False | Some ps \<Rightarrow> p \<in> set ps)"

text \<open>One JSON value is decoded; what follows it in the file is not looked at.\<close>

definition decode_raw :: "string \<Rightarrow> batch option" where
  "decode_raw data = map_option fst (decoder_decode data)"

definition replay_file :: "replay_env \<Rightarrow> (batch \<Rightarrow> 's \<Rightarrow> bool \<times> 's) \<Rightarrow> fs \<Rightarrow> path \<Rightarrow> 's replay \<Rightarrow>
    replay_error option \<times> 's replay" where
  "replay_file env sink fs p r =
    (if is_seen (rp_seen r) p then (None, r)
     else if re_unreadable env p then (Some (ReadFailed p), r)
     else (case fmlookup fs p of
         None \<Rightarrow> (Some (ReadFailed p), r)
       | Some f \<Rightarrow>
         (case decode_raw (f_data f) of
            None \<Rightarrow> (Some (DecodeFailed p), r)
          | Some b \<Rightarrow>
              if batch_validate b \<noteq> None then (Some (InvalidBatch p), r)
              else (case sink b (rp_sink r) of (ok, s) \<Rightarrow>
                if \<not> ok then (Some (SinkFailed p), r\<lparr>rp_sink := s\<rparr>)
                else (None, r\<lparr>rp_sink := s, rp_seen := map_option (\<lambda>ps. p # ps) (rp_seen r),
                  rp_batches := rp_batches r + 1, rp_events := rp_events r + int (length (ba_events b))\<rparr>)))))"

text \<open>The context is asked at every entry, before the name is.\<close>

fun replay_walk :: "replay_env \<Rightarrow> (batch \<Rightarrow> 's \<Rightarrow> bool \<times> 's) \<Rightarrow> fs \<Rightarrow> path list \<Rightarrow> 's replay \<Rightarrow>
    replay_error option \<times> 's replay" where
  "replay_walk env sink fs [] r = (None, r)"
| "replay_walk env sink fs (p # ps) r =
    (if re_cancelled env p then (Some Cancelled, r)
     else if \<not> equal_fold (path_ext p) ''.json'' then replay_walk env sink fs ps r
     else (case replay_file env sink fs p r of
         (Some e, r') \<Rightarrow> (Some e, r')
       | (None, r') \<Rightarrow> replay_walk env sink fs ps r'))"

definition replay_run :: "replay_env \<Rightarrow> path \<Rightarrow> (batch \<Rightarrow> 's \<Rightarrow> bool \<times> 's) \<Rightarrow> fs \<Rightarrow> path list option \<Rightarrow> 's \<Rightarrow>
    replay_error option \<times> 's replay" where
  "replay_run env rdir sink fs seen s =
    (let r = \<lparr>rp_batches = 0, rp_events = 0, rp_seen = seen, rp_sink = s\<rparr>
     in if trim_space (path_string rdir) = [] then (Some RootRequired, r)
        else replay_walk env sink fs (walk rdir fs) r)"

text \<open>\<open>Run\<close> has no memory; a tracker starts with an empty one and keeps it between runs.\<close>

definition replay_once :: "replay_env \<Rightarrow> path \<Rightarrow> (batch \<Rightarrow> 's \<Rightarrow> bool \<times> 's) \<Rightarrow> fs \<Rightarrow> 's \<Rightarrow>
    replay_error option \<times> 's replay" where
  "replay_once env rdir sink fs s = replay_run env rdir sink fs None s"

definition new_tracker :: "path list option" where "new_tracker = Some []"

definition tracker_run :: "replay_env \<Rightarrow> path \<Rightarrow> (batch \<Rightarrow> 's \<Rightarrow> bool \<times> 's) \<Rightarrow> fs \<Rightarrow> path list option \<Rightarrow> 's \<Rightarrow>
    replay_error option \<times> 's replay" where
  "tracker_run env rdir sink fs tracker s = replay_run env rdir sink fs tracker s"

subsection \<open>What a finished replay has done\<close>

definition replayed :: "fs \<Rightarrow> path \<Rightarrow> batch option" where
  "replayed fs p = (case fmlookup fs p of None \<Rightarrow> None | Some f \<Rightarrow>
     (case decode_raw (f_data f) of None \<Rightarrow> None | Some b \<Rightarrow> if batch_validate b = None then Some b else None))"

lemma replay_file_ok:
  assumes "replay_file env sink fs p r = (None, r')" "\<not> is_seen (rp_seen r) p"
  obtains b s where "replayed fs p = Some b" "sink b (rp_sink r) = (True, s)"
    "r' = r\<lparr>rp_sink := s, rp_seen := map_option (\<lambda>ps. p # ps) (rp_seen r), rp_batches := rp_batches r + 1,
       rp_events := rp_events r + int (length (ba_events b))\<rparr>"
  using assms by (auto simp: replay_file_def replayed_def split: if_splits option.splits prod.splits)

lemma is_seen_Cons: "is_seen (map_option (\<lambda>ps. p # ps) seen) q \<longleftrightarrow> is_seen seen q \<or> seen \<noteq> None \<and> q = p"
  by (auto simp: is_seen_def split: option.splits)

lemma replay_walk_ok:
  assumes "replay_walk env sink fs ps r = (None, r')" "distinct ps"
  defines "new \<equiv> filter (\<lambda>p. equal_fold (path_ext p) ''.json'' \<and> \<not> is_seen (rp_seen r) p) ps"
  shows "list_all (\<lambda>p. replayed fs p \<noteq> None) new \<and>
    rp_sink r' = foldl (\<lambda>s p. snd (sink (the (replayed fs p)) s)) (rp_sink r) new \<and>
    rp_batches r' = rp_batches r + int (length new) \<and>
    rp_events r' = rp_events r + sum_list (map (\<lambda>p. int (length (ba_events (the (replayed fs p))))) new) \<and>
    rp_seen r' = map_option (\<lambda>qs. rev new @ qs) (rp_seen r)"
  using assms(1,2) unfolding new_def
proof (induction ps arbitrary: r)
  case Nil
  then show ?case by (cases "rp_seen r") auto
next
  case (Cons p ps)
  show ?case
  proof (cases "equal_fold (path_ext p) ''.json'' \<and> \<not> is_seen (rp_seen r) p")
    case True
    then obtain r1 where one: "replay_file env sink fs p r = (None, r1)" and rest: "replay_walk env sink fs ps r1 = (None, r')"
      using Cons.prems(1) by (auto split: if_splits prod.splits option.splits)
    obtain b s where b: "replayed fs p = Some b" "sink b (rp_sink r) = (True, s)"
      "r1 = r\<lparr>rp_sink := s, rp_seen := map_option (\<lambda>ps. p # ps) (rp_seen r), rp_batches := rp_batches r + 1,
         rp_events := rp_events r + int (length (ba_events b))\<rparr>"
      using replay_file_ok[OF one] True by blast
    have "filter (\<lambda>q. equal_fold (path_ext q) ''.json'' \<and> \<not> is_seen (rp_seen r1) q) ps =
        filter (\<lambda>q. equal_fold (path_ext q) ''.json'' \<and> \<not> is_seen (rp_seen r) q) ps"
      using Cons.prems(2) by (intro filter_cong) (auto simp: b(3) is_seen_Cons)
    then show ?thesis
      using Cons.IH[OF rest] Cons.prems(2) True b
      by (auto simp: option.map_comp comp_def add.assoc)
  next
    case False
    then have "replay_walk env sink fs ps r = (None, r')"
      using Cons.prems(1) by (auto simp: replay_file_def split: if_splits)
    moreover have "filter (\<lambda>q. equal_fold (path_ext q) ''.json'' \<and> \<not> is_seen (rp_seen r) q) (p # ps) =
        filter (\<lambda>q. equal_fold (path_ext q) ''.json'' \<and> \<not> is_seen (rp_seen r) q) ps"
      using False by simp
    ultimately show ?thesis using Cons.IH Cons.prems(2) by simp
  qed
qed

lemma replay_run_ok:
  assumes "replay_run env rdir sink fs seen s = (None, r)"
  defines "new \<equiv> filter (\<lambda>p. \<not> is_seen seen p) (raw_files rdir fs)"
  shows "list_all (\<lambda>p. replayed fs p \<noteq> None) new \<and>
    rp_sink r = foldl (\<lambda>s p. snd (sink (the (replayed fs p)) s)) s new \<and>
    rp_batches r = int (length new) \<and>
    rp_events r = sum_list (map (\<lambda>p. int (length (ba_events (the (replayed fs p))))) new) \<and>
    rp_seen r = map_option (\<lambda>qs. rev new @ qs) seen"
proof -
  let ?r = "\<lparr>rp_batches = 0, rp_events = 0, rp_seen = seen, rp_sink = s\<rparr>"
  have "replay_walk env sink fs (walk rdir fs) ?r = (None, r)"
    using assms(1) by (auto simp: replay_run_def Let_def split: if_splits)
  moreover have "new = filter (\<lambda>p. equal_fold (path_ext p) ''.json'' \<and> \<not> is_seen (rp_seen ?r) p) (walk rdir fs)"
    by (simp add: new_def raw_files_def conj_commute)
  ultimately show ?thesis using replay_walk_ok[of env sink fs "walk rdir fs" ?r r] by simp
qed

definition collect_sink :: "batch \<Rightarrow> batch list \<Rightarrow> bool \<times> batch list" where
  "collect_sink b bs = (True, bs @ [b])"

lemma collect_fold: "foldl (\<lambda>s p. snd (collect_sink (g p) s)) s ps = s @ map g ps"
  by (induction ps arbitrary: s) (auto simp: collect_sink_def)

lemma seen_after: "filter (\<lambda>p. \<not> is_seen (map_option (\<lambda>qs. rev (filter (\<lambda>p. \<not> is_seen seen p) xs) @ qs) seen) p) xs =
    (if seen = None then xs else [])"
  by (cases seen) (auto simp: is_seen_def filter_empty_conv)

text \<open>
  Claim C36 [replay_exact]: a replay that reports no error has delivered the whole raw store. With a
  sink that collects, as in the analysis, the batches are exactly those of the \<open>.json\<close> files that the
  tracker had not seen, in path order, each decoded and valid; the counts are theirs; a second run of
  the same tracker over the unchanged tree delivers nothing, while a run without one delivers all again.
\<close>

theorem replay_exact:
  assumes "replay_run env rdir collect_sink fs seen bs = (None, r)"
  shows "(let new = filter (\<lambda>p. \<not> is_seen seen p) (raw_files rdir fs); got = map (\<lambda>p. the (replayed fs p)) new
     in list_all (\<lambda>p. replayed fs p \<noteq> None) new \<and> rp_sink r = bs @ got \<and> rp_batches r = int (length got) \<and>
       rp_events r = sum_list (map (\<lambda>b. int (length (ba_events b))) got) \<and>
       (\<forall>r2. replay_run env rdir collect_sink fs (rp_seen r) bs2 = (None, r2) \<longrightarrow>
         rp_sink r2 = bs2 @ (if seen = None then got else [])))"
proof -
  let ?new = "filter (\<lambda>p. \<not> is_seen seen p) (raw_files rdir fs)"
  note one = replay_run_ok[OF assms]
  have "rp_sink r2 = bs2 @ (if seen = None then map (\<lambda>p. the (replayed fs p)) ?new else [])"
    if "replay_run env rdir collect_sink fs (rp_seen r) bs2 = (None, r2)" for r2
  proof -
    have "filter (\<lambda>p. \<not> is_seen (rp_seen r) p) (raw_files rdir fs) = (if seen = None then raw_files rdir fs else [])"
      using one seen_after[of seen "raw_files rdir fs"] by simp
    then show ?thesis
      using replay_run_ok[OF that] by (auto simp: collect_fold is_seen_def)
  qed
  then show ?thesis using one by (simp add: Let_def collect_fold comp_def)
qed

definition one_file :: fs where
  "one_file = fmupd [''raw'', ''b.json''] \<lparr>f_data = batch_text (sample_batch 7) @ [CHR 0x0A], f_time = 5\<rparr> fmempty"

definition calm_replay :: replay_env where
  "calm_replay = \<lparr>re_cancelled = (\<lambda>p. False), re_unreadable = (\<lambda>p. False)\<rparr>"

lemma raw_files_one: "raw_files [''raw''] one_file = [[''raw'', ''b.json'']]"
  by (simp add: raw_files_def walk_def one_file_def is_below_def path_ext_def path_base_def equal_fold_def
      sorted_list_of_fset.rep_eq)

lemma replay_one: "replay_run calm_replay [''raw''] collect_sink one_file seen bs =
    (None, snd (replay_run calm_replay [''raw''] collect_sink one_file seen bs))"
proof -
  have w: "walk [''raw''] one_file = [[''raw'', ''b.json'']]"
    by (simp add: walk_def one_file_def is_below_def sorted_list_of_fset.rep_eq)
  have "trim_space (path_string [''raw'']) = ''raw''"
    by (simp add: path_string_def trim_space_plain plain_char_def)
  moreover have "fmlookup one_file [''raw'', ''b.json''] =
      Some \<lparr>f_data = batch_text (sample_batch 7) @ [CHR 0x0A], f_time = 5\<rparr>"
    by (simp add: one_file_def)
  moreover have "equal_fold (path_ext [''raw'', ''b.json'']) ''.json''"
    by (simp add: path_ext_def path_base_def equal_fold_def)
  ultimately show ?thesis
    by (simp add: replay_run_def w calm_replay_def replay_file_def decode_raw_def decode_sample
        validate_sample collect_sink_def Let_def)
qed

theorem replay_exact_witness:
  "\<exists>r. replay_run calm_replay [''raw''] collect_sink one_file new_tracker [] = (None, r) \<and>
    rp_sink r = [sample_batch 7] \<and> rp_batches r = 1"
proof -
  obtain r where r: "replay_run calm_replay [''raw''] collect_sink one_file new_tracker [] = (None, r)"
    using replay_one by blast
  have "replayed one_file [''raw'', ''b.json''] = Some (sample_batch 7)"
    by (simp add: replayed_def one_file_def decode_raw_def decode_sample validate_sample)
  then show ?thesis
    using replay_exact[OF r] r by (simp add: raw_files_one new_tracker_def is_seen_def Let_def)
qed

end
