(* ===== verification/Retention.thy ===== *)
theory Retention
  imports Replay
begin

section \<open>Retention of raw batches (\<open>internal/retention/raw.go\<close>)\<close>

text \<open>
  \<open>PruneRaw\<close> removes the raw files last modified before a time, or only counts them in a dry run. The
  environment decides which removals fail; the first failure ends the walk.
\<close>

record prune_stats =
  ps_scanned :: int
  ps_expired :: int
  ps_deleted :: int
  ps_bytes :: int

datatype prune_error = NoRoot | InfoFailed path | RemoveFailed path

fun prune_walk :: "(path \<Rightarrow> bool) \<Rightarrow> int \<Rightarrow> bool \<Rightarrow> path list \<Rightarrow> prune_stats \<times> fs \<Rightarrow>
    prune_error option \<times> prune_stats \<times> fs" where
  "prune_walk stuck before execute [] (st, fs) = (None, st, fs)"
| "prune_walk stuck before execute (p # ps) (st, fs) =
    (if \<not> equal_fold (path_ext p) ''.json'' then prune_walk stuck before execute ps (st, fs)
     else
       (case fmlookup fs p of
          None \<Rightarrow> (Some (InfoFailed p), st\<lparr>ps_scanned := ps_scanned st + 1\<rparr>, fs)
        | Some f \<Rightarrow>
            (let st1 = st\<lparr>ps_scanned := ps_scanned st + 1\<rparr> in
             if \<not> f_time f < before then prune_walk stuck before execute ps (st1, fs)
             else
               (let st2 = st1\<lparr>ps_expired := ps_expired st1 + 1, ps_bytes := ps_bytes st1 + int (length (f_data f))\<rparr>
                in if \<not> execute then prune_walk stuck before execute ps (st2, fs)
                   else if stuck p then (Some (RemoveFailed p), st2, fs)
                   else prune_walk stuck before execute ps
                     (st2\<lparr>ps_deleted := ps_deleted st2 + 1\<rparr>, fmdrop p fs)))))"

definition prune_raw :: "(path \<Rightarrow> bool) \<Rightarrow> path \<Rightarrow> int \<Rightarrow> bool \<Rightarrow> fs \<Rightarrow> prune_error option \<times> prune_stats \<times> fs" where
  "prune_raw stuck rdir before execute fs =
    (let st = \<lparr>ps_scanned = 0, ps_expired = 0, ps_deleted = 0, ps_bytes = 0\<rparr>
     in if trim_space (path_string rdir) = [] then (Some NoRoot, st, fs)
        else prune_walk stuck before execute (walk rdir fs) (st, fs))"

subsection \<open>What is pruned\<close>

definition expired :: "int \<Rightarrow> fs \<Rightarrow> path \<Rightarrow> bool" where
  "expired before fs p \<longleftrightarrow> equal_fold (path_ext p) ''.json'' \<and>
     (case fmlookup fs p of None \<Rightarrow> False | Some f \<Rightarrow> f_time f < before)"

definition file_size :: "fs \<Rightarrow> path \<Rightarrow> int" where
  "file_size fs p = (case fmlookup fs p of None \<Rightarrow> 0 | Some f \<Rightarrow> int (length (f_data f)))"

lemma file_size_drop: "p \<notin> set ps \<Longrightarrow> map (file_size (fmdrop p fs)) ps = map (file_size fs) ps"
  by (auto simp: file_size_def)

lemma expired_drop: "p \<notin> set ps \<Longrightarrow> filter (expired before (fmdrop p fs)) ps = filter (expired before fs) ps"
  by (intro filter_cong) (auto simp: expired_def)

lemma prune_walk_ok:
  assumes "prune_walk stuck before execute ps (st, fs) = (None, st', fs')" "distinct ps"
  shows "ps_scanned st' = ps_scanned st + int (length (filter (\<lambda>p. equal_fold (path_ext p) ''.json'') ps)) \<and>
    ps_expired st' = ps_expired st + int (length (filter (expired before fs) ps)) \<and>
    ps_bytes st' = ps_bytes st + sum_list (map (file_size fs) (filter (expired before fs) ps)) \<and>
    ps_deleted st' = ps_deleted st + (if execute then int (length (filter (expired before fs) ps)) else 0) \<and>
    (\<forall>p. fmlookup fs' p = (if execute \<and> p \<in> set ps \<and> expired before fs p then None else fmlookup fs p))"
  using assms
proof (induction ps arbitrary: st fs)
  case Nil
  then show ?case by simp
next
  case (Cons p ps)
  have p: "p \<notin> set ps" "distinct ps" using Cons.prems(2) by auto
  show ?case
  proof (cases "expired before fs p")
    case False
    then obtain st1 where "prune_walk stuck before execute ps (st1, fs) = (None, st', fs')"
      "st1 = (if equal_fold (path_ext p) ''.json'' then st\<lparr>ps_scanned := ps_scanned st + 1\<rparr> else st)"
      using Cons.prems(1) by (auto simp: expired_def Let_def split: if_splits option.splits)
    then show ?thesis using Cons.IH[of st1 fs] p False by auto
  next
    case True
    then obtain f where f: "fmlookup fs p = Some f" "f_time f < before" "equal_fold (path_ext p) ''.json''"
      by (auto simp: expired_def split: option.splits)
    show ?thesis
    proof (cases execute)
      case False
      then have "prune_walk stuck before execute ps (st\<lparr>ps_scanned := ps_scanned st + 1,
          ps_expired := ps_expired st + 1, ps_bytes := ps_bytes st + int (length (f_data f))\<rparr>, fs) = (None, st', fs')"
        using Cons.prems(1) f by (simp add: Let_def)
      then show ?thesis using Cons.IH p True False f by (auto simp: file_size_def)
    next
      case run: True
      then have "prune_walk stuck before execute ps (st\<lparr>ps_scanned := ps_scanned st + 1,
          ps_expired := ps_expired st + 1, ps_bytes := ps_bytes st + int (length (f_data f)),
          ps_deleted := ps_deleted st + 1\<rparr>, fmdrop p fs) = (None, st', fs')"
        using Cons.prems(1) f by (auto simp: Let_def split: if_splits)
      from Cons.IH[OF this p(2)] have ih: "ps_scanned st' = ps_scanned st + 1 + int (length (filter (\<lambda>p. equal_fold (path_ext p) ''.json'') ps))"
        "ps_expired st' = ps_expired st + 1 + int (length (filter (expired before fs) ps))"
        "ps_bytes st' = ps_bytes st + int (length (f_data f)) + sum_list (map (file_size fs) (filter (expired before fs) ps))"
        "ps_deleted st' = ps_deleted st + 1 + int (length (filter (expired before fs) ps))"
        "\<And>q. fmlookup fs' q = (if q \<in> set ps \<and> expired before (fmdrop p fs) q then None else fmlookup (fmdrop p fs) q)"
        using run p(1) by (auto simp: expired_drop file_size_drop)
      have "fmlookup fs' q = (if q \<in> set (p # ps) \<and> expired before fs q then None else fmlookup fs q)" for q
        using ih(5)[of q] p(1) True by (auto simp: expired_def)
      moreover have "file_size fs p = int (length (f_data f))" by (simp add: file_size_def f(1))
      ultimately show ?thesis using ih(1-4) True run f(3) by auto
    qed
  qed
qed



end
