(* ===== verification/Privacy.thy ===== *)
theory Privacy
  imports Replay
begin

section \<open>Deleting a player from the raw store (\<open>internal/privacy/raw.go\<close>)\<close>

text \<open>
  \<open>ScrubRaw\<close> takes every event of one durable identity out of every raw file. A file with nothing left
  is removed, one with less is replaced through a temporary file and a backup. The environment says,
  per file, which system calls fail, how much a failing write leaves, the random part of the
  temporary name and the clock.
\<close>

subsection \<open>Which events belong to a player\<close>

definition raw_durable_id :: "string \<Rightarrow> string" where
  "raw_durable_id s = (case last_index CHR '':'' s of None \<Rightarrow> s | Some k \<Rightarrow> drop (Suc k) s)"

definition identity_field_matches :: "string \<Rightarrow> string \<Rightarrow> string \<Rightarrow> bool" where
  "identity_field_matches key v identity =
    (let lower = to_lower key in
     if has_suffix lower ''player_session_id'' \<or> has_suffix lower ''session_id'' then raw_durable_id v = identity
     else if has_suffix lower ''player_id'' \<or> has_suffix lower ''durable_player_id'' then v = identity
     else False)"

text \<open>A map keeps the last member of each name.\<close>

fun contains_identity :: "string \<Rightarrow> json \<Rightarrow> bool"
  and members_contain :: "string \<Rightarrow> (string \<times> json) list \<Rightarrow> bool"
  and elements_contain :: "string \<Rightarrow> json list \<Rightarrow> bool" where
  "contains_identity identity (JObj ms) = members_contain identity ms"
| "contains_identity identity (JArr vs) = elements_contain identity vs"
| "contains_identity identity (JStr s) = False"
| "contains_identity identity (JNum s) = False"
| "contains_identity identity (JBool b) = False"
| "contains_identity identity JNull = False"
| "members_contain identity [] = False"
| "members_contain identity ((k, j) # ms) =
    (k \<notin> fst ` set ms \<and> ((case j of JStr t \<Rightarrow> identity_field_matches k t identity | _ \<Rightarrow> False) \<or>
       contains_identity identity j) \<or> members_contain identity ms)"
| "elements_contain identity [] = False"
| "elements_contain identity (j # js) = (contains_identity identity j \<or> elements_contain identity js)"

definition event_matches :: "event \<Rightarrow> string \<Rightarrow> bool" where
  "event_matches e identity =
    (if ev_player e = identity \<or> raw_durable_id (ev_player_session e) = identity then True
     else if ev_payload e = [] then False
     else (case unmarshal_any (ev_payload e) of None \<Rightarrow> False | Some j \<Rightarrow> contains_identity identity j))"

subsection \<open>Replacing a file\<close>

datatype scrub_call =
    ReadRaw | RemoveRaw | CreateRewrite | WriteRewrite | SyncRewrite | CloseRewrite
  | RemoveOldBackup | RenameAway | RenameIn | RenameBack | RemoveBackup | RemoveTemp

record scrub_env =
  sv_fails :: "scrub_call \<Rightarrow> bool"
  sv_temp :: string
  sv_partial :: nat
  sv_now :: int

definition backup_path :: "path \<Rightarrow> path" where
  "backup_path p = butlast p @ [last p @ ''.privacy-backup'']"

definition rewrite_path :: "path \<Rightarrow> scrub_env \<Rightarrow> path" where
  "rewrite_path p v = butlast p @ [''.privacy-rewrite-'' @ sv_temp v]"

definition drop_temp :: "scrub_env \<Rightarrow> path \<Rightarrow> fs \<Rightarrow> fs" where
  "drop_temp v tmp fs = (if sv_fails v RemoveTemp then fs else fmdrop tmp fs)"

definition replace_file :: "scrub_env \<Rightarrow> path \<Rightarrow> string \<Rightarrow> stored_file \<Rightarrow> fs \<Rightarrow> bool \<times> fs" where
  "replace_file v p data original fs =
    (let tmp = rewrite_path p v; backup = backup_path p;
         partial = \<lparr>f_data = take (sv_partial v) data, f_time = sv_now v\<rparr>;
         whole = \<lparr>f_data = data, f_time = sv_now v\<rparr>
     in if sv_fails v CreateRewrite \<or> tmp |\<in>| fmdom fs then (False, fs)
        else if sv_fails v WriteRewrite then (False, drop_temp v tmp (fmupd tmp partial fs))
        else if sv_fails v SyncRewrite \<or> sv_fails v CloseRewrite then (False, drop_temp v tmp (fmupd tmp whole fs))
        else
          (let fs1 = (if sv_fails v RemoveOldBackup then fmupd tmp whole fs else fmdrop backup (fmupd tmp whole fs))
           in if sv_fails v RenameAway then (False, drop_temp v tmp fs1)
              else
                (let fs2 = fmupd backup original (fmdrop p fs1)
                 in if sv_fails v RenameIn then
                      (False, drop_temp v tmp (if sv_fails v RenameBack then fs2 else fmupd p original (fmdrop backup fs2)))
                    else
                      (let fs3 = fmupd p whole (fmdrop tmp fs2)
                       in if sv_fails v RemoveBackup then (False, fs3) else (True, fmdrop backup fs3)))))"

subsection \<open>Scrub\<close>

record scrub_stats =
  ss_scanned :: int
  ss_rewritten :: int
  ss_deleted :: int
  ss_removed :: int
  ss_affected :: "(string \<times> string \<times> 64 word) list"

datatype scrub_error =
  NoIdentity | ScrubRead path | ScrubDecode path | ScrubRemove path | ScrubMarshal path | ScrubReplace path

definition kept_events :: "string \<Rightarrow> batch \<Rightarrow> event list" where
  "kept_events identity b = filter (\<lambda>e. \<not> event_matches e identity) (ba_events b)"

definition scrub_file :: "scrub_env \<Rightarrow> string \<Rightarrow> bool \<Rightarrow> path \<Rightarrow> scrub_stats \<times> fs \<Rightarrow>
    scrub_error option \<times> scrub_stats \<times> fs" where
  "scrub_file v identity execute p s = (case s of (st0, fs) \<Rightarrow>
    (let st = st0\<lparr>ss_scanned := ss_scanned st0 + 1\<rparr> in
     case (if sv_fails v ReadRaw then None else fmlookup fs p) of
       None \<Rightarrow> (Some (ScrubRead p), st, fs)
     | Some f \<Rightarrow>
       (case unmarshal_batch (f_data f) of
          None \<Rightarrow> (Some (ScrubDecode p), st, fs)
        | Some b \<Rightarrow>
            (let kept = kept_events identity b; removed = int (length (ba_events b)) - int (length kept);
                 st1 = st\<lparr>ss_removed := ss_removed st + removed,
                   ss_affected := ss_affected st @ [(ba_server b, ba_session b, ba_sequence b)]\<rparr>
             in if removed = 0 then (None, st, fs)
                else if \<not> execute then (None, st1, fs)
                else if kept = [] then
                  (if sv_fails v RemoveRaw then (Some (ScrubRemove p), st1, fs)
                   else (None, st1\<lparr>ss_deleted := ss_deleted st1 + 1\<rparr>, fmdrop p fs))
                else (case marshal_batch (b\<lparr>ba_events := kept\<rparr>) of
                    None \<Rightarrow> (Some (ScrubMarshal p), st1, fs)
                  | Some encoded \<Rightarrow>
                      (case replace_file v p (encoded @ [CHR 0x0A]) f fs of
                         (False, fs') \<Rightarrow> (Some (ScrubReplace p), st1, fs')
                       | (True, fs') \<Rightarrow> (None, st1\<lparr>ss_rewritten := ss_rewritten st1 + 1\<rparr>, fs')))))))"

fun scrub_walk :: "(path \<Rightarrow> scrub_env) \<Rightarrow> string \<Rightarrow> bool \<Rightarrow> path list \<Rightarrow> scrub_stats \<times> fs \<Rightarrow>
    scrub_error option \<times> scrub_stats \<times> fs" where
  "scrub_walk env identity execute [] s = (None, s)"
| "scrub_walk env identity execute (p # ps) s =
    (if \<not> equal_fold (path_ext p) ''.json'' then scrub_walk env identity execute ps s
     else (case scrub_file (env p) identity execute p s of
         (Some e, s') \<Rightarrow> (Some e, s')
       | (None, s') \<Rightarrow> scrub_walk env identity execute ps s'))"

definition scrub_raw :: "(path \<Rightarrow> scrub_env) \<Rightarrow> path \<Rightarrow> string \<Rightarrow> bool \<Rightarrow> fs \<Rightarrow>
    scrub_error option \<times> scrub_stats \<times> fs" where
  "scrub_raw env rdir identity execute fs =
    (let st = \<lparr>ss_scanned = 0, ss_rewritten = 0, ss_deleted = 0, ss_removed = 0, ss_affected = []\<rparr>
     in if trim_space (path_string rdir) = [] \<or> trim_space identity = [] then (Some NoIdentity, st, fs)
        else scrub_walk env identity execute (walk rdir fs) (st, fs))"

subsection \<open>One file\<close>

text \<open>What a finished scrub makes of the file at a path.\<close>

definition scrubbed :: "string \<Rightarrow> int \<Rightarrow> stored_file \<Rightarrow> stored_file option option" where
  "scrubbed identity now f = (case unmarshal_batch (f_data f) of
      None \<Rightarrow> None
    | Some b \<Rightarrow>
        (if list_all (\<lambda>e. \<not> event_matches e identity) (ba_events b) then Some (Some f)
         else if kept_events identity b = [] then Some None
         else map_option (\<lambda>text. Some \<lparr>f_data = text @ [CHR 0x0A], f_time = now\<rparr>)
           (marshal_batch (b\<lparr>ba_events := kept_events identity b\<rparr>))))"

lemma removed_zero: "int (length (ba_events b)) - int (length (kept_events identity b)) = 0 \<longleftrightarrow>
    list_all (\<lambda>e. \<not> event_matches e identity) (ba_events b)"
proof -
  have all: "length (filter P xs) = length xs \<longleftrightarrow> list_all P xs" for P and xs :: "event list"
    by (metis filter_True length_filter_less less_irrefl list_all_iff)
  show ?thesis unfolding kept_events_def all[symmetric] by auto
qed

lemma backup_ext: "p \<noteq> [] \<Longrightarrow> path_ext (backup_path p) = ''.privacy-backup''"
proof -
  have "CHR ''.'' \<notin> set ''privacy-backup''" by simp
  then have "last_index CHR ''.'' (last p @ CHR ''.'' # ''privacy-backup'') = Some (length (last p))"
    by (rule last_index_append)
  then show ?thesis by (simp add: path_ext_def path_base_def backup_path_def)
qed

lemma backup_not_raw: "p \<noteq> [] \<Longrightarrow> \<not> equal_fold (path_ext (backup_path p)) ''.json''"
  by (simp add: backup_ext equal_fold_def to_lower_def lower_char_def)

lemma replace_file_ok:
  assumes "replace_file v p data original fs = (True, fs')" "p |\<in>| fmdom fs" "p \<noteq> []" "equal_fold (path_ext p) ''.json''"
  shows "fmlookup fs' q = (if q = p then Some \<lparr>f_data = data, f_time = sv_now v\<rparr>
    else if q = backup_path p then None else fmlookup fs q)"
proof -
  let ?tmp = "rewrite_path p v"
  have fresh: "?tmp |\<notin>| fmdom fs" and fs': "fs' = fmdrop (backup_path p) (fmupd p \<lparr>f_data = data, f_time = sv_now v\<rparr>
      (fmdrop ?tmp (fmupd (backup_path p) original (fmdrop p
        (if sv_fails v RemoveOldBackup then fmupd ?tmp \<lparr>f_data = data, f_time = sv_now v\<rparr> fs
         else fmdrop (backup_path p) (fmupd ?tmp \<lparr>f_data = data, f_time = sv_now v\<rparr> fs))))))"
    using assms(1) by (auto simp: replace_file_def Let_def split: if_splits)
  have "p \<noteq> backup_path p" using backup_not_raw[OF assms(3)] assms(4) by metis
  moreover have "p \<noteq> ?tmp" using fresh assms(2) by metis
  moreover have "fmlookup fs ?tmp = None" using fresh by (simp add: fmdom_notD)
  ultimately show ?thesis unfolding fs' by auto
qed

lemma scrub_file_ok:
  assumes "scrub_file v identity execute p (st, fs) = (None, st', fs')" "p \<noteq> []" "equal_fold (path_ext p) ''.json''"
  shows "\<exists>f out. fmlookup fs p = Some f \<and> unmarshal_batch (f_data f) \<noteq> None \<and>
    (execute \<longrightarrow> scrubbed identity (sv_now v) f = Some out \<and> fmlookup fs' p = out) \<and> (\<not> execute \<longrightarrow> fs' = fs) \<and>
    (\<forall>q. q \<noteq> p \<longrightarrow> fmlookup fs' q = fmlookup fs q \<or> q = backup_path p \<and> fmlookup fs' q = None)"
proof -
  obtain f b where f: "fmlookup fs p = Some f" "unmarshal_batch (f_data f) = Some b"
    using assms(1) by (auto simp: scrub_file_def Let_def split: if_splits option.splits)
  let ?kept = "kept_events identity b"
  note zero = removed_zero[of b identity]
  show ?thesis
  proof (cases "list_all (\<lambda>e. \<not> event_matches e identity) (ba_events b) \<or> \<not> execute")
    case True
    then have "fs' = fs" using assms(1) f zero by (auto simp: scrub_file_def Let_def split: if_splits)
    then show ?thesis using f True by (auto simp: scrubbed_def)
  next
    case False
    show ?thesis
    proof (cases "?kept = []")
      case True
      then have "fs' = fmdrop p fs" using assms(1) f zero False by (auto simp: scrub_file_def Let_def split: if_splits)
      then show ?thesis using f True False by (auto simp: scrubbed_def)
    next
      case remaining: False
      obtain body where m: "marshal_batch (b\<lparr>ba_events := ?kept\<rparr>) = Some body"
        and r: "replace_file v p (body @ [CHR 0x0A]) f fs = (True, fs')"
        using assms(1) f zero False remaining
        by (auto simp: scrub_file_def Let_def split: if_splits option.splits prod.splits bool.splits)
      have "p |\<in>| fmdom fs" using f(1) by (rule fmdomI)
      then show ?thesis
        using replace_file_ok[OF r _ assms(2,3)] f m remaining False by (auto simp: scrubbed_def)
    qed
  qed
qed

subsection \<open>The whole walk\<close>

abbreviation is_raw :: "path \<Rightarrow> bool" where
  "is_raw p \<equiv> equal_fold (path_ext p) ''.json''"

lemma scrub_walk_ok:
  assumes "scrub_walk env identity execute ps (st, fs) = (None, st', fs')" "distinct ps" "[] \<notin> set ps"
  shows "(\<forall>p \<in> set ps. is_raw p \<longrightarrow> (\<exists>f out. fmlookup fs p = Some f \<and> unmarshal_batch (f_data f) \<noteq> None \<and>
      (execute \<longrightarrow> scrubbed identity (sv_now (env p)) f = Some out \<and> fmlookup fs' p = out))) \<and>
    (\<not> execute \<longrightarrow> fs' = fs) \<and>
    (\<forall>q. \<not> (q \<in> set ps \<and> is_raw q) \<longrightarrow> fmlookup fs' q = fmlookup fs q \<or>
      fmlookup fs' q = None \<and> (\<exists>p \<in> set ps. q = backup_path p))"
  using assms
proof (induction ps arbitrary: st fs)
  case Nil
  then show ?case by simp
next
  case (Cons p ps)
  have p: "p \<notin> set ps" "distinct ps" "p \<noteq> []" "[] \<notin> set ps" using Cons.prems(2,3) by auto
  show ?case
  proof (cases "is_raw p")
    case False
    then have "scrub_walk env identity execute ps (st, fs) = (None, st', fs')" using Cons.prems(1) by simp
    from Cons.IH[OF this p(2,4)] show ?thesis using False by auto
  next
    case True
    then obtain st1 fs1 where one: "scrub_file (env p) identity execute p (st, fs) = (None, st1, fs1)"
      and rest: "scrub_walk env identity execute ps (st1, fs1) = (None, st', fs')"
      using Cons.prems(1) by (auto split: prod.splits option.splits)
    obtain f out where f: "fmlookup fs p = Some f" "unmarshal_batch (f_data f) \<noteq> None"
      "execute \<longrightarrow> scrubbed identity (sv_now (env p)) f = Some out \<and> fmlookup fs1 p = out" "\<not> execute \<longrightarrow> fs1 = fs"
      and frame: "\<And>q. q \<noteq> p \<Longrightarrow> fmlookup fs1 q = fmlookup fs q \<or> q = backup_path p \<and> fmlookup fs1 q = None"
      using scrub_file_ok[OF one p(3) True] by blast
    note ih = Cons.IH[OF rest p(2,4)]
    have raw_frame: "fmlookup fs1 q = fmlookup fs q" if "q \<noteq> p" "is_raw q" for q
      using frame[OF that(1)] backup_not_raw[OF p(3)] that(2) by metis
    have "fmlookup fs' p = fmlookup fs1 p"
      using ih p(1) True backup_not_raw p(4) by metis
    moreover have "fmlookup fs' q = fmlookup fs q \<or> fmlookup fs' q = None \<and> (\<exists>p \<in> set (p # ps). q = backup_path p)"
      if "\<not> (q \<in> set (p # ps) \<and> is_raw q)" for q
    proof -
      have "q \<noteq> p" "\<not> (q \<in> set ps \<and> is_raw q)" using that True by auto
      then show ?thesis using ih frame[of q] by (metis list.set_intros(1,2))
    qed
    moreover have "\<exists>f out. fmlookup fs q = Some f \<and> unmarshal_batch (f_data f) \<noteq> None \<and>
        (execute \<longrightarrow> scrubbed identity (sv_now (env q)) f = Some out \<and> fmlookup fs' q = out)"
      if "q \<in> set ps" "is_raw q" for q
    proof -
      have "fmlookup fs1 q = fmlookup fs q" using raw_frame that p(1) by metis
      then show ?thesis using ih that by metis
    qed
    moreover have "\<not> execute \<Longrightarrow> fs' = fs" using ih f(4) by simp
    ultimately show ?thesis using f(1-3) by auto
  qed
qed

lemma scrub_file_dry:
  assumes "scrub_file v identity True p (st, fs) = (None, st', fs')" "fmlookup fs0 p = fmlookup fs p"
    and "ss_scanned st0 = ss_scanned st" "ss_removed st0 = ss_removed st" "ss_affected st0 = ss_affected st"
  shows "\<exists>st0'. scrub_file v identity False p (st0, fs0) = (None, st0', fs0) \<and> ss_scanned st0' = ss_scanned st' \<and>
    ss_removed st0' = ss_removed st' \<and> ss_affected st0' = ss_affected st' \<and> ss_rewritten st0' = ss_rewritten st0 \<and>
    ss_deleted st0' = ss_deleted st0"
  using assms by (auto simp: scrub_file_def Let_def split: if_splits option.splits prod.splits bool.splits)

lemma scrub_walk_dry:
  assumes "scrub_walk env identity True ps (st, fs) = (None, st', fs')" "distinct ps" "[] \<notin> set ps"
    and "\<forall>p \<in> set ps. is_raw p \<longrightarrow> fmlookup fs0 p = fmlookup fs p"
    and "ss_scanned st0 = ss_scanned st" "ss_removed st0 = ss_removed st" "ss_affected st0 = ss_affected st"
  shows "\<exists>st0'. scrub_walk env identity False ps (st0, fs0) = (None, st0', fs0) \<and> ss_scanned st0' = ss_scanned st' \<and>
    ss_removed st0' = ss_removed st' \<and> ss_affected st0' = ss_affected st' \<and> ss_rewritten st0' = ss_rewritten st0 \<and>
    ss_deleted st0' = ss_deleted st0"
  using assms
proof (induction ps arbitrary: st fs st0)
  case Nil
  then show ?case by simp
next
  case (Cons p ps)
  show ?case
  proof (cases "is_raw p")
    case False
    then show ?thesis using Cons.IH[of st fs st0] Cons.prems by simp
  next
    case True
    then obtain st1 fs1 where one: "scrub_file (env p) identity True p (st, fs) = (None, st1, fs1)"
      and rest: "scrub_walk env identity True ps (st1, fs1) = (None, st', fs')"
      using Cons.prems(1) by (auto split: prod.splits option.splits)
    have p: "p \<notin> set ps" "p \<noteq> []" "[] \<notin> set ps" using Cons.prems(2,3) by auto
    obtain st2 where dry: "scrub_file (env p) identity False p (st0, fs0) = (None, st2, fs0)"
      "ss_scanned st2 = ss_scanned st1" "ss_removed st2 = ss_removed st1" "ss_affected st2 = ss_affected st1"
      "ss_rewritten st2 = ss_rewritten st0" "ss_deleted st2 = ss_deleted st0"
      using scrub_file_dry[OF one _ Cons.prems(5-7)] Cons.prems(4) True by auto
    have "\<forall>q \<in> set ps. is_raw q \<longrightarrow> fmlookup fs0 q = fmlookup fs1 q"
      using scrub_file_ok[OF one p(2) True] Cons.prems(4) p(1) backup_not_raw[OF p(2)]
      by (metis list.set_intros(2))
    from Cons.IH[OF rest _ p(3) this dry(2-4)] Cons.prems(2) show ?thesis using dry True by auto
  qed
qed

text \<open>
  Claim C38 [scrub_exact]: a scrub that reports no error has removed exactly the player's events from
  the whole raw store. Every raw file below the root decodes, and afterwards is untouched if none of
  its events match, gone if all do, and otherwise holds the marshalled batch with exactly the
  non-matching events; no other file changes, except that an old backup of a scrubbed file is gone. A
  dry run changes nothing and reports the same files, events and batches.
\<close>

theorem scrub_exact:
  assumes "scrub_raw env rdir identity True fs = (None, st, fs')"
  shows "(\<forall>p \<in> set (raw_files rdir fs). \<exists>f out. fmlookup fs p = Some f \<and>
      scrubbed identity (sv_now (env p)) f = Some out \<and> fmlookup fs' p = out) \<and>
    (\<forall>q. q \<notin> set (raw_files rdir fs) \<longrightarrow> fmlookup fs' q = fmlookup fs q \<or>
      fmlookup fs' q = None \<and> (\<exists>p \<in> set (walk rdir fs). q = backup_path p)) \<and>
    (\<exists>st0. scrub_raw env rdir identity False fs = (None, st0, fs) \<and> ss_scanned st0 = ss_scanned st \<and>
      ss_removed st0 = ss_removed st \<and> ss_affected st0 = ss_affected st)"
proof -
  let ?st = "\<lparr>ss_scanned = 0, ss_rewritten = 0, ss_deleted = 0, ss_removed = 0, ss_affected = []\<rparr>"
  have root: "trim_space (path_string rdir) \<noteq> []" "trim_space identity \<noteq> []"
    and run: "scrub_walk env identity True (walk rdir fs) (?st, fs) = (None, st, fs')"
    using assms by (auto simp: scrub_raw_def Let_def split: if_splits)
  have below: "[] \<notin> set (walk rdir fs)" by (auto simp: set_walk is_below_def)
  note ok = scrub_walk_ok[OF run distinct_walk below]
  have raw: "p \<in> set (raw_files rdir fs) \<longleftrightarrow> p \<in> set (walk rdir fs) \<and> is_raw p" for p
    by (auto simp: raw_files_def)
  have "\<exists>st0. scrub_raw env rdir identity False fs = (None, st0, fs) \<and> ss_scanned st0 = ss_scanned st \<and>
      ss_removed st0 = ss_removed st \<and> ss_affected st0 = ss_affected st"
    using scrub_walk_dry[OF run distinct_walk below, where ?fs0.0=fs and ?st0.0="?st"] root
    by (simp only: scrub_raw_def Let_def simp_thms if_False) blast
  moreover have "\<forall>p \<in> set (raw_files rdir fs). \<exists>f out. fmlookup fs p = Some f \<and>
      scrubbed identity (sv_now (env p)) f = Some out \<and> fmlookup fs' p = out"
    using conjunct1[OF ok] raw by metis
  moreover have "\<forall>q. q \<notin> set (raw_files rdir fs) \<longrightarrow> fmlookup fs' q = fmlookup fs q \<or>
      fmlookup fs' q = None \<and> (\<exists>p \<in> set (walk rdir fs). q = backup_path p)"
    using conjunct2[OF conjunct2[OF ok]] by (simp only: raw)
  ultimately show ?thesis by (intro conjI)
qed


subsection \<open>A store with two players\<close>

definition two_players :: batch where
  "two_players = zero_batch\<lparr>ba_events := [zero_event\<lparr>ev_player := ''alpha''\<rparr>, zero_event\<lparr>ev_player := ''beta''\<rparr>]\<rparr>"

definition two_file :: stored_file where
  \<open>two_file = \<lparr>f_data = ''{"events":[{"player_id":"alpha"},{"player_id":"beta"}]}'', f_time = 5\<rparr>\<close>

definition two_store :: fs where
  "two_store = fmupd [''raw'', ''b.json''] two_file fmempty"

definition scrub_calm :: "(scrub_call \<Rightarrow> bool) \<Rightarrow> scrub_env" where
  "scrub_calm bad = \<lparr>sv_fails = bad, sv_temp = ''t'', sv_partial = 0, sv_now = 9\<rparr>"

lemma two_decoded: "unmarshal_batch (f_data two_file) = Some two_players"
  unfolding two_file_def by code_simp

lemma two_kept: "kept_events ''beta'' two_players = [zero_event\<lparr>ev_player := ''alpha''\<rparr>]"
  by code_simp

lemma two_marshalled: "marshal_batch (two_players\<lparr>ba_events := kept_events ''beta'' two_players\<rparr>) \<noteq> None"
  by code_simp

lemma two_matched: "\<not> list_all (\<lambda>e. \<not> event_matches e ''beta'') (ba_events two_players)"
  by code_simp

lemma two_walk: "walk [''raw''] two_store = [[''raw'', ''b.json'']]"
  by (simp add: walk_def two_store_def is_below_def sorted_list_of_fset.rep_eq)

lemma two_raw: "equal_fold (path_ext [''raw'', ''b.json'']) ''.json''"
  by (simp add: path_ext_def path_base_def equal_fold_def)

lemma two_lookup: "fmlookup two_store [''raw'', ''b.json''] = Some two_file"
  by (simp add: two_store_def)

lemma scrub_two: "\<exists>st fs'. scrub_raw (\<lambda>p. scrub_calm (\<lambda>c. False)) [''raw''] ''beta'' True two_store = (None, st, fs')"
proof -
  obtain body where m: "marshal_batch (two_players\<lparr>ba_events := kept_events ''beta'' two_players\<rparr>) = Some body"
    using two_marshalled by blast
  have "trim_space (path_string [''raw'']) = ''raw''" "trim_space ''beta'' = ''beta''"
    by (simp_all add: path_string_def trim_space_plain plain_char_def)
  moreover have "int (length (ba_events two_players)) - int (length (kept_events ''beta'' two_players)) = 1"
    "kept_events ''beta'' two_players \<noteq> []"
    by (simp_all add: two_kept) (simp add: two_players_def)
  moreover have "rewrite_path [''raw'', ''b.json''] (scrub_calm (\<lambda>c. False)) |\<notin>| fmdom two_store"
    by (simp add: rewrite_path_def scrub_calm_def two_store_def)
  ultimately show ?thesis
    by (simp add: scrub_raw_def two_walk two_raw scrub_file_def two_lookup two_decoded m replace_file_def
        scrub_calm_def Let_def)
qed

theorem scrub_exact_witness:
  "\<exists>st fs' f. scrub_raw (\<lambda>p. scrub_calm (\<lambda>c. False)) [''raw''] ''beta'' True two_store = (None, st, fs') \<and>
    fmlookup fs' [''raw'', ''b.json''] = Some f \<and> f_time f = 9"
proof -
  obtain st fs' where run: "scrub_raw (\<lambda>p. scrub_calm (\<lambda>c. False)) [''raw''] ''beta'' True two_store = (None, st, fs')"
    using scrub_two by blast
  have "[''raw'', ''b.json''] \<in> set (raw_files [''raw''] two_store)"
    by (simp add: raw_files_def two_walk two_raw)
  then obtain out where "scrubbed ''beta'' 9 two_file = Some out" "fmlookup fs' [''raw'', ''b.json''] = out"
    using scrub_exact[OF run] two_lookup by (auto simp: scrub_calm_def)
  moreover have "scrubbed ''beta'' 9 two_file \<noteq> Some None" "\<And>f. scrubbed ''beta'' 9 two_file = Some (Some f) \<Longrightarrow> f_time f = 9"
    using two_matched by (auto simp: scrubbed_def two_decoded two_kept split: option.splits)
  ultimately show ?thesis using run by (cases out) auto
qed


end
