(* ===== verification/Spec2Isabelle.thy ===== *)
theory Spec2Isabelle
  imports Uploader Ingest Spool Agent Evidence Analyse Retention Privacy
begin

text \<open>
  A verification development for dayz-behaviour.
\<close>

end
